theory Spec2Isabelle
  imports Complex_Main "HOL-Library.Char_ord" "HOL-Library.List_Lexorder"
begin

section \<open>The post-auction event matcher (event\_matcher.cc)\<close>

text \<open>
  A shallow embedding of \<^verbatim>\<open>rtbkit/core/post_auction/event_matcher.cc\<close>. The matcher
  owns two pending lists (\<open>submitted\<close>, \<open>finished\<close>); everything it does to its
  collaborators (the banker, the outcome sinks, the telemetry recorder) is appended, in
  program order, to a list of effects kept in the state. An exception is a value: every
  function that can throw returns the exception (if any) together with the state reached
  when it was thrown, because the mutations made before a throw are not undone.
\<close>

subsection \<open>Identifiers, money, dates\<close>

text \<open>
  \<open>Id\<close> is an opaque identifier with a string form; \<open>Id()\<close>, the null identifier
  for which \<^verbatim>\<open>!id\<close> holds, is the empty string. \<open>Date\<close> is a number of
  seconds; the null date \<open>Date()\<close> that a visitor returns to have an entry removed is
  \<open>None\<close> of \<open>Date option\<close>.
\<close>

type_synonym Id = string
type_synonym Date = real

text \<open>
  Modelled from the spec: \<open>Amount\<close> is declared outside this file. It is modelled by
  its value alone, in one currency, so \<open>Amount()\<close> is 0 and comparison is that of the
  values; where the source passes the currency string to the recorder, the argument is
  left out.
\<close>

type_synonym Amount = int

type_synonym AccountKey = "string list"
type_synonym UserIds = "string set"
type_synonym MatchKey = "Id \<times> Id"

definition nullId :: Id where
  "nullId = []"

definition makeBidId :: "Id \<Rightarrow> Id \<Rightarrow> string \<Rightarrow> string" where
  "makeBidId auctionId spotId agent = auctionId @ ''-'' @ spotId @ ''-'' @ agent"

datatype error = Exception string | BadFunctionCall | NullPointer

subsection \<open>Events and table entries\<close>

datatype PostAuctionEventType = PAE_INVALID | PAE_WIN | PAE_LOSS | PAE_CAMPAIGN_EVENT

text \<open>\<open>BS_OTHER\<close> stands for the enumerators of \<open>BidStatus\<close> other than win and loss.\<close>

datatype BidStatus = BS_WIN | BS_LOSS | BS_OTHER

fun print :: "PostAuctionEventType \<Rightarrow> string" where
  "print PAE_INVALID = ''INVALID''"
| "print PAE_WIN = ''WIN''"
| "print PAE_LOSS = ''LOSS''"
| "print PAE_CAMPAIGN_EVENT = ''EVENT''"

record PostAuctionEvent =
  evtype :: PostAuctionEventType
  label :: string
  auctionId :: Id
  adSpotId :: Id
  timestamp :: Date
  metadata :: string
  account :: AccountKey
  winPrice :: Amount
  uids :: UserIds
  bidTimestamp :: Date

text \<open>
  Modelled from the spec: a bid request is known here only through
  \<open>findAdSpotIndex\<close>, which gives the index of an ad spot in the request, or \<open>-1\<close>.
\<close>

record BidRequest =
  spots :: "Id list"

fun indexOf :: "Id \<Rightarrow> Id list \<Rightarrow> int \<Rightarrow> int" where
  "indexOf x [] i = -1"
| "indexOf x (y # ys) i = (if x = y then i else indexOf x ys (i + 1))"

definition findAdSpotIndex :: "BidRequest \<Rightarrow> Id \<Rightarrow> int" where
  "findAdSpotIndex br adSpot = indexOf adSpot (spots br) 0"

text \<open>\<open>Auction::Response\<close>: the bid as the agent made it (\<open>price.maxPrice\<close>, \<open>price.priority\<close>).\<close>

record Response =
  agent :: string
  r_account :: AccountKey
  maxPrice :: Amount
  priority :: real
  wcm :: string
  bidData :: string
  visitChannels :: "string list"

record SubmissionInfo =
  bidRequest :: "BidRequest option"
  bidRequestStr :: string
  bidRequestStrFormat :: string
  augmentations :: string
  bid :: Response
  earlyWinEvents :: "PostAuctionEvent list"
  earlyCampaignEvents :: "PostAuctionEvent list"

record FinishedInfo =
  fi_auctionId :: Id
  fi_adSpotId :: Id
  spotIndex :: int
  fi_bidRequest :: "BidRequest option"
  fi_bidRequestStr :: string
  fi_bidRequestStrFormat :: string
  fi_bid :: Response
  reportedStatus :: BidStatus
  winTime :: "Date option"
  price :: Amount
  fi_winPrice :: Amount
  winMeta :: string
  campaignEvents :: "(string \<times> Date \<times> string) list"
  fi_uids :: UserIds
  fi_visitChannels :: "string list"

text \<open>
  The bid request of a submitted auction is a shared pointer, which \<open>doAuction\<close> copies
  without testing it: \<open>None\<close> is the null pointer.
\<close>

record SubmittedAuctionEvent =
  sa_auctionId :: Id
  sa_adSpotId :: Id
  sa_lossTimeout :: Date
  sa_bidRequest :: "BidRequest option"
  sa_bidRequestStr :: string
  sa_bidRequestStrFormat :: string
  sa_augmentations :: string
  sa_bidResponse :: Response

text \<open>The default-constructed values \<open>Auction::Response()\<close>, \<open>SubmissionInfo()\<close>, \<open>FinishedInfo()\<close>.\<close>

definition Response0 :: Response where
  "Response0 = \<lparr>agent = [], r_account = [], maxPrice = 0, priority = 0, wcm = [],
     bidData = [], visitChannels = []\<rparr>"

definition SubmissionInfo0 :: SubmissionInfo where
  "SubmissionInfo0 = \<lparr>bidRequest = None, bidRequestStr = [], bidRequestStrFormat = [],
     augmentations = [], bid = Response0, earlyWinEvents = [], earlyCampaignEvents = []\<rparr>"

definition FinishedInfo0 :: FinishedInfo where
  "FinishedInfo0 = \<lparr>fi_auctionId = nullId, fi_adSpotId = nullId, spotIndex = -1,
     fi_bidRequest = None, fi_bidRequestStr = [], fi_bidRequestStrFormat = [],
     fi_bid = Response0, reportedStatus = BS_OTHER, winTime = None, price = 0,
     fi_winPrice = 0, winMeta = [], campaignEvents = [], fi_uids = {},
     fi_visitChannels = []\<rparr>"

text \<open>
  Modelled from the spec: the methods of \<open>FinishedInfo\<close> (declared outside this file).
  \<open>hasWin\<close> holds once a win or loss time has been set; \<open>setWin\<close> records the outcome
  of a fresh entry; \<open>forceWin\<close> overlays a win; \<open>campaignEvents\<close> holds at most one
  (timestamp, meta) per label; \<open>addUids\<close> unions the user ids seen.
\<close>

definition hasWin :: "FinishedInfo \<Rightarrow> bool" where
  "hasWin i = (winTime i \<noteq> None)"

definition setWin :: "Date \<Rightarrow> BidStatus \<Rightarrow> Amount \<Rightarrow> Amount \<Rightarrow> string \<Rightarrow> FinishedInfo \<Rightarrow> FinishedInfo" where
  "setWin t status p wp meta i =
     i\<lparr>winTime := Some t, reportedStatus := status, price := p, fi_winPrice := wp, winMeta := meta\<rparr>"

definition forceWin :: "Date \<Rightarrow> Amount \<Rightarrow> string \<Rightarrow> FinishedInfo \<Rightarrow> FinishedInfo" where
  "forceWin t wp meta i =
     i\<lparr>winTime := Some t, reportedStatus := BS_WIN, fi_winPrice := wp, winMeta := meta\<rparr>"

definition hasEvent :: "string \<Rightarrow> (string \<times> Date \<times> string) list \<Rightarrow> bool" where
  "hasEvent l ces = (l \<in> set (map fst ces))"

definition setEvent :: "string \<Rightarrow> Date \<Rightarrow> string \<Rightarrow> (string \<times> Date \<times> string) list \<Rightarrow> (string \<times> Date \<times> string) list" where
  "setEvent l t meta ces = ces @ [(l, t, meta)]"

definition addUids :: "UserIds \<Rightarrow> FinishedInfo \<Rightarrow> FinishedInfo" where
  "addUids us i = i\<lparr>fi_uids := fi_uids i \<union> us\<rparr>"

subsection \<open>The pending list\<close>

text \<open>
  Modelled from the spec: \<open>PendingList\<close> (declared outside this file) maps a key to a
  value with an absolute expiry time. It is a list of entries; \<open>pl_update\<close> keeps the
  entry's expiry, \<open>completePrefix\<close> (called with a null ad spot only) gives the stored
  key of that auction with the smallest ad spot, or the null key, and \<open>expire\<close> visits
  the entries with \<open>expiry \<le> now\<close> in non-decreasing order of expiry, removing each
  one unless the visitor returns a new expiry. \<open>pl_insert\<close> under a key already present
  replaces the entry; the matcher inserts under a present key in one situation only,
  the sweep inferring a loss for a key that is in both tables.
\<close>

type_synonym ('k, 'v) PendingList = "('k \<times> 'v \<times> Date) list"

definition pl_keys :: "('k, 'v) PendingList \<Rightarrow> 'k set" where
  "pl_keys pl = set (map fst pl)"

definition pl_count :: "('k, 'v) PendingList \<Rightarrow> 'k \<Rightarrow> bool" where
  "pl_count pl k = (k \<in> pl_keys pl)"

definition pl_get :: "('k, 'v) PendingList \<Rightarrow> 'k \<Rightarrow> 'v option" where
  "pl_get pl k = map_option fst (map_of pl k)"

definition pl_erase :: "'k \<Rightarrow> ('k, 'v) PendingList \<Rightarrow> ('k, 'v) PendingList" where
  "pl_erase k pl = filter (\<lambda>e. fst e \<noteq> k) pl"

definition pl_insert :: "'k \<Rightarrow> 'v \<Rightarrow> Date \<Rightarrow> ('k, 'v) PendingList \<Rightarrow> ('k, 'v) PendingList" where
  "pl_insert k v t pl = pl_erase k pl @ [(k, v, t)]"

definition pl_update :: "'k \<Rightarrow> 'v \<Rightarrow> ('k, 'v) PendingList \<Rightarrow> ('k, 'v) PendingList" where
  "pl_update k v pl = map (\<lambda>e. if fst e = k then (k, v, snd (snd e)) else e) pl"

definition completePrefix :: "(MatchKey, 'v) PendingList \<Rightarrow> MatchKey \<Rightarrow> MatchKey" where
  "completePrefix pl key =
     (case filter (\<lambda>k. fst k = fst key) (map fst pl) of
        [] \<Rightarrow> (nullId, nullId)
      | k # ks \<Rightarrow> fold (\<lambda>x m. if snd x < snd m then x else m) ks k)"

definition expired :: "Date \<Rightarrow> ('k, 'v) PendingList \<Rightarrow> ('k, 'v) PendingList" where
  "expired now pl = sort_key (\<lambda>e. snd (snd e)) (filter (\<lambda>e. snd (snd e) \<le> now) pl)"

definition expireStep ::
  "('k \<Rightarrow> 'v \<Rightarrow> 's \<Rightarrow> Date option \<times> 's) \<Rightarrow> 'k \<times> 'v \<times> Date \<Rightarrow> ('k, 'v) PendingList \<times> 's
     \<Rightarrow> ('k, 'v) PendingList \<times> 's" where
  "expireStep visit e acc =
     (case visit (fst e) (fst (snd e)) (snd acc) of
        (None, s') \<Rightarrow> (pl_erase (fst e) (fst acc), s')
      | (Some t', s') \<Rightarrow> (pl_insert (fst e) (fst (snd e)) t' (fst acc), s'))"

definition expire ::
  "('k \<Rightarrow> 'v \<Rightarrow> 's \<Rightarrow> Date option \<times> 's) \<Rightarrow> Date \<Rightarrow> ('k, 'v) PendingList \<Rightarrow> 's
     \<Rightarrow> ('k, 'v) PendingList \<times> 's" where
  "expire visit now pl s = fold (expireStep visit) (expired now pl) (pl, s)"

subsection \<open>Collaborators as effects\<close>

datatype WinLossType = Win | Loss | LateWin
datatype Confidence = Guaranteed | Inferred

text \<open>
  One constructor per call the matcher makes on a collaborator: the banker
  (\<open>attachBid\<close>, \<open>winBid\<close>, \<open>forceWinBid\<close>, \<open>cancelBid\<close>, \<open>logBidEvents\<close>), the three
  outcome sinks, and the recorder (\<open>recordHit\<close> and \<open>recordOutcome\<close> with their format
  string and arguments, \<open>doError\<close> with its scope and message).
\<close>

datatype Effect =
    AttachBid AccountKey string Amount
  | WinBid AccountKey string Amount
  | ForceWinBid AccountKey Amount
  | CancelBid AccountKey string
  | LogBidEvents
  | OnMatchedWinLoss WinLossType Confidence FinishedInfo Date UserIds
  | OnMatchedCampaignEvent string FinishedInfo
  | OnUnmatchedEvent string PostAuctionEvent
  | Hit string "string list"
  | Outcome real string "string list"
  | DoError string string

fun isBankerCommit :: "Effect \<Rightarrow> bool" where
  "isBankerCommit (WinBid a b p) = True"
| "isBankerCommit (ForceWinBid a p) = True"
| "isBankerCommit (CancelBid a b) = True"
| "isBankerCommit e = False"

fun isBankerCall :: "Effect \<Rightarrow> bool" where
  "isBankerCall (AttachBid a b p) = True"
| "isBankerCall LogBidEvents = True"
| "isBankerCall e = isBankerCommit e"

fun isOutcome :: "Effect \<Rightarrow> bool" where
  "isOutcome (OnMatchedWinLoss k c i t u) = True"
| "isOutcome (OnMatchedCampaignEvent l i) = True"
| "isOutcome (OnUnmatchedEvent w e) = True"
| "isOutcome e = False"

text \<open>
  What the matcher is constructed with: the two retention times, which of the optional
  sinks are set, and the win-cost model. The model's \<open>evaluate\<close> (with
  \<open>Bids::fromJson\<close> and \<open>bidForSpot\<close>) is declared outside this file and is a parameter:
  from the response, the spot index, the win metadata and the win price it gives the
  price to charge, or \<open>None\<close> when it throws.
\<close>

record Config =
  winTimeout :: real
  auctionTimeout :: real
  onMatchedWinLoss :: bool
  onMatchedCampaignEvent :: bool
  onUnmatchedEvent :: bool
  wcmEvaluate :: "Response \<Rightarrow> int \<Rightarrow> string \<Rightarrow> Amount \<Rightarrow> Amount option"

record State =
  submitted :: "(MatchKey, SubmissionInfo) PendingList"
  finished :: "(MatchKey, FinishedInfo) PendingList"
  effects :: "Effect list"
  numWins :: nat
  numLosses :: nat
  numCampaignEvents :: nat

definition emit :: "Effect \<Rightarrow> State \<Rightarrow> State" where
  "emit e st = st\<lparr>effects := effects st @ [e]\<rparr>"

definition recordHit :: "string \<Rightarrow> string list \<Rightarrow> State \<Rightarrow> State" where
  "recordHit fmt args st = emit (Hit fmt args) st"

definition recordOutcome :: "real \<Rightarrow> string \<Rightarrow> string list \<Rightarrow> State \<Rightarrow> State" where
  "recordOutcome v fmt args st = emit (Outcome v fmt args) st"

definition doError :: "string \<Rightarrow> string \<Rightarrow> State \<Rightarrow> State" where
  "doError scope msg st = emit (DoError scope msg) st"

definition initialState :: State where
  "initialState = \<lparr>submitted = [], finished = [], effects = [], numWins = 0,
     numLosses = 0, numCampaignEvents = 0\<rparr>"

subsection \<open>Utilities\<close>

text \<open>
  \<open>findAuction\<close> takes the ad spot by reference and completes it when it is null: the
  result is the ad spot after the call and the value found, \<open>None\<close> when the source
  returns false.
\<close>

definition findAuction :: "(MatchKey, 'v) PendingList \<Rightarrow> Id \<Rightarrow> Id \<Rightarrow> Id \<times> 'v option" where
  "findAuction pending aId spot =
     (if spot = nullId then
        (let key2 = completePrefix pending (aId, spot) in
         if fst key2 = aId then
           (if \<not> pl_count pending key2 then (snd key2, None)
            else (snd key2, pl_get pending key2))
         else (spot, None))
      else if \<not> pl_count pending (aId, spot) then (spot, None)
      else (spot, pl_get pending (aId, spot)))"

text \<open>
  \<open>AccountKey::toString(separator)\<close>: the elements of the key joined by the
  separator, which is a colon when none is given.
\<close>

fun accountToString :: "char \<Rightarrow> AccountKey \<Rightarrow> string" where
  "accountToString sep [] = []"
| "accountToString sep [x] = x"
| "accountToString sep (x # y # ys) = x @ [sep] @ accountToString sep (y # ys)"

text \<open>A loop over events that an exception leaves: the rest is not processed.\<close>

fun forEach :: "('a \<Rightarrow> 's \<Rightarrow> error option \<times> 's) \<Rightarrow> 'a list \<Rightarrow> 's \<Rightarrow> error option \<times> 's" where
  "forEach f [] s = (None, s)"
| "forEach f (x # xs) s =
     (case f x s of
        (Some e, s') \<Rightarrow> (Some e, s')
      | (None, s') \<Rightarrow> forEach f xs s')"

subsection \<open>doBidResult\<close>

text \<open>
  The record placed in the finished queue (the statements from \<open>FinishedInfo i\<close> to
  \<open>i.visitChannels = ...\<close>).
\<close>

definition makeFinishedInfo ::
  "Id \<Rightarrow> Id \<Rightarrow> int \<Rightarrow> SubmissionInfo \<Rightarrow> BidStatus \<Rightarrow> Date \<Rightarrow> Amount \<Rightarrow> Amount \<Rightarrow> string \<Rightarrow> UserIds
     \<Rightarrow> FinishedInfo" where
  "makeFinishedInfo aId spot adspot_num submission status ts p wp winLossMeta us =
     (addUids us (setWin ts status p wp winLossMeta
        (FinishedInfo0\<lparr>fi_auctionId := aId, fi_adSpotId := spot, spotIndex := adspot_num,
           fi_bidRequest := bidRequest submission,
           fi_bidRequestStr := bidRequestStr submission,
           fi_bidRequestStrFormat := bidRequestStrFormat submission,
           fi_bid := bid submission, reportedStatus := status\<rparr>)))
      \<lparr>fi_visitChannels := visitChannels (bid submission)\<rparr>"

text \<open>
  The end of \<open>doBidResult\<close>, from the finished record on: report to the sink when it is
  set, then insert into \<open>finished\<close> with the retention time of the status.
\<close>

definition finishBidResult ::
  "Config \<Rightarrow> Date \<Rightarrow> Id \<Rightarrow> Id \<Rightarrow> FinishedInfo \<Rightarrow> Date \<Rightarrow> BidStatus \<Rightarrow> Confidence \<Rightarrow> UserIds
     \<Rightarrow> State \<Rightarrow> State" where
  "finishBidResult cfg now aId spot i ts status confidence us st =
     (let st1 = (if onMatchedWinLoss cfg
                 then emit (OnMatchedWinLoss (if status = BS_WIN then Win else Loss)
                              confidence i ts us) st
                 else st);
          expiryInterval = (if status = BS_LOSS then auctionTimeout cfg else winTimeout cfg);
          expiryTime = now + expiryInterval
      in st1\<lparr>finished := pl_insert (aId, spot) i expiryTime (finished st1)\<rparr>)"

text \<open>
  Modelled from the spec: \<open>throwException\<close> (declared outside this file) raises a
  fatal per-event exception. The win-cost model is a parameter (see \<open>Config\<close>).

  The part of \<open>doBidResult\<close> that runs under the \<open>Call_Guard\<close>, from the no-bid check
  to the end. The result is the exception thrown (if any), whether the guard is still
  armed when the scope is left, and the state.
\<close>

definition doBidResultGuarded ::
  "Config \<Rightarrow> Date \<Rightarrow> Id \<Rightarrow> Id \<Rightarrow> SubmissionInfo \<Rightarrow> int \<Rightarrow> Amount \<Rightarrow> Date \<Rightarrow> BidStatus
     \<Rightarrow> Confidence \<Rightarrow> string \<Rightarrow> UserIds \<Rightarrow> State \<Rightarrow> error option \<times> bool \<times> State" where
  "doBidResultGuarded cfg now aId spot submission adspot_num wp ts status confidence
       winLossMeta us st =
     (let response = bid submission;
          acc = r_account response;
          bidPrice = maxPrice response
      in if bidPrice = 0 \<and> priority response = 0
         then (Some (Exception ''bid response had no bid price''), True, st)
         else if status = BS_WIN
         then (case wcmEvaluate cfg response adspot_num winLossMeta wp of
                 None \<Rightarrow> (Some (Exception ''win cost model''), True, st)
               | Some p \<Rightarrow>
                   (let st1 = recordOutcome (of_int wp) ''accounts.%s.winPrice.%s''
                                [accountToString (CHR ''.'') acc] st;
                        st2 = recordOutcome (of_int p) ''accounts.%s.winCostPrice.%s''
                                [accountToString (CHR ''.'') acc] st1;
                        st3 = emit (WinBid acc (makeBidId aId spot (agent response)) p) st2
                    in (None, False,
                        finishBidResult cfg now aId spot
                          (makeFinishedInfo aId spot adspot_num submission status ts p wp
                             winLossMeta us)
                          ts status confidence us st3)))
         else (None, True,
               finishBidResult cfg now aId spot
                 (makeFinishedInfo aId spot adspot_num submission status ts wp wp
                    winLossMeta us)
                 ts status confidence us st))"

text \<open>
  \<open>doBidResult\<close>. The guard is constructed before the no-bid check; when the scope is
  left, by return or by exception, with the guard not cleared, its destructor calls
  \<open>banker->cancelBid\<close>. The wall clock \<open>now\<close> is a parameter. The source dereferences
  \<open>submission.bidRequest\<close>; a null one is the error \<open>NullPointer\<close>.
\<close>

definition doBidResult ::
  "Config \<Rightarrow> Date \<Rightarrow> Id \<Rightarrow> Id \<Rightarrow> SubmissionInfo \<Rightarrow> Amount \<Rightarrow> Date \<Rightarrow> BidStatus \<Rightarrow> Confidence
     \<Rightarrow> string \<Rightarrow> UserIds \<Rightarrow> State \<Rightarrow> error option \<times> State" where
  "doBidResult cfg now aId spot submission wp ts status confidence winLossMeta us st =
     (if status \<noteq> BS_WIN \<and> status \<noteq> BS_LOSS
      then (Some (Exception ''submitted non win/loss''), st)
      else if spot = nullId
      then (Some (Exception ''inserting null entry in finished map''), st)
      else (case bidRequest submission of
              None \<Rightarrow> (Some NullPointer, st)
            | Some br \<Rightarrow>
                (let adspot_num = findAdSpotIndex br spot;
                     st1 = (if adspot_num = -1
                            then doError ''doBidResult.adSpotIdNotFound''
                                   (''adspot ID '' @ spot @ '' not found in auction ''
                                      @ bidRequestStr submission) st
                            else st);
                     response = bid submission;
                     acc = r_account response
                 in if length acc = 0
                    then (Some (Exception ''invalid account key''), st1)
                    else (let bidPrice = maxPrice response;
                              st2 = (if wp > bidPrice
                                     then doError ''doBidResult.winPriceExceedsBidPrice''
                                            ''win price %s exceeds bid price %s'' st1
                                     else st1);
                              r = doBidResultGuarded cfg now aId spot submission adspot_num
                                    wp ts status confidence winLossMeta us st2
                          in (fst r,
                              if fst (snd r)
                              then emit (CancelBid acc (makeBidId aId spot (agent response)))
                                     (snd (snd r))
                              else snd (snd r))))))"

subsection \<open>doCampaignEvent\<close>

text \<open>
  The lambda \<open>recordUnmatched\<close> calls \<open>onUnmatchedEvent\<close> without testing it: calling an
  empty \<open>std::function\<close> throws \<open>std::bad_function_call\<close>.
\<close>

definition recordUnmatched :: "Config \<Rightarrow> string \<Rightarrow> PostAuctionEvent \<Rightarrow> State \<Rightarrow> error option \<times> State" where
  "recordUnmatched cfg why event st =
     (if onUnmatchedEvent cfg then (None, emit (OnUnmatchedEvent why event) st)
      else (Some BadFunctionCall, st))"

text \<open>The branch of \<open>doCampaignEvent\<close> for an auction found in \<open>submitted\<close>.\<close>

definition campaignInFlight ::
  "Config \<Rightarrow> PostAuctionEvent \<Rightarrow> Id \<Rightarrow> SubmissionInfo \<Rightarrow> State \<Rightarrow> error option \<times> State" where
  "campaignInFlight cfg event spot submissionInfo st =
     (let st1 = recordHit ''delivery.%s.stillInFlight'' [label event] st;
          st2 = doError (''doCampaignEvent.auctionNotWon'' @ label event)
                  ''message for auction that's not won'' st1
      in case recordUnmatched cfg ''inFlight'' event st2 of
           (Some e, s) \<Rightarrow> (Some e, s)
         | (None, st3) \<Rightarrow>
             (None, st3\<lparr>submitted :=
                pl_update (auctionId event, spot)
                  (submissionInfo\<lparr>earlyCampaignEvents :=
                     earlyCampaignEvents submissionInfo @ [event]\<rparr>)
                  (submitted st3)\<rparr>))"

text \<open>The branch of \<open>doCampaignEvent\<close> for an auction found in \<open>finished\<close>.\<close>

definition campaignFinished ::
  "Config \<Rightarrow> PostAuctionEvent \<Rightarrow> Id \<Rightarrow> FinishedInfo \<Rightarrow> State \<Rightarrow> error option \<times> State" where
  "campaignFinished cfg event spot finishedInfo st =
     (if hasEvent (label event) (campaignEvents finishedInfo)
      then (let st1 = recordHit ''delivery.%s.duplicate'' [label event] st;
                st2 = doError (''doCampaignEvent.duplicate'' @ label event)
                        ''message duplicated'' st1
            in recordUnmatched cfg ''duplicate'' event st2)
      else (let fi1 = finishedInfo\<lparr>campaignEvents :=
                        setEvent (label event) (timestamp event) (metadata event)
                          (campaignEvents finishedInfo)\<rparr>;
                st1 = st\<lparr>numCampaignEvents := numCampaignEvents st + 1\<rparr>;
                st2 = recordHit ''delivery.%s.account.%s.matched''
                        [label event, accountToString (CHR '':'') (r_account (fi_bid fi1))] st1
            in if spot = nullId
               then (Some (Exception ''updating null entry in finished map''), st2)
               else (let fi2 = addUids (uids event) fi1;
                         st3 = st2\<lparr>finished :=
                                 pl_update (auctionId event, spot) fi2 (finished st2)\<rparr>
                     in (None,
                         if onMatchedCampaignEvent cfg
                         then emit (OnMatchedCampaignEvent (label event) fi2) st3
                         else st3))))"

definition doCampaignEvent :: "Config \<Rightarrow> PostAuctionEvent \<Rightarrow> State \<Rightarrow> error option \<times> State" where
  "doCampaignEvent cfg event st =
     (if evtype event \<noteq> PAE_CAMPAIGN_EVENT
      then (Some (Exception ''event type must be PAE_CAMPAIGN_EVENT''), st)
      else (let st1 = recordHit ''delivery.EVENT.%s.messagesReceived'' [label event] st
            in case findAuction (submitted st1) (auctionId event) (adSpotId event) of
                 (spot1, Some submissionInfo) \<Rightarrow>
                   campaignInFlight cfg event spot1 submissionInfo st1
               | (spot1, None) \<Rightarrow>
                   (case findAuction (finished st1) (auctionId event) spot1 of
                      (spot2, Some finishedInfo) \<Rightarrow>
                        campaignFinished cfg event spot2 finishedInfo st1
                    | (spot2, None) \<Rightarrow>
                        (let st2 = recordHit ''delivery.%s.auctionNotFound'' [label event] st1;
                             st3 = doError (''doCampaignEvent.auctionNotFound'' @ label event)
                                     ''auction not found for delivery message'' st2
                         in recordUnmatched cfg ''auctionNotFound'' event st3))))"

subsection \<open>doWinLoss\<close>

definition lossTimeout :: real where
  "lossTimeout = 15.0"

text \<open>The lambda \<open>getTimeGapMs\<close>, with the wall clock \<open>now\<close> as a parameter.\<close>

definition getTimeGapMs :: "Date \<Rightarrow> PostAuctionEvent \<Rightarrow> real" where
  "getTimeGapMs now event = 1000.0 * (now - bidTimestamp event)"

text \<open>
  The key is in \<open>finished\<close>: a duplicate, or a result for an auction already finished;
  a win among the latter is a late win. (\<open>get\<close> on a key that \<open>count\<close> has found does
  not fail; the \<open>None\<close> case is there for totality.)
\<close>

definition winLossFinished ::
  "Config \<Rightarrow> Date \<Rightarrow> PostAuctionEvent \<Rightarrow> BidStatus \<Rightarrow> State \<Rightarrow> error option \<times> State" where
  "winLossFinished cfg now event status st =
     (let typeStr = print (evtype event);
          key = (auctionId event, adSpotId event)
      in case pl_get (finished st) key of
           None \<Rightarrow> (Some (Exception ''key not found''), st)
         | Some info \<Rightarrow>
             if hasWin info \<and> status = reportedStatus info
             then (if winPrice event = fi_winPrice info
                   then (None, recordHit ''bidResult.%s.duplicate'' [typeStr] st)
                   else (None, recordHit ''bidResult.%s.duplicateWithDifferentPrice''
                                 [typeStr] st))
             else (let st1 = recordHit ''bidResult.%s.auctionAlreadyFinished'' [typeStr] st;
                       st2 = recordOutcome (getTimeGapMs now event)
                               ''bidResult.%s.alreadyFinishedTimeSinceBidSubmittedMs''
                               [typeStr] st1
                   in if evtype event = PAE_WIN
                      then (let st3 = emit (ForceWinBid (r_account (fi_bid info))
                                              (winPrice event)) st2;
                                info' = forceWin (timestamp event) (winPrice event)
                                          (metadata event) info;
                                st4 = st3\<lparr>finished := pl_update key info' (finished st3)\<rparr>;
                                st5 = (if onMatchedWinLoss cfg
                                       then emit (OnMatchedWinLoss LateWin Guaranteed info'
                                                    (timestamp event) (uids event)) st4
                                       else st4);
                                st6 = recordHit ''bidResult.%s.winAfterLossAssumed''
                                        [typeStr] st5
                            in (None,
                                recordOutcome (of_int (winPrice event))
                                  ''bidResult.%s.winAfterLossAssumedAmount.%s'' [typeStr] st6))
                      else (None, st2)))"

text \<open>The key is neither in \<open>finished\<close> nor in \<open>submitted\<close>: an early or a really late event.\<close>

definition winLossNotSubmitted ::
  "Date \<Rightarrow> PostAuctionEvent \<Rightarrow> State \<Rightarrow> error option \<times> State" where
  "winLossNotSubmitted now event st =
     (let typeStr = print (evtype event);
          key = (auctionId event, adSpotId event);
          timeGapMs = getTimeGapMs now event
      in if timeGapMs < lossTimeout * 1000
         then (let st1 = recordHit ''bidResult.%s.noBidSubmitted'' [typeStr] st;
                   info = SubmissionInfo0\<lparr>earlyWinEvents := [event]\<rparr>
               in (None, st1\<lparr>submitted :=
                           pl_insert key info (now + lossTimeout) (submitted st1)\<rparr>))
         else (let st1 = recordHit ''bidResult.%s.notInSubmitted'' [typeStr] st;
                   st2 = recordOutcome timeGapMs
                           ''bidResult.%s.notInSubmittedTimeSinceBidSubmittedMs'' [typeStr] st1
               in (None,
                   if account event \<noteq> []
                   then emit (ForceWinBid (account event) (winPrice event)) st2
                   else st2)))"

text \<open>The key is in \<open>submitted\<close>: the entry is popped, then buffered again or resolved.\<close>

definition winLossSubmitted ::
  "Config \<Rightarrow> Date \<Rightarrow> PostAuctionEvent \<Rightarrow> BidStatus \<Rightarrow> State \<Rightarrow> error option \<times> State" where
  "winLossSubmitted cfg now event status st =
     (let typeStr = print (evtype event);
          key = (auctionId event, adSpotId event)
      in case pl_get (submitted st) key of
           None \<Rightarrow> (Some (Exception ''key not found''), st)
         | Some info \<Rightarrow>
             (let st1 = st\<lparr>submitted := pl_erase key (submitted st)\<rparr>
              in if bidRequest info = None
                 then (None, st1\<lparr>submitted :=
                          pl_insert key (info\<lparr>earlyWinEvents := earlyWinEvents info @ [event]\<rparr>)
                            (now + lossTimeout) (submitted st1)\<rparr>)
                 else (let st2 = recordHit ''bidResult.%s.delivered'' [typeStr] st1;
                           confidence = (if status = BS_WIN then Guaranteed else Inferred)
                       in case doBidResult cfg now (auctionId event) (adSpotId event) info
                                 (winPrice event) (timestamp event) status confidence
                                 (metadata event) (uids event) st2 of
                            (Some e, s) \<Rightarrow> (Some e, s)
                          | (None, st3) \<Rightarrow>
                              forEach (doCampaignEvent cfg) (earlyCampaignEvents info) st3)))"

definition doWinLoss ::
  "Config \<Rightarrow> Date \<Rightarrow> PostAuctionEvent \<Rightarrow> bool \<Rightarrow> State \<Rightarrow> error option \<times> State" where
  "doWinLoss cfg now event isReplay st =
     (let status = (if evtype event = PAE_WIN then BS_WIN else BS_LOSS);
          st0 = (if evtype event = PAE_WIN
                 then recordHit ''processedWin'' [] (st\<lparr>numWins := numWins st + 1\<rparr>)
                 else recordHit ''processedLoss'' [] (st\<lparr>numLosses := numLosses st + 1\<rparr>));
          typeStr = print (evtype event);
          st1 = (if \<not> isReplay
                 then recordHit ''bidResult.%s.messagesReceived'' [typeStr] st0
                 else recordHit ''bidResult.%s.messagesReplayed'' [typeStr] st0);
          key = (auctionId event, adSpotId event)
      in if pl_count (finished st1) key then winLossFinished cfg now event status st1
         else if \<not> pl_count (submitted st1) key then winLossNotSubmitted now event st1
         else winLossSubmitted cfg now event status st1)"

subsection \<open>The entry points\<close>

text \<open>\<open>doEvent\<close> catches whatever its handlers throw; only a line of log is written.\<close>

definition doEvent :: "Config \<Rightarrow> Date \<Rightarrow> PostAuctionEvent \<Rightarrow> State \<Rightarrow> State" where
  "doEvent cfg now event st =
     (case evtype event of
        PAE_WIN \<Rightarrow> snd (doWinLoss cfg now event False st)
      | PAE_LOSS \<Rightarrow> snd (doWinLoss cfg now event False st)
      | PAE_CAMPAIGN_EVENT \<Rightarrow> snd (doCampaignEvent cfg event st)
      | PAE_INVALID \<Rightarrow> st)"

definition replayEarlyWin :: "Config \<Rightarrow> Date \<Rightarrow> PostAuctionEvent \<Rightarrow> State \<Rightarrow> error option \<times> State" where
  "replayEarlyWin cfg now event st =
     doWinLoss cfg now event True (recordHit ''replayedEarlyWinEvent'' [] st)"

definition doAuction :: "Config \<Rightarrow> Date \<Rightarrow> SubmittedAuctionEvent \<Rightarrow> State \<Rightarrow> State" where
  "doAuction cfg now event st =
     (let st1 = recordHit ''processedAuction'' [] st;
          key = (sa_auctionId event, sa_adSpotId event);
          popped = (if pl_count (submitted st1) key
                    then pl_get (submitted st1) key else None);
          submission = (case popped of None \<Rightarrow> SubmissionInfo0
                        | Some s \<Rightarrow> s\<lparr>earlyWinEvents := []\<rparr>);
          early = (case popped of None \<Rightarrow> [] | Some s \<Rightarrow> earlyWinEvents s);
          st2 = (if pl_count (submitted st1) key
                 then recordHit ''auctionAlreadySubmitted'' []
                        (st1\<lparr>submitted := pl_erase key (submitted st1)\<rparr>)
                 else st1);
          submission' = submission\<lparr>bidRequest := sa_bidRequest event,
                          bidRequestStrFormat := sa_bidRequestStrFormat event,
                          bidRequestStr := sa_bidRequestStr event,
                          augmentations := sa_augmentations event,
                          bid := sa_bidResponse event\<rparr>;
          st3 = st2\<lparr>submitted :=
                  pl_insert key submission' (sa_lossTimeout event) (submitted st2)\<rparr>;
          transId = makeBidId (sa_auctionId event) (sa_adSpotId event)
                      (agent (sa_bidResponse event));
          st4 = emit (AttachBid (r_account (sa_bidResponse event)) transId
                        (maxPrice (sa_bidResponse event))) st3
      in snd (forEach (replayEarlyWin cfg now) early st4))"

subsection \<open>checkExpiredAuctions\<close>

fun what :: "error \<Rightarrow> string" where
  "what (Exception msg) = msg"
| "what BadFunctionCall = ''bad_function_call''"
| "what NullPointer = ''null pointer''"

text \<open>
  The two visitors. Both return the null date, so every entry visited is removed. The
  clock is read once per sweep: \<open>start\<close> is also the time at which \<open>doBidResult\<close> and
  the sweep of \<open>finished\<close> read it.
\<close>

definition onExpiredSubmitted ::
  "Config \<Rightarrow> Date \<Rightarrow> MatchKey \<Rightarrow> SubmissionInfo \<Rightarrow> State \<Rightarrow> Date option \<times> State" where
  "onExpiredSubmitted cfg start key info st =
     (let st1 = recordHit ''submittedAuctionExpiry'' [] st
      in if bidRequest info = None
         then (None, recordHit ''submittedAuctionExpiryWithoutBid'' [] st1)
         else (case doBidResult cfg start (fst key) (snd key) info 0 start BS_LOSS Inferred
                      ''null'' {} st1 of
                 (Some e, s) \<Rightarrow> (None, doError ''checkExpiredAuctions.loss'' (what e) s)
               | (None, s) \<Rightarrow> (None, s)))"

definition onExpiredFinished :: "MatchKey \<Rightarrow> FinishedInfo \<Rightarrow> State \<Rightarrow> Date option \<times> State" where
  "onExpiredFinished key info st = (None, recordHit ''finishedAuctionExpiry'' [] st)"

text \<open>
  Neither visitor touches the list being swept, so the list that \<open>expire\<close> returns
  replaces the one in the state the visitors have been threading.
\<close>

definition checkExpiredAuctions :: "Config \<Rightarrow> Date \<Rightarrow> State \<Rightarrow> State" where
  "checkExpiredAuctions cfg start st =
     (let r1 = expire (onExpiredSubmitted cfg start) start (submitted st) st;
          st1 = (snd r1)\<lparr>submitted := fst r1\<rparr>;
          r2 = expire onExpiredFinished start (finished st1) st1;
          st2 = (snd r2)\<lparr>finished := fst r2\<rparr>
      in emit LogBidEvents st2)"

subsection \<open>The host's loop\<close>

text \<open>
  Modelled from the spec: the host (declared outside this file) feeds \<open>doAuction\<close>,
  \<open>doEvent\<close> and \<open>checkExpiredAuctions\<close> serially from a single loop. A history is
  the list of these calls, each with the time at which it reads the clock.
\<close>

datatype Op =
    OpAuction Date SubmittedAuctionEvent
  | OpEvent Date PostAuctionEvent
  | OpSweep Date

fun step :: "Config \<Rightarrow> Op \<Rightarrow> State \<Rightarrow> State" where
  "step cfg (OpAuction now event) st = doAuction cfg now event st"
| "step cfg (OpEvent now event) st = doEvent cfg now event st"
| "step cfg (OpSweep now) st = checkExpiredAuctions cfg now st"

definition run :: "Config \<Rightarrow> Op list \<Rightarrow> State \<Rightarrow> State" where
  "run cfg ops st = fold (step cfg) ops st"

subsection \<open>Concrete inputs\<close>

text \<open>
  A matcher with every sink set and a win-cost model that charges the win price; one
  auction \<open>A1\<close> with one ad spot \<open>S1\<close>, a bid of at most 100, and the events about it. The
  auction is submitted at time 0 and expires, unanswered, at time 15.
\<close>

definition cfg0 :: Config where
  "cfg0 = \<lparr>winTimeout = 3600, auctionTimeout = 3600, onMatchedWinLoss = True,
     onMatchedCampaignEvent = True, onUnmatchedEvent = True,
     wcmEvaluate = (\<lambda>r i m wp. Some wp)\<rparr>"

definition resp1 :: Response where
  "resp1 = \<lparr>agent = ''bob'', r_account = [''camp'', ''strat''], maxPrice = 100,
     priority = 1, wcm = [], bidData = [], visitChannels = []\<rparr>"

definition submit1 :: SubmittedAuctionEvent where
  "submit1 = \<lparr>sa_auctionId = ''A1'', sa_adSpotId = ''S1'', sa_lossTimeout = 15,
     sa_bidRequest = Some \<lparr>spots = [''S1'']\<rparr>, sa_bidRequestStr = ''{}'',
     sa_bidRequestStrFormat = ''json'', sa_augmentations = [], sa_bidResponse = resp1\<rparr>"

definition win1 :: PostAuctionEvent where
  "win1 = \<lparr>evtype = PAE_WIN, label = [], auctionId = ''A1'', adSpotId = ''S1'',
     timestamp = 1, metadata = ''{}'', account = [''camp'', ''strat''], winPrice = 80,
     uids = {}, bidTimestamp = 0\<rparr>"

definition loss1 :: PostAuctionEvent where
  "loss1 = win1\<lparr>evtype := PAE_LOSS, winPrice := 0\<rparr>"

definition imp1 :: PostAuctionEvent where
  "imp1 = win1\<lparr>evtype := PAE_CAMPAIGN_EVENT, label := ''IMPRESSION'', timestamp := 2\<rparr>"

text \<open>The same auction with a response that bids nothing (price 0, priority 0).\<close>

definition submitNoBid :: SubmittedAuctionEvent where
  "submitNoBid = submit1\<lparr>sa_bidResponse := resp1\<lparr>maxPrice := 0, priority := 0\<rparr>\<rparr>"

text \<open>
  The same auction submitted with a null bid request, with an empty account, and with a
  null ad spot (and the win event for the latter).
\<close>

definition submitNullRequest :: SubmittedAuctionEvent where
  "submitNullRequest = submit1\<lparr>sa_bidRequest := None\<rparr>"

definition submitNoAccount :: SubmittedAuctionEvent where
  "submitNoAccount = submit1\<lparr>sa_bidResponse := resp1\<lparr>r_account := []\<rparr>\<rparr>"

definition submitNoSpot :: SubmittedAuctionEvent where
  "submitNoSpot = submit1\<lparr>sa_adSpotId := []\<rparr>"

definition winNoSpot :: PostAuctionEvent where
  "winNoSpot = win1\<lparr>adSpotId := []\<rparr>"

text \<open>The entry that \<open>doAuction\<close> stores for \<open>submitNoBid\<close>.\<close>

definition infoNoBid :: SubmissionInfo where
  "infoNoBid = \<lparr>bidRequest = Some \<lparr>spots = [''S1'']\<rparr>, bidRequestStr = ''{}'',
     bidRequestStrFormat = ''json'', augmentations = [],
     bid = resp1\<lparr>maxPrice := 0, priority := 0\<rparr>, earlyWinEvents = [],
     earlyCampaignEvents = []\<rparr>"

text \<open>
  The state after \<open>submitNoBid\<close> has been submitted and an impression for it has been
  buffered on the submission.
\<close>

definition stNoBid :: State where
  "stNoBid = initialState\<lparr>submitted :=
     [((''A1'', ''S1''), infoNoBid\<lparr>earlyCampaignEvents := [imp1]\<rparr>, 15)]\<rparr>"

text \<open>
  The states of three short histories: \<open>submit1\<close> submitted at time 0 (\<open>st1\<close>, where
  \<open>info1\<close> is the entry stored); then won at time 1 (\<open>stWon1\<close>); or, instead, swept
  at time 20 (\<open>stLost1\<close>).
\<close>

definition info1 :: SubmissionInfo where
  "info1 = \<lparr>bidRequest = Some \<lparr>spots = [''S1'']\<rparr>, bidRequestStr = ''{}'',
     bidRequestStrFormat = ''json'', augmentations = [], bid = resp1, earlyWinEvents = [],
     earlyCampaignEvents = []\<rparr>"

definition st1 :: State where
  "st1 = doAuction cfg0 0 submit1 initialState"

definition stWon1 :: State where
  "stWon1 = doEvent cfg0 1 win1 st1"

definition stLost1 :: State where
  "stLost1 = checkExpiredAuctions cfg0 20 st1"

text \<open>The finished entry of \<open>stLost1\<close>: the inferred loss that the sweep at time 20 records.\<close>

definition fiLost1 :: FinishedInfo where
  "fiLost1 = makeFinishedInfo ''A1'' ''S1'' 0 info1 BS_LOSS 20 0 0 ''null'' {}"

text \<open>
  The finished entry of \<open>stWon1\<close>, and the state after an impression has been matched
  to it at time 3.
\<close>

definition fiWon1 :: FinishedInfo where
  "fiWon1 = makeFinishedInfo ''A1'' ''S1'' 0 info1 BS_WIN 1 80 80 ''{}'' {}"

definition stImp1 :: State where
  "stImp1 = doEvent cfg0 3 imp1 stWon1"

subsection \<open>Observations\<close>

text \<open>What an operation has appended to the effects of the state it started from.\<close>

definition newEffects :: "State \<Rightarrow> State \<Rightarrow> Effect list" where
  "newEffects st st' = drop (length (effects st)) (effects st')"

text \<open>
  \<open>appends P st st'\<close>: the effects of \<open>st'\<close> are those of \<open>st\<close> followed by effects
  that all satisfy \<open>P\<close>.
\<close>

definition appends :: "(Effect \<Rightarrow> bool) \<Rightarrow> State \<Rightarrow> State \<Rightarrow> bool" where
  "appends P st st' \<longleftrightarrow> (\<exists>xs. effects st' = effects st @ xs \<and> list_all P xs)"

definition notBanker :: "Effect \<Rightarrow> bool" where
  "notBanker e = (\<not> isBankerCall e)"

text \<open>
  The state of \<open>doWinLoss\<close> once it has counted the event (\<open>countedState\<close>), and the
  state in which it calls \<open>doBidResult\<close>, the submission popped and the delivery
  counted (\<open>deliveredState\<close>).
\<close>

definition countedState :: "PostAuctionEvent \<Rightarrow> bool \<Rightarrow> State \<Rightarrow> State" where
  "countedState event isReplay st =
     (let st0 = (if evtype event = PAE_WIN
                 then recordHit ''processedWin'' [] (st\<lparr>numWins := numWins st + 1\<rparr>)
                 else recordHit ''processedLoss'' [] (st\<lparr>numLosses := numLosses st + 1\<rparr>))
      in if \<not> isReplay
         then recordHit ''bidResult.%s.messagesReceived'' [print (evtype event)] st0
         else recordHit ''bidResult.%s.messagesReplayed'' [print (evtype event)] st0)"

definition deliveredState :: "PostAuctionEvent \<Rightarrow> bool \<Rightarrow> State \<Rightarrow> State" where
  "deliveredState event isReplay st =
     recordHit ''bidResult.%s.delivered'' [print (evtype event)]
       ((countedState event isReplay st)
          \<lparr>submitted := pl_erase (auctionId event, adSpotId event) (submitted st)\<rparr>)"

text \<open>The key has a finished entry whose reported status is a win.\<close>

definition wonAt :: "MatchKey \<Rightarrow> State \<Rightarrow> bool" where
  "wonAt k st = (case pl_get (finished st) k of
                   None \<Rightarrow> False
                 | Some i \<Rightarrow> reportedStatus i = BS_WIN)"

text \<open>No key is in \<open>submitted\<close> and in \<open>finished\<close> at once.\<close>

definition exclusive :: "State \<Rightarrow> bool" where
  "exclusive st \<longleftrightarrow> pl_keys (submitted st) \<inter> pl_keys (finished st) = {}"

text \<open>
  A submission either has its bid request or buffers at least one early event; and
  every entry of \<open>submitted\<close> is such.
\<close>

definition buffersEarly :: "SubmissionInfo \<Rightarrow> bool" where
  "buffersEarly v \<longleftrightarrow>
     bidRequest v \<noteq> None \<or> earlyWinEvents v \<noteq> [] \<or> earlyCampaignEvents v \<noteq> []"

definition earlyInvariant :: "State \<Rightarrow> bool" where
  "earlyInvariant st \<longleftrightarrow> list_all (\<lambda>e. buffersEarly (fst (snd e))) (submitted st)"

text \<open>The state after a win for \<open>(A1, S1)\<close> has arrived, at time 1, before its auction.\<close>

definition stEarly1 :: State where
  "stEarly1 = doEvent cfg0 1 win1 initialState"

text \<open>
  The state once the sweep has visited every expired entry of \<open>submitted\<close>, in order
  of expiry (the tables are updated afterwards).
\<close>

definition sweptSubmitted :: "Config \<Rightarrow> Date \<Rightarrow> State \<Rightarrow> State" where
  "sweptSubmitted cfg now st =
     fold (\<lambda>e s. snd (onExpiredSubmitted cfg now (fst e) (fst (snd e)) s))
       (expired now (submitted st)) st"

text \<open>
  The banker calls that settle a reservation (\<open>winBid\<close>, \<open>cancelBid\<close>) and the one
  that makes it (\<open>attachBid\<close>); the entries of \<open>submitted\<close> that have their bid
  request; and the account that the matcher keeps of them: the keys of \<open>submitted\<close>
  are distinct, and the reservations settled so far together with the submissions
  still pending are no more than the reservations made.
\<close>

fun isResolution :: "Effect \<Rightarrow> bool" where
  "isResolution (WinBid a b p) = True"
| "isResolution (CancelBid a b) = True"
| "isResolution e = False"

fun isAttach :: "Effect \<Rightarrow> bool" where
  "isAttach (AttachBid a b p) = True"
| "isAttach e = False"

definition hasBid :: "MatchKey \<times> SubmissionInfo \<times> Date \<Rightarrow> bool" where
  "hasBid e \<longleftrightarrow> bidRequest (fst (snd e)) \<noteq> None"

definition accounted :: "State \<Rightarrow> bool" where
  "accounted st \<longleftrightarrow>
     distinct (map fst (submitted st))
     \<and> length (filter isResolution (effects st)) + length (filter hasBid (submitted st))
         \<le> length (filter isAttach (effects st))"

text \<open>
  \<open>settles st st'\<close>: going from \<open>st\<close> to \<open>st'\<close> makes no reservation and settles no
  more reservations than it takes submissions with a bid request out of \<open>submitted\<close>
  (the keys of \<open>submitted\<close> being distinct, and staying so).
\<close>

definition settles :: "State \<Rightarrow> State \<Rightarrow> bool" where
  "settles st st' \<longleftrightarrow>
     (distinct (map fst (submitted st)) \<longrightarrow>
        distinct (map fst (submitted st'))
        \<and> length (filter isAttach (effects st')) = length (filter isAttach (effects st))
        \<and> length (filter isResolution (effects st')) + length (filter hasBid (submitted st'))
            \<le> length (filter isResolution (effects st)) + length (filter hasBid (submitted st)))"

text \<open>
  The errors that \<open>doBidResult\<close> records, without stopping, before it arms the guard;
  the state in which the guarded part starts has these appended.
\<close>

definition bidResultErrors :: "BidRequest \<Rightarrow> Id \<Rightarrow> SubmissionInfo \<Rightarrow> Amount \<Rightarrow> Effect list" where
  "bidResultErrors br spot submission wp =
     (if findAdSpotIndex br spot = -1
      then [DoError ''doBidResult.adSpotIdNotFound''
              (''adspot ID '' @ spot @ '' not found in auction '' @ bidRequestStr submission)]
      else [])
     @ (if wp > maxPrice (bid submission)
        then [DoError ''doBidResult.winPriceExceedsBidPrice''
                ''win price %s exceeds bid price %s'']
        else [])"

section \<open>Basic facts\<close>

lemma emit_simps [simp]:
  "effects (emit e st) = effects st @ [e]"
  "submitted (emit e st) = submitted st"
  "finished (emit e st) = finished st"
  "numWins (emit e st) = numWins st"
  "numLosses (emit e st) = numLosses st"
  "numCampaignEvents (emit e st) = numCampaignEvents st"
  by (simp_all add: emit_def)

lemmas recorder_defs = recordHit_def recordOutcome_def doError_def

lemmas example_defs = cfg0_def resp1_def submit1_def win1_def loss1_def imp1_def
  submitNoBid_def infoNoBid_def initialState_def stNoBid_def info1_def st1_def stWon1_def
  stLost1_def fiLost1_def fiWon1_def stImp1_def stEarly1_def submitNullRequest_def
  submitNoAccount_def submitNoSpot_def winNoSpot_def

lemmas pl_defs = pl_keys_def pl_count_def pl_get_def pl_erase_def pl_insert_def pl_update_def
  expired_def expireStep_def expire_def

lemmas matcher_defs = doBidResult_def doBidResultGuarded_def finishBidResult_def
  makeFinishedInfo_def recordUnmatched_def campaignInFlight_def campaignFinished_def
  doCampaignEvent_def winLossFinished_def winLossNotSubmitted_def winLossSubmitted_def
  doWinLoss_def doEvent_def replayEarlyWin_def doAuction_def onExpiredSubmitted_def
  onExpiredFinished_def checkExpiredAuctions_def findAuction_def findAdSpotIndex_def
  makeBidId_def nullId_def hasWin_def setWin_def forceWin_def hasEvent_def setEvent_def
  addUids_def FinishedInfo0_def SubmissionInfo0_def Response0_def lossTimeout_def
  getTimeGapMs_def emit_def recordHit_def recordOutcome_def doError_def

lemma newEffects_append [simp]: "effects st' = effects st @ xs \<Longrightarrow> newEffects st st' = xs"
  by (simp add: newEffects_def)

subsection \<open>The pending list\<close>

lemma pl_keys_erase [simp]: "pl_keys (pl_erase k pl) = pl_keys pl - {k}"
  by (auto simp: pl_keys_def pl_erase_def)

lemma pl_keys_insert [simp]: "pl_keys (pl_insert k v t pl) = insert k (pl_keys pl)"
  by (auto simp: pl_keys_def pl_insert_def pl_erase_def)

lemma pl_keys_update [simp]: "pl_keys (pl_update k v pl) = pl_keys pl"
  by (force simp: pl_keys_def pl_update_def image_iff)

lemma pl_get_None: "pl_get pl k = None \<longleftrightarrow> k \<notin> pl_keys pl"
  by (simp add: pl_get_def pl_keys_def map_of_eq_None_iff)

lemma pl_get_Some_keys: "pl_get pl k = Some v \<Longrightarrow> k \<in> pl_keys pl"
  using pl_get_None [of pl k] by auto

lemma pl_get_erase [simp]: "pl_get (pl_erase k pl) k' = (if k' = k then None else pl_get pl k')"
  by (induction pl) (auto simp: pl_get_def pl_erase_def)

lemma pl_get_insert [simp]:
  "pl_get (pl_insert k v t pl) k' = (if k' = k then Some v else pl_get pl k')"
  by (induction pl) (auto simp: pl_get_def pl_insert_def pl_erase_def)

lemma pl_update_absent: "k \<notin> pl_keys pl \<Longrightarrow> pl_update k v pl = pl"
  by (induction pl) (auto simp: pl_update_def pl_keys_def)

lemma pl_get_update_same: "k \<in> pl_keys pl \<Longrightarrow> pl_get (pl_update k v pl) k = Some v"
  by (induction pl) (auto simp: pl_get_def pl_update_def pl_keys_def)

lemma pl_get_update_other: "k' \<noteq> k \<Longrightarrow> pl_get (pl_update k v pl) k' = pl_get pl k'"
  by (induction pl) (auto simp: pl_get_def pl_update_def)

lemma pl_get_update [simp]:
  "pl_get (pl_update k v pl) k' = (if k' = k \<and> k \<in> pl_keys pl then Some v else pl_get pl k')"
  by (cases "k' = k"; cases "k \<in> pl_keys pl")
     (simp_all add: pl_get_update_same pl_get_update_other pl_update_absent)

lemma forEach_invariant:
  assumes "\<And>x s. P s \<Longrightarrow> P (snd (f x s))" and "P s"
  shows "P (snd (forEach f xs s))"
  using assms(2)
proof (induction xs arbitrary: s)
  case Nil
  then show ?case by simp
next
  case (Cons x xs)
  show ?case
  proof (cases "f x s")
    case (Pair e s')
    with assms(1) [OF Cons.prems, of x] have P': "P s'" by simp
    show ?thesis
    proof (cases e)
      case None
      with Pair Cons.IH [OF P'] show ?thesis by simp
    next
      case (Some a)
      with Pair P' show ?thesis by simp
    qed
  qed
qed

subsection \<open>What doBidResult does\<close>

lemma recorder_frame [simp]:
  "submitted (recordHit f a st) = submitted st"
  "finished (recordHit f a st) = finished st"
  "effects (recordHit f a st) = effects st @ [Hit f a]"
  "submitted (recordOutcome x f a st) = submitted st"
  "finished (recordOutcome x f a st) = finished st"
  "effects (recordOutcome x f a st) = effects st @ [Outcome x f a]"
  "submitted (doError sc m st) = submitted st"
  "finished (doError sc m st) = finished st"
  "effects (doError sc m st) = effects st @ [DoError sc m]"
  by (simp_all add: recorder_defs)

lemma finishBidResult_frame [simp]:
  "submitted (finishBidResult cfg now aId spot i ts status conf us st) = submitted st"
  "finished (finishBidResult cfg now aId spot i ts status conf us st)
     = pl_insert (aId, spot) i
         (now + (if status = BS_LOSS then auctionTimeout cfg else winTimeout cfg)) (finished st)"
  by (simp_all add: finishBidResult_def Let_def)

lemma makeFinishedInfo_status [simp]:
  "reportedStatus (makeFinishedInfo aId spot n sub status ts p wp meta us) = status"
  by (simp add: makeFinishedInfo_def addUids_def setWin_def)

lemma guarded_noBid:
  "maxPrice (bid sub) = 0 \<Longrightarrow> priority (bid sub) = 0 \<Longrightarrow>
   doBidResultGuarded cfg now aId spot sub n wp ts status conf meta us st
     = (Some (Exception ''bid response had no bid price''), True, st)"
  by (simp add: doBidResultGuarded_def Let_def)

lemma guarded_loss:
  "\<not> (maxPrice (bid sub) = 0 \<and> priority (bid sub) = 0) \<Longrightarrow> status \<noteq> BS_WIN \<Longrightarrow>
   doBidResultGuarded cfg now aId spot sub n wp ts status conf meta us st
     = (None, True,
        finishBidResult cfg now aId spot
          (makeFinishedInfo aId spot n sub status ts wp wp meta us) ts status conf us st)"
  by (simp add: doBidResultGuarded_def Let_def)

lemma guarded_win_throws:
  "\<not> (maxPrice (bid sub) = 0 \<and> priority (bid sub) = 0) \<Longrightarrow>
   wcmEvaluate cfg (bid sub) n meta wp = None \<Longrightarrow>
   doBidResultGuarded cfg now aId spot sub n wp ts BS_WIN conf meta us st
     = (Some (Exception ''win cost model''), True, st)"
  by (simp add: doBidResultGuarded_def Let_def)

lemma guarded_win:
  "\<not> (maxPrice (bid sub) = 0 \<and> priority (bid sub) = 0) \<Longrightarrow>
   wcmEvaluate cfg (bid sub) n meta wp = Some p \<Longrightarrow>
   doBidResultGuarded cfg now aId spot sub n wp ts BS_WIN conf meta us st
     = (None, False,
        finishBidResult cfg now aId spot
          (makeFinishedInfo aId spot n sub BS_WIN ts p wp meta us) ts BS_WIN conf us
          (emit (WinBid (r_account (bid sub)) (makeBidId aId spot (agent (bid sub))) p)
             (recordOutcome (of_int p) ''accounts.%s.winCostPrice.%s''
                [accountToString (CHR ''.'') (r_account (bid sub))]
                (recordOutcome (of_int wp) ''accounts.%s.winPrice.%s''
                   [accountToString (CHR ''.'') (r_account (bid sub))] st))))"
  by (simp add: doBidResultGuarded_def Let_def)

lemma guarded_cases:
  obtains
    (throws) e where
      "doBidResultGuarded cfg now aId spot sub n wp ts status conf meta us st = (Some e, True, st)"
  | (loss) "status \<noteq> BS_WIN"
      "doBidResultGuarded cfg now aId spot sub n wp ts status conf meta us st
         = (None, True,
            finishBidResult cfg now aId spot
              (makeFinishedInfo aId spot n sub status ts wp wp meta us) ts status conf us st)"
  | (win) p where "status = BS_WIN"
      "doBidResultGuarded cfg now aId spot sub n wp ts status conf meta us st
     = (None, False,
        finishBidResult cfg now aId spot
          (makeFinishedInfo aId spot n sub BS_WIN ts p wp meta us) ts BS_WIN conf us
          (emit (WinBid (r_account (bid sub)) (makeBidId aId spot (agent (bid sub))) p)
             (recordOutcome (of_int p) ''accounts.%s.winCostPrice.%s''
                [accountToString (CHR ''.'') (r_account (bid sub))]
                (recordOutcome (of_int wp) ''accounts.%s.winPrice.%s''
                   [accountToString (CHR ''.'') (r_account (bid sub))] st))))"
proof (cases "maxPrice (bid sub) = 0 \<and> priority (bid sub) = 0")
  case True
  then show ?thesis using throws guarded_noBid by blast
next
  case nb: False
  show ?thesis
  proof (cases "status = BS_WIN")
    case False
    with nb show ?thesis using loss guarded_loss by blast
  next
    case True
    show ?thesis
    proof (cases "wcmEvaluate cfg (bid sub) n meta wp")
      case None
      with nb True show ?thesis using throws guarded_win_throws by blast
    next
      case (Some p)
      with nb True show ?thesis using win [of p] guarded_win by blast
    qed
  qed
qed

lemma doBidResult_early:
  assumes "\<not> ((status = BS_WIN \<or> status = BS_LOSS) \<and> spot \<noteq> nullId \<and> bidRequest sub \<noteq> None
       \<and> r_account (bid sub) \<noteq> [])"
  obtains e errs where
    "doBidResult cfg now aId spot sub wp ts status conf meta us st
       = (Some e, st\<lparr>effects := effects st @ errs\<rparr>)"
    "\<forall>x \<in> set errs. \<exists>sc m. x = DoError sc m"
proof -
  consider (a) "status \<noteq> BS_WIN \<and> status \<noteq> BS_LOSS"
    | (b) "status = BS_WIN \<or> status = BS_LOSS" "spot = nullId"
    | (c) "status = BS_WIN \<or> status = BS_LOSS" "spot \<noteq> nullId" "bidRequest sub = None"
    | (d) br where "status = BS_WIN \<or> status = BS_LOSS" "spot \<noteq> nullId"
        "bidRequest sub = Some br" "r_account (bid sub) = []"
    using assms by (cases "bidRequest sub") auto
  then show ?thesis
  proof cases
    case a
    then have "doBidResult cfg now aId spot sub wp ts status conf meta us st
       = (Some (Exception ''submitted non win/loss''), st\<lparr>effects := effects st @ []\<rparr>)"
      by (simp add: doBidResult_def)
    then show ?thesis using that [of _ "[]"] by simp
  next
    case b
    then have "doBidResult cfg now aId spot sub wp ts status conf meta us st
       = (Some (Exception ''inserting null entry in finished map''),
          st\<lparr>effects := effects st @ []\<rparr>)"
      by (auto simp add: doBidResult_def)
    then show ?thesis using that [of _ "[]"] by simp
  next
    case c
    then have "doBidResult cfg now aId spot sub wp ts status conf meta us st
       = (Some NullPointer, st\<lparr>effects := effects st @ []\<rparr>)"
      by (auto simp add: doBidResult_def)
    then show ?thesis using that [of _ "[]"] by simp
  next
    case d
    then have "doBidResult cfg now aId spot sub wp ts status conf meta us st
       = (Some (Exception ''invalid account key''),
          st\<lparr>effects := effects st @
            (if findAdSpotIndex br spot = -1
             then [DoError ''doBidResult.adSpotIdNotFound''
              (''adspot ID '' @ spot @ '' not found in auction '' @ bidRequestStr sub)]
             else [])\<rparr>)"
      by (auto simp add: doBidResult_def Let_def recorder_defs emit_def)
    then show ?thesis
      using that [of _ "(if findAdSpotIndex br spot = -1
             then [DoError ''doBidResult.adSpotIdNotFound''
              (''adspot ID '' @ spot @ '' not found in auction '' @ bidRequestStr sub)]
             else [])"] by simp
  qed
qed

lemma doBidResult_guarded_form:
  assumes "status = BS_WIN \<or> status = BS_LOSS" "spot \<noteq> nullId" "bidRequest sub = Some br"
    "r_account (bid sub) \<noteq> []"
  shows "doBidResult cfg now aId spot sub wp ts status conf meta us st
     = (fst (doBidResultGuarded cfg now aId spot sub (findAdSpotIndex br spot) wp ts status conf
               meta us (st\<lparr>effects := effects st @ bidResultErrors br spot sub wp\<rparr>)),
        if fst (snd (doBidResultGuarded cfg now aId spot sub (findAdSpotIndex br spot) wp ts
                       status conf meta us
                       (st\<lparr>effects := effects st @ bidResultErrors br spot sub wp\<rparr>)))
        then emit (CancelBid (r_account (bid sub)) (makeBidId aId spot (agent (bid sub))))
               (snd (snd (doBidResultGuarded cfg now aId spot sub (findAdSpotIndex br spot) wp
                            ts status conf meta us
                            (st\<lparr>effects := effects st @ bidResultErrors br spot sub wp\<rparr>))))
        else snd (snd (doBidResultGuarded cfg now aId spot sub (findAdSpotIndex br spot) wp ts
                         status conf meta us
                         (st\<lparr>effects := effects st @ bidResultErrors br spot sub wp\<rparr>))))"
  using assms
  by (cases "status = BS_WIN")
     (simp_all add: doBidResult_def Let_def recorder_defs emit_def bidResultErrors_def)

lemma doBidResult_submitted [simp]:
  "submitted (snd (doBidResult cfg now aId spot sub wp ts status conf meta us st)) = submitted st"
proof (cases "(status = BS_WIN \<or> status = BS_LOSS) \<and> spot \<noteq> nullId \<and> bidRequest sub \<noteq> None
       \<and> r_account (bid sub) \<noteq> []")
  case False
  show ?thesis
    by (rule doBidResult_early [OF False, of cfg now aId wp ts conf meta us st]) simp
next
  case True
  then obtain br where br: "bidRequest sub = Some br" by auto
  show ?thesis
    by (rule guarded_cases [of cfg now aId spot sub "findAdSpotIndex br spot" wp ts status conf
          meta us "st\<lparr>effects := effects st @ bidResultErrors br spot sub wp\<rparr>"])
       (use True br in \<open>simp_all add: doBidResult_guarded_form\<close>)
qed

lemma doBidResult_finished:
  "finished (snd (doBidResult cfg now aId spot sub wp ts status conf meta us st)) = finished st
   \<or> (fst (doBidResult cfg now aId spot sub wp ts status conf meta us st) = None
      \<and> (\<exists>i t. finished (snd (doBidResult cfg now aId spot sub wp ts status conf meta us st))
                  = pl_insert (aId, spot) i t (finished st)
              \<and> reportedStatus i = status))"
proof (cases "(status = BS_WIN \<or> status = BS_LOSS) \<and> spot \<noteq> nullId \<and> bidRequest sub \<noteq> None
       \<and> r_account (bid sub) \<noteq> []")
  case False
  show ?thesis
    by (rule doBidResult_early [OF False, of cfg now aId wp ts conf meta us st]) simp
next
  case True
  then obtain br where br: "bidRequest sub = Some br" by auto
  show ?thesis
    by (rule guarded_cases [of cfg now aId spot sub "findAdSpotIndex br spot" wp ts status conf
          meta us "st\<lparr>effects := effects st @ bidResultErrors br spot sub wp\<rparr>"])
       (use True br in \<open>auto simp add: doBidResult_guarded_form\<close>)
qed

subsection \<open>What doCampaignEvent leaves alone\<close>

lemma recordUnmatched_frame [simp]:
  "submitted (snd (recordUnmatched cfg why ev st)) = submitted st"
  "finished (snd (recordUnmatched cfg why ev st)) = finished st"
  by (simp_all add: recordUnmatched_def)

lemma findAuction_Some:
  "findAuction pl aId spot = (spot', Some v) \<Longrightarrow> pl_get pl (aId, spot') = Some v"
  by (auto simp: findAuction_def Let_def split: if_splits prod.splits)
     (metis prod.collapse)

lemma doCampaignEvent_submitted_keys [simp]:
  "pl_keys (submitted (snd (doCampaignEvent cfg ev st))) = pl_keys (submitted st)"
  by (auto simp: doCampaignEvent_def campaignInFlight_def campaignFinished_def Let_def recorder_defs
        recordUnmatched_def
       split: option.splits prod.splits)

lemma doCampaignEvent_finished_keys [simp]:
  "pl_keys (finished (snd (doCampaignEvent cfg ev st))) = pl_keys (finished st)"
  by (auto simp: doCampaignEvent_def campaignInFlight_def campaignFinished_def Let_def recorder_defs
        recordUnmatched_def
       split: option.splits prod.splits)

lemma forEach_doCampaignEvent_keys [simp]:
  "pl_keys (submitted (snd (forEach (doCampaignEvent cfg) evs st))) = pl_keys (submitted st)"
  "pl_keys (finished (snd (forEach (doCampaignEvent cfg) evs st))) = pl_keys (finished st)"
  using forEach_invariant [of "\<lambda>s. pl_keys (submitted s) = pl_keys (submitted st)"
          "doCampaignEvent cfg" st evs]
        forEach_invariant [of "\<lambda>s. pl_keys (finished s) = pl_keys (finished st)"
          "doCampaignEvent cfg" st evs]
  by simp_all

lemma pl_count_iff [simp]: "pl_count pl k \<longleftrightarrow> k \<in> pl_keys pl"
  by (simp add: pl_count_def)

lemma doBidResult_noBid_eq:
  assumes "status = BS_WIN \<or> status = BS_LOSS" and "spot \<noteq> nullId"
    and "bidRequest sub = Some br" and "r_account (bid sub) \<noteq> []"
    and "maxPrice (bid sub) = 0" and "priority (bid sub) = 0"
  shows "doBidResult cfg now aId spot sub wp ts status conf meta us st
     = (Some (Exception ''bid response had no bid price''),
        st\<lparr>effects := effects st @ bidResultErrors br spot sub wp
           @ [CancelBid (r_account (bid sub)) (makeBidId aId spot (agent (bid sub)))]\<rparr>)"
  using assms by (simp add: doBidResult_guarded_form guarded_noBid emit_def)

lemma finishBidResult_effects:
  "\<exists>xs. effects (finishBidResult cfg now aId spot i ts status conf us st) = effects st @ xs
     \<and> filter isBankerCall xs = []"
  by (simp add: finishBidResult_def Let_def)

lemma doBidResult_effects:
  assumes "status = BS_WIN \<or> status = BS_LOSS" and "spot \<noteq> nullId"
    and "bidRequest sub = Some br" and "r_account (bid sub) \<noteq> []"
  shows "\<exists>xs c. effects (snd (doBidResult cfg now aId spot sub wp ts status conf meta us st))
                 = effects st @ xs
           \<and> filter isBankerCall xs = [c]
           \<and> (c = CancelBid (r_account (bid sub)) (makeBidId aId spot (agent (bid sub)))
              \<or> status = BS_WIN
                \<and> (\<exists>p. c = WinBid (r_account (bid sub)) (makeBidId aId spot (agent (bid sub))) p))"
proof -
  let ?s = "st\<lparr>effects := effects st @ bidResultErrors br spot sub wp\<rparr>"
  have e: "filter isBankerCall (bidResultErrors br spot sub wp) = []"
    by (simp add: bidResultErrors_def)
  show ?thesis
  proof (rule guarded_cases [of cfg now aId spot sub "findAdSpotIndex br spot" wp ts status conf
          meta us ?s])
    fix e assume "doBidResultGuarded cfg now aId spot sub (findAdSpotIndex br spot) wp ts status
      conf meta us ?s = (Some e, True, ?s)"
    then show ?thesis using assms e by (simp add: doBidResult_guarded_form)
  next
    let ?i = "makeFinishedInfo aId spot (findAdSpotIndex br spot) sub status ts wp wp meta us"
    assume *: "status \<noteq> BS_WIN"
      "doBidResultGuarded cfg now aId spot sub (findAdSpotIndex br spot) wp ts status
      conf meta us ?s = (None, True, finishBidResult cfg now aId spot ?i ts status conf us ?s)"
    from finishBidResult_effects [of cfg now aId spot ?i ts status conf us ?s]
    obtain xs where "effects (finishBidResult cfg now aId spot ?i ts status conf us ?s)
        = effects ?s @ xs" "filter isBankerCall xs = []" by blast
    then show ?thesis using assms e * by (simp add: doBidResult_guarded_form)
  next
    fix p
    let ?i = "makeFinishedInfo aId spot (findAdSpotIndex br spot) sub BS_WIN ts p wp meta us"
    let ?s' = "emit (WinBid (r_account (bid sub)) (makeBidId aId spot (agent (bid sub))) p)
             (recordOutcome (of_int p) ''accounts.%s.winCostPrice.%s''
                [accountToString (CHR ''.'') (r_account (bid sub))]
                (recordOutcome (of_int wp) ''accounts.%s.winPrice.%s''
                   [accountToString (CHR ''.'') (r_account (bid sub))] ?s))"
    assume *: "status = BS_WIN"
      "doBidResultGuarded cfg now aId spot sub (findAdSpotIndex br spot) wp ts status
      conf meta us ?s = (None, False, finishBidResult cfg now aId spot ?i ts BS_WIN conf us ?s')"
    from finishBidResult_effects [of cfg now aId spot ?i ts BS_WIN conf us ?s']
    obtain xs where "effects (finishBidResult cfg now aId spot ?i ts BS_WIN conf us ?s')
        = effects ?s' @ xs" "filter isBankerCall xs = []" by blast
    then show ?thesis using assms e * by (simp add: doBidResult_guarded_form)
  qed
qed

lemma appends_refl [simp]: "appends P st st"
  by (simp add: appends_def)

lemma appends_trans: "appends P a b \<Longrightarrow> appends P b c \<Longrightarrow> appends P a c"
  by (auto simp: appends_def)

lemma appends_same_effects: "effects b = effects a \<Longrightarrow> appends P a b"
  by (simp add: appends_def)

lemma appends_emit: "P e \<Longrightarrow> appends P a b \<Longrightarrow> appends P a (emit e b)"
  by (auto simp: appends_def)

lemma appends_recorder:
  "P (Hit f args) \<Longrightarrow> appends P a b \<Longrightarrow> appends P a (recordHit f args b)"
  "P (Outcome x f args) \<Longrightarrow> appends P a b \<Longrightarrow> appends P a (recordOutcome x f args b)"
  "P (DoError sc m) \<Longrightarrow> appends P a b \<Longrightarrow> appends P a (doError sc m b)"
  by (auto simp: appends_def recorder_defs)

lemma appends_update [simp]:
  "appends P a (b\<lparr>submitted := x\<rparr>) = appends P a b"
  "appends P a (b\<lparr>finished := y\<rparr>) = appends P a b"
  "appends P a (b\<lparr>numWins := n\<rparr>) = appends P a b"
  "appends P a (b\<lparr>numLosses := n\<rparr>) = appends P a b"
  "appends P a (b\<lparr>numCampaignEvents := n\<rparr>) = appends P a b"
  by (simp_all add: appends_def)

lemma appends_filter:
  "appends notBanker st st' \<Longrightarrow> filter isBankerCall (newEffects st st') = []"
  by (auto simp: appends_def notBanker_def list_all_iff)

lemma notBanker_simps [simp]:
  "notBanker (Hit f args)" "notBanker (Outcome x f args)" "notBanker (DoError sc m)"
  "notBanker (OnMatchedWinLoss k c i t u)" "notBanker (OnMatchedCampaignEvent l i)"
  "notBanker (OnUnmatchedEvent w e)"
  by (simp_all add: notBanker_def)

lemma recordUnmatched_appends:
  "appends notBanker a b \<Longrightarrow> appends notBanker a (snd (recordUnmatched cfg why ev b))"
  by (simp add: recordUnmatched_def appends_emit)

lemma campaignInFlight_appends:
  "appends notBanker a b \<Longrightarrow> appends notBanker a (snd (campaignInFlight cfg ev spot info b))"
  by (simp add: campaignInFlight_def recordUnmatched_def Let_def appends_emit appends_recorder)

lemma campaignFinished_appends:
  "appends notBanker a b \<Longrightarrow> appends notBanker a (snd (campaignFinished cfg ev spot info b))"
  by (simp add: campaignFinished_def recordUnmatched_def Let_def appends_emit appends_recorder)

lemma doCampaignEvent_appends:
  "appends notBanker a b \<Longrightarrow> appends notBanker a (snd (doCampaignEvent cfg ev b))"
  by (simp add: doCampaignEvent_def Let_def appends_recorder recordUnmatched_appends
        campaignFinished_appends campaignInFlight_appends
      split: prod.splits option.splits)

lemma forEach_doCampaignEvent_appends:
  "appends notBanker a b \<Longrightarrow> appends notBanker a (snd (forEach (doCampaignEvent cfg) evs b))"
  by (rule forEach_invariant [of "appends notBanker a"]) (simp_all add: doCampaignEvent_appends)


lemma recorder_counters [simp]:
  "numCampaignEvents (recordHit f a st) = numCampaignEvents st"
  "numCampaignEvents (recordOutcome x f a st) = numCampaignEvents st"
  "numCampaignEvents (doError sc m st) = numCampaignEvents st"
  by (simp_all add: recorder_defs)

lemma countedState_frame [simp]:
  "submitted (countedState ev r st) = submitted st"
  "finished (countedState ev r st) = finished st"
  "numCampaignEvents (countedState ev r st) = numCampaignEvents st"
  "effects (countedState ev r st)
     = effects st @ [if evtype ev = PAE_WIN then Hit ''processedWin'' [] else Hit ''processedLoss'' [],
          if r then Hit ''bidResult.%s.messagesReplayed'' [print (evtype ev)]
          else Hit ''bidResult.%s.messagesReceived'' [print (evtype ev)]]"
  by (simp_all add: countedState_def Let_def recorder_defs)

lemma deliveredState_frame [simp]:
  "submitted (deliveredState ev r st) = pl_erase (auctionId ev, adSpotId ev) (submitted st)"
  "finished (deliveredState ev r st) = finished st"
  "numCampaignEvents (deliveredState ev r st) = numCampaignEvents st"
  "effects (deliveredState ev r st)
     = effects st @ [if evtype ev = PAE_WIN then Hit ''processedWin'' [] else Hit ''processedLoss'' [],
          if r then Hit ''bidResult.%s.messagesReplayed'' [print (evtype ev)]
          else Hit ''bidResult.%s.messagesReceived'' [print (evtype ev)],
          Hit ''bidResult.%s.delivered'' [print (evtype ev)]]"
  by (simp_all add: deliveredState_def)

lemma doWinLoss_finished:
  "(auctionId ev, adSpotId ev) \<in> pl_keys (finished st) \<Longrightarrow>
   doWinLoss cfg now ev r st
     = winLossFinished cfg now ev (if evtype ev = PAE_WIN then BS_WIN else BS_LOSS)
         (countedState ev r st)"
  by (simp add: doWinLoss_def countedState_def Let_def)

lemma doWinLoss_unknown:
  "(auctionId ev, adSpotId ev) \<notin> pl_keys (finished st) \<Longrightarrow>
   (auctionId ev, adSpotId ev) \<notin> pl_keys (submitted st) \<Longrightarrow>
   doWinLoss cfg now ev r st = winLossNotSubmitted now ev (countedState ev r st)"
  by (simp add: doWinLoss_def countedState_def Let_def)

lemma doWinLoss_buffered:
  "(auctionId ev, adSpotId ev) \<notin> pl_keys (finished st) \<Longrightarrow>
   pl_get (submitted st) (auctionId ev, adSpotId ev) = Some info \<Longrightarrow>
   bidRequest info = None \<Longrightarrow>
   doWinLoss cfg now ev r st
     = (None, (countedState ev r st)\<lparr>submitted :=
          pl_insert (auctionId ev, adSpotId ev)
            (info\<lparr>earlyWinEvents := earlyWinEvents info @ [ev]\<rparr>) (now + lossTimeout)
            (pl_erase (auctionId ev, adSpotId ev) (submitted st))\<rparr>)"
  using pl_get_Some_keys [of "submitted st" "(auctionId ev, adSpotId ev)" info]
  by (simp add: doWinLoss_def winLossSubmitted_def countedState_def Let_def)

lemma doWinLoss_delivered:
  "(auctionId ev, adSpotId ev) \<notin> pl_keys (finished st) \<Longrightarrow>
   pl_get (submitted st) (auctionId ev, adSpotId ev) = Some info \<Longrightarrow>
   bidRequest info = Some br \<Longrightarrow>
   doWinLoss cfg now ev r st
     = (case doBidResult cfg now (auctionId ev) (adSpotId ev) info (winPrice ev) (timestamp ev)
              (if evtype ev = PAE_WIN then BS_WIN else BS_LOSS)
              (if evtype ev = PAE_WIN then Guaranteed else Inferred)
              (metadata ev) (uids ev) (deliveredState ev r st) of
          (Some e, s) \<Rightarrow> (Some e, s)
        | (None, s) \<Rightarrow> forEach (doCampaignEvent cfg) (earlyCampaignEvents info) s)"
  using pl_get_Some_keys [of "submitted st" "(auctionId ev, adSpotId ev)" info]
  by (simp add: doWinLoss_def winLossSubmitted_def countedState_def deliveredState_def Let_def)

lemma doWinLoss_cases:
  obtains (finished) "(auctionId ev, adSpotId ev) \<in> pl_keys (finished st)"
  | (unknown) "(auctionId ev, adSpotId ev) \<notin> pl_keys (finished st)"
      "(auctionId ev, adSpotId ev) \<notin> pl_keys (submitted st)"
  | (buffered) info where "(auctionId ev, adSpotId ev) \<notin> pl_keys (finished st)"
      "pl_get (submitted st) (auctionId ev, adSpotId ev) = Some info" "bidRequest info = None"
  | (delivered) info br where "(auctionId ev, adSpotId ev) \<notin> pl_keys (finished st)"
      "pl_get (submitted st) (auctionId ev, adSpotId ev) = Some info" "bidRequest info = Some br"
  using pl_get_None [of "submitted st" "(auctionId ev, adSpotId ev)"]
  by (cases "pl_get (submitted st) (auctionId ev, adSpotId ev)") auto

lemma commit_is_call: "filter isBankerCommit (filter isBankerCall xs) = filter isBankerCommit xs"
proof (induction xs)
  case Nil
  then show ?case by simp
next
  case (Cons x xs)
  then show ?case by (cases x) simp_all
qed

lemma only_call_only_commit:
  "filter isBankerCall xs = [c] \<Longrightarrow> isBankerCommit c \<Longrightarrow> filter isBankerCommit xs = [c]"
  using commit_is_call [of xs] by simp

lemma no_call_no_commit: "filter isBankerCall xs = [] \<Longrightarrow> filter isBankerCommit xs = []"
  using commit_is_call [of xs] by simp

lemma appends_obtain:
  assumes "appends notBanker a b"
  obtains xs where "effects b = effects a @ xs" "filter isBankerCall xs = []"
  using assms by (auto simp: appends_def notBanker_def list_all_iff)

lemma doWinLoss_lateWin:
  assumes "pl_get (finished st) (auctionId ev, adSpotId ev) = Some fi"
    and "reportedStatus fi = BS_LOSS" and "evtype ev = PAE_WIN"
  shows "doWinLoss cfg now ev r st
     = (None, (countedState ev r st)
         \<lparr>finished := pl_update (auctionId ev, adSpotId ev)
                        (forceWin (timestamp ev) (winPrice ev) (metadata ev) fi) (finished st),
          effects := effects (countedState ev r st)
            @ [Hit ''bidResult.%s.auctionAlreadyFinished'' [''WIN''],
               Outcome (getTimeGapMs now ev)
                 ''bidResult.%s.alreadyFinishedTimeSinceBidSubmittedMs'' [''WIN''],
               ForceWinBid (r_account (fi_bid fi)) (winPrice ev)]
            @ (if onMatchedWinLoss cfg
               then [OnMatchedWinLoss LateWin Guaranteed
                       (forceWin (timestamp ev) (winPrice ev) (metadata ev) fi)
                       (timestamp ev) (uids ev)]
               else [])
            @ [Hit ''bidResult.%s.winAfterLossAssumed'' [''WIN''],
               Outcome (of_int (winPrice ev)) ''bidResult.%s.winAfterLossAssumedAmount.%s''
                 [''WIN'']]\<rparr>)"
  using assms pl_get_Some_keys [OF assms(1)]
  by (simp add: doWinLoss_finished winLossFinished_def Let_def recorder_defs emit_def)

lemma doWinLoss_delivered_commit:
  assumes "(auctionId ev, adSpotId ev) \<notin> pl_keys (finished st)"
    and "pl_get (submitted st) (auctionId ev, adSpotId ev) = Some info"
    and "bidRequest info = Some br" and "adSpotId ev \<noteq> nullId"
    and "r_account (bid info) \<noteq> []"
  shows "\<exists>c. filter isBankerCall (newEffects st (snd (doWinLoss cfg now ev r st))) = [c]
           \<and> (c = CancelBid (r_account (bid info))
                    (makeBidId (auctionId ev) (adSpotId ev) (agent (bid info)))
              \<or> evtype ev = PAE_WIN
                \<and> (\<exists>p. c = WinBid (r_account (bid info))
                            (makeBidId (auctionId ev) (adSpotId ev) (agent (bid info))) p))"
proof -
  let ?status = "if evtype ev = PAE_WIN then BS_WIN else BS_LOSS"
  let ?d = "deliveredState ev r st"
  let ?R = "doBidResult cfg now (auctionId ev) (adSpotId ev) info (winPrice ev) (timestamp ev)
              ?status (if evtype ev = PAE_WIN then Guaranteed else Inferred)
              (metadata ev) (uids ev) ?d"
  have "?status = BS_WIN \<or> ?status = BS_LOSS" by simp
  from doBidResult_effects [OF this assms(4) assms(3) assms(5), of cfg now "auctionId ev"
      "winPrice ev" "timestamp ev" "if evtype ev = PAE_WIN then Guaranteed else Inferred"
      "metadata ev" "uids ev" ?d]
  obtain xs c where xs: "effects (snd ?R) = effects ?d @ xs" "filter isBankerCall xs = [c]"
    and c: "c = CancelBid (r_account (bid info))
                    (makeBidId (auctionId ev) (adSpotId ev) (agent (bid info)))
              \<or> evtype ev = PAE_WIN
                \<and> (\<exists>p. c = WinBid (r_account (bid info))
                            (makeBidId (auctionId ev) (adSpotId ev) (agent (bid info))) p)"
    by (auto split: if_splits)
  obtain e s where R: "?R = (e, s)" by fastforce
  have "filter isBankerCall (newEffects st (snd (doWinLoss cfg now ev r st))) = [c]"
  proof (cases e)
    case (Some a)
    with R xs show ?thesis
      by (simp add: doWinLoss_delivered [OF assms(1,2,3)] newEffects_def)
  next
    case None
    have "appends notBanker s (snd (forEach (doCampaignEvent cfg) (earlyCampaignEvents info) s))"
      by (rule forEach_doCampaignEvent_appends) simp
    then obtain ys where
      "effects (snd (forEach (doCampaignEvent cfg) (earlyCampaignEvents info) s)) = effects s @ ys"
      "filter isBankerCall ys = []"
      by (rule appends_obtain)
    with None R xs show ?thesis
      by (simp add: doWinLoss_delivered [OF assms(1,2,3)] newEffects_def)
  qed
  with c show ?thesis by blast
qed

lemma onExpiredSubmitted_commit:
  assumes "bidRequest info = Some br" and "spot \<noteq> nullId" and "r_account (bid info) \<noteq> []"
  shows "filter isBankerCall (newEffects st (snd (onExpiredSubmitted cfg start (aId, spot) info st)))
     = [CancelBid (r_account (bid info)) (makeBidId aId spot (agent (bid info)))]"
proof -
  let ?s = "recordHit ''submittedAuctionExpiry'' [] st"
  let ?R = "doBidResult cfg start aId spot info 0 start BS_LOSS Inferred ''null'' {} ?s"
  have "BS_LOSS = BS_WIN \<or> BS_LOSS = BS_LOSS" by simp
  from doBidResult_effects [OF this assms(2) assms(1) assms(3), of cfg start aId 0 start Inferred
      "''null''" "{}" ?s]
  obtain xs where xs: "effects (snd ?R) = effects ?s @ xs"
    "filter isBankerCall xs
       = [CancelBid (r_account (bid info)) (makeBidId aId spot (agent (bid info)))]"
    by auto
  obtain e s where R: "?R = (e, s)" by fastforce
  show ?thesis
    using assms(1) R xs
    by (cases e) (simp_all add: onExpiredSubmitted_def Let_def newEffects_def recorder_defs)
qed

section \<open>The no-bid exception and the scoped release\<close>

text \<open>
  Claim C2, as the code has it. When the submission's bid has \<open>maxPrice = 0\<close> and
  \<open>priority = 0\<close>, and the earlier checks of \<open>doBidResult\<close> pass (a win or a loss, a
  non-null ad spot, a bid request, a non-empty account), \<open>doBidResult\<close> raises the
  no-bid exception after the scoped release has been armed: leaving the scope calls
  \<open>banker.cancelBid(account, bidId)\<close>, which is the one banker operation of the
  invocation; there is no \<open>winBid\<close>, no outcome is reported and neither table changes.
\<close>

theorem doBidResult_noBid_cancels:
  assumes "status = BS_WIN \<or> status = BS_LOSS" and "spot \<noteq> nullId"
    and "bidRequest submission = Some br" and "r_account (bid submission) \<noteq> []"
    and "maxPrice (bid submission) = 0" and "priority (bid submission) = 0"
  shows "fst (doBidResult cfg now aId spot submission wp ts status confidence meta us st)
           = Some (Exception ''bid response had no bid price'')
       \<and> filter isBankerCall (newEffects st
            (snd (doBidResult cfg now aId spot submission wp ts status confidence meta us st)))
           = [CancelBid (r_account (bid submission))
                (makeBidId aId spot (agent (bid submission)))]
       \<and> filter isOutcome (newEffects st
            (snd (doBidResult cfg now aId spot submission wp ts status confidence meta us st)))
           = []
       \<and> finished (snd (doBidResult cfg now aId spot submission wp ts status confidence meta us st))
           = finished st
       \<and> submitted (snd (doBidResult cfg now aId spot submission wp ts status confidence meta us st))
           = submitted st"
  using assms
  by (auto simp: doBidResult_def doBidResultGuarded_def Let_def recorder_defs newEffects_def)

theorem doBidResult_noBid_cancels_witness:
  "(BS_WIN = BS_WIN \<or> BS_WIN = BS_LOSS) \<and> ''S1'' \<noteq> nullId
   \<and> bidRequest infoNoBid = Some \<lparr>spots = [''S1'']\<rparr> \<and> r_account (bid infoNoBid) \<noteq> []
   \<and> maxPrice (bid infoNoBid) = 0 \<and> priority (bid infoNoBid) = 0
   \<and> fst (doBidResult cfg0 1 ''A1'' ''S1'' infoNoBid 80 1 BS_WIN Guaranteed ''{}'' {} initialState)
       = Some (Exception ''bid response had no bid price'')
   \<and> filter isBankerCall (newEffects initialState
        (snd (doBidResult cfg0 1 ''A1'' ''S1'' infoNoBid 80 1 BS_WIN Guaranteed ''{}'' {}
           initialState)))
       = [CancelBid [''camp'', ''strat''] ''A1-S1-bob'']"
  using doBidResult_noBid_cancels [of BS_WIN "''S1''" infoNoBid "\<lparr>spots = [''S1'']\<rparr>"
      cfg0 1 "''A1''" 80 1 Guaranteed "''{}''" "{}" initialState]
  by (simp add: infoNoBid_def resp1_def nullId_def makeBidId_def)

text \<open>
  Claim C2 as stated fails: on a no-bid submission \<open>doBidResult\<close> does perform a banker
  operation, the \<open>cancelBid\<close> of the guard.
\<close>

theorem doBidResult_noBid_counterexample:
  "doBidResult cfg0 1 ''A1'' ''S1'' infoNoBid 80 1 BS_WIN Guaranteed ''{}'' {} initialState
     = (Some (Exception ''bid response had no bid price''),
        initialState\<lparr>effects :=
          [DoError ''doBidResult.winPriceExceedsBidPrice'' ''win price %s exceeds bid price %s'',
           CancelBid [''camp'', ''strat''] ''A1-S1-bob'']\<rparr>)"
  by (simp add: doBidResult_def doBidResultGuarded_def Let_def recorder_defs emit_def
      infoNoBid_def resp1_def initialState_def nullId_def findAdSpotIndex_def makeBidId_def)

section \<open>The no-bid exception under doWinLoss\<close>

lemma stNoBid_reached:
  "submitted (doEvent cfg0 0.5 imp1 (doAuction cfg0 0 submitNoBid initialState)) = submitted stNoBid"
  by (simp add: matcher_defs example_defs pl_defs Let_def)

text \<open>
  Claim C10. A win or loss event finds its key in \<open>submitted\<close> (and not in
  \<open>finished\<close>) with a bid request, and \<open>doBidResult\<close> raises the no-bid exception.
  Then \<open>doWinLoss\<close> ends with that exception; the submission has been popped and is
  not put back, nothing is inserted into \<open>finished\<close>, so the key is in neither table;
  and the buffered campaign events are not replayed: what the call has done is the
  three counters, the errors of \<open>doBidResult\<close> and the \<open>cancelBid\<close> of the guard,
  and no campaign event has been counted.
\<close>

theorem doWinLoss_noBid:
  assumes "(auctionId ev, adSpotId ev) \<notin> pl_keys (finished st)"
    and "pl_get (submitted st) (auctionId ev, adSpotId ev) = Some info"
    and "bidRequest info = Some br" and "adSpotId ev \<noteq> nullId"
    and "r_account (bid info) \<noteq> []"
    and "maxPrice (bid info) = 0" and "priority (bid info) = 0"
  shows "fst (doWinLoss cfg now ev isReplay st)
           = Some (Exception ''bid response had no bid price'')
       \<and> submitted (snd (doWinLoss cfg now ev isReplay st))
           = pl_erase (auctionId ev, adSpotId ev) (submitted st)
       \<and> finished (snd (doWinLoss cfg now ev isReplay st)) = finished st
       \<and> (auctionId ev, adSpotId ev) \<notin> pl_keys (submitted (snd (doWinLoss cfg now ev isReplay st)))
       \<and> (auctionId ev, adSpotId ev) \<notin> pl_keys (finished (snd (doWinLoss cfg now ev isReplay st)))
       \<and> numCampaignEvents (snd (doWinLoss cfg now ev isReplay st)) = numCampaignEvents st
       \<and> newEffects st (snd (doWinLoss cfg now ev isReplay st))
           = [if evtype ev = PAE_WIN then Hit ''processedWin'' [] else Hit ''processedLoss'' [],
              if isReplay then Hit ''bidResult.%s.messagesReplayed'' [print (evtype ev)]
              else Hit ''bidResult.%s.messagesReceived'' [print (evtype ev)],
              Hit ''bidResult.%s.delivered'' [print (evtype ev)]]
             @ bidResultErrors br (adSpotId ev) info (winPrice ev)
             @ [CancelBid (r_account (bid info))
                  (makeBidId (auctionId ev) (adSpotId ev) (agent (bid info)))]"
proof -
  have k: "(auctionId ev, adSpotId ev) \<in> pl_keys (submitted st)"
    using assms(2) by (rule pl_get_Some_keys)
  show ?thesis
    using assms k
    by (simp add: doWinLoss_def winLossSubmitted_def Let_def doBidResult_noBid_eq
          recorder_defs emit_def newEffects_def)
qed

theorem doWinLoss_noBid_witness:
  "(auctionId win1, adSpotId win1) \<notin> pl_keys (finished stNoBid)
   \<and> pl_get (submitted stNoBid) (auctionId win1, adSpotId win1)
       = Some (infoNoBid\<lparr>earlyCampaignEvents := [imp1]\<rparr>)
   \<and> fst (doWinLoss cfg0 1 win1 False stNoBid)
       = Some (Exception ''bid response had no bid price'')
   \<and> submitted (snd (doWinLoss cfg0 1 win1 False stNoBid)) = []
   \<and> finished (snd (doWinLoss cfg0 1 win1 False stNoBid)) = []
   \<and> newEffects stNoBid (snd (doWinLoss cfg0 1 win1 False stNoBid))
       = [Hit ''processedWin'' [], Hit ''bidResult.%s.messagesReceived'' [''WIN''],
          Hit ''bidResult.%s.delivered'' [''WIN''],
          DoError ''doBidResult.winPriceExceedsBidPrice'' ''win price %s exceeds bid price %s'',
          CancelBid [''camp'', ''strat''] ''A1-S1-bob'']"
  using doWinLoss_noBid [of win1 stNoBid "infoNoBid\<lparr>earlyCampaignEvents := [imp1]\<rparr>"
      "\<lparr>spots = [''S1'']\<rparr>" cfg0 1 False]
  by (simp add: example_defs pl_defs nullId_def makeBidId_def bidResultErrors_def
      findAdSpotIndex_def)

section \<open>The unmatched-event sink\<close>

text \<open>
  Claim C9, at an input where the code departs from it. With \<open>onUnmatchedEvent\<close> not
  set, a campaign event for an unknown auction makes \<open>doCampaignEvent\<close> call the
  empty function, which throws; and a campaign event for an auction in flight is not
  buffered on the submission (the call comes before the \<open>push_back\<close>), whereas it is
  buffered when the sink is set.
\<close>

theorem recordUnmatched_absent_sink_throws:
  "doCampaignEvent (cfg0\<lparr>onUnmatchedEvent := False\<rparr>) imp1 initialState
     = (Some BadFunctionCall,
        initialState\<lparr>effects :=
          [Hit ''delivery.EVENT.%s.messagesReceived'' [''IMPRESSION''],
           Hit ''delivery.%s.auctionNotFound'' [''IMPRESSION''],
           DoError ''doCampaignEvent.auctionNotFoundIMPRESSION''
             ''auction not found for delivery message'']\<rparr>)
   \<and> map (\<lambda>e. earlyCampaignEvents (fst (snd e)))
        (submitted (doEvent (cfg0\<lparr>onUnmatchedEvent := False\<rparr>) 0.5 imp1
           (doAuction (cfg0\<lparr>onUnmatchedEvent := False\<rparr>) 0 submit1 initialState))) = [[]]
   \<and> map (\<lambda>e. earlyCampaignEvents (fst (snd e)))
        (submitted (doEvent cfg0 0.5 imp1 (doAuction cfg0 0 submit1 initialState)))
       = [[imp1]]"
  by (simp add: matcher_defs example_defs pl_defs Let_def completePrefix_def)

section \<open>Banker commits per submission\<close>

lemma st1_tables:
  "submitted st1 = [((''A1'', ''S1''), info1, 15)]" "finished st1 = []"
  by (simp_all add: matcher_defs example_defs pl_defs Let_def)

lemma stLost1_tables:
  "submitted stLost1 = []"
  "map (\<lambda>e. (fst e, reportedStatus (fst (snd e)))) (finished stLost1) = [((''A1'', ''S1''), BS_LOSS)]"
  by (simp_all add: matcher_defs example_defs pl_defs Let_def)

section \<open>The reported status of a finished entry\<close>


lemma wonAt_same_finished: "finished st' = finished st \<Longrightarrow> wonAt k st' = wonAt k st"
  by (simp add: wonAt_def)

lemma wonAt_frame [simp]:
  "wonAt k (recordHit f a st) = wonAt k st"
  "wonAt k (recordOutcome x f a st) = wonAt k st"
  "wonAt k (doError sc m st) = wonAt k st"
  "wonAt k (emit e st) = wonAt k st"
  "wonAt k (st\<lparr>submitted := y\<rparr>) = wonAt k st"
  "wonAt k (st\<lparr>effects := z\<rparr>) = wonAt k st"
  "wonAt k (st\<lparr>numWins := n\<rparr>) = wonAt k st"
  "wonAt k (st\<lparr>numLosses := n\<rparr>) = wonAt k st"
  "wonAt k (st\<lparr>numCampaignEvents := n\<rparr>) = wonAt k st"
  by (simp_all add: wonAt_def)












section \<open>Duplicates\<close>

lemma doWinLoss_duplicate:
  assumes "pl_get (finished st) (auctionId ev, adSpotId ev) = Some fi" and "hasWin fi"
    and "reportedStatus fi = (if evtype ev = PAE_WIN then BS_WIN else BS_LOSS)"
  shows "doWinLoss cfg now ev r st
     = (None, recordHit (if winPrice ev = fi_winPrice fi then ''bidResult.%s.duplicate''
                         else ''bidResult.%s.duplicateWithDifferentPrice'')
                [print (evtype ev)] (countedState ev r st))"
  using assms pl_get_Some_keys [OF assms(1)]
  by (simp add: doWinLoss_finished winLossFinished_def Let_def)

lemma doCampaignEvent_duplicate:
  assumes "evtype ev = PAE_CAMPAIGN_EVENT"
    and "findAuction (submitted st) (auctionId ev) (adSpotId ev) = (spot1, None)"
    and "findAuction (finished st) (auctionId ev) spot1 = (spot2, Some fi)"
    and "hasEvent (label ev) (campaignEvents fi)"
  shows "doCampaignEvent cfg ev st
     = recordUnmatched cfg ''duplicate'' ev
         (doError (''doCampaignEvent.duplicate'' @ label ev) ''message duplicated''
            (recordHit ''delivery.%s.duplicate'' [label ev]
               (recordHit ''delivery.EVENT.%s.messagesReceived'' [label ev] st)))"
  using assms by (simp add: doCampaignEvent_def campaignFinished_def Let_def)

text \<open>
  Claim C4, as the code has it. A win event for a key already finished with a win is a
  duplicate: both tables stay as they are and the call only records counters, the last
  one \<open>duplicate\<close> or, when the win price differs, \<open>duplicateWithDifferentPrice\<close>; no
  banker call, no outcome. A campaign event whose auction is found in \<open>finished\<close> (and
  not in \<open>submitted\<close>) with its label already on the entry also leaves both tables and
  the campaign-event count as they are and makes no banker call and no
  \<open>MatchedCampaignEvent\<close>; but besides the duplicate counter it records an error and,
  with the \<open>onUnmatchedEvent\<close> sink set, reports the event there as unmatched with
  reason \<open>duplicate\<close>.
\<close>

theorem duplicate_events:
  "(pl_get (finished st) (auctionId ev, adSpotId ev) = Some fi \<and> hasWin fi
      \<and> reportedStatus fi = BS_WIN \<and> evtype ev = PAE_WIN
     \<longrightarrow> submitted (doEvent cfg now ev st) = submitted st
       \<and> finished (doEvent cfg now ev st) = finished st
       \<and> newEffects st (doEvent cfg now ev st)
           = [Hit ''processedWin'' [], Hit ''bidResult.%s.messagesReceived'' [''WIN''],
              Hit (if winPrice ev = fi_winPrice fi then ''bidResult.%s.duplicate''
                   else ''bidResult.%s.duplicateWithDifferentPrice'') [''WIN'']])
   \<and> (evtype ev = PAE_CAMPAIGN_EVENT
      \<and> findAuction (submitted st) (auctionId ev) (adSpotId ev) = (spot1, None)
      \<and> findAuction (finished st) (auctionId ev) spot1 = (spot2, Some fi)
      \<and> hasEvent (label ev) (campaignEvents fi) \<and> onUnmatchedEvent cfg
     \<longrightarrow> submitted (doEvent cfg now ev st) = submitted st
       \<and> finished (doEvent cfg now ev st) = finished st
       \<and> numCampaignEvents (doEvent cfg now ev st) = numCampaignEvents st
       \<and> newEffects st (doEvent cfg now ev st)
           = [Hit ''delivery.EVENT.%s.messagesReceived'' [label ev],
              Hit ''delivery.%s.duplicate'' [label ev],
              DoError (''doCampaignEvent.duplicate'' @ label ev) ''message duplicated'',
              OnUnmatchedEvent ''duplicate'' ev])"
proof (intro conjI impI)
  assume a: "pl_get (finished st) (auctionId ev, adSpotId ev) = Some fi \<and> hasWin fi
      \<and> reportedStatus fi = BS_WIN \<and> evtype ev = PAE_WIN"
  then have d: "doWinLoss cfg now ev False st
     = (None, recordHit (if winPrice ev = fi_winPrice fi then ''bidResult.%s.duplicate''
                         else ''bidResult.%s.duplicateWithDifferentPrice'')
                [print (evtype ev)] (countedState ev False st))"
    by (intro doWinLoss_duplicate) simp_all
  from a d show "submitted (doEvent cfg now ev st) = submitted st"
    by (simp add: doEvent_def)
  from a d show "finished (doEvent cfg now ev st) = finished st"
    by (simp add: doEvent_def)
  from a d show "newEffects st (doEvent cfg now ev st)
           = [Hit ''processedWin'' [], Hit ''bidResult.%s.messagesReceived'' [''WIN''],
              Hit (if winPrice ev = fi_winPrice fi then ''bidResult.%s.duplicate''
                   else ''bidResult.%s.duplicateWithDifferentPrice'') [''WIN'']]"
    by (simp add: doEvent_def newEffects_def)
next
  assume a: "evtype ev = PAE_CAMPAIGN_EVENT
      \<and> findAuction (submitted st) (auctionId ev) (adSpotId ev) = (spot1, None)
      \<and> findAuction (finished st) (auctionId ev) spot1 = (spot2, Some fi)
      \<and> hasEvent (label ev) (campaignEvents fi) \<and> onUnmatchedEvent cfg"
  then have d: "doCampaignEvent cfg ev st
     = recordUnmatched cfg ''duplicate'' ev
         (doError (''doCampaignEvent.duplicate'' @ label ev) ''message duplicated''
            (recordHit ''delivery.%s.duplicate'' [label ev]
               (recordHit ''delivery.EVENT.%s.messagesReceived'' [label ev] st)))"
    by (intro doCampaignEvent_duplicate [of ev st spot1 spot2 fi]) simp_all
  from a d show "submitted (doEvent cfg now ev st) = submitted st"
    by (simp add: doEvent_def)
  from a d show "finished (doEvent cfg now ev st) = finished st"
    by (simp add: doEvent_def)
  from a d show "numCampaignEvents (doEvent cfg now ev st) = numCampaignEvents st"
    by (simp add: doEvent_def recordUnmatched_def)
  from a d show "newEffects st (doEvent cfg now ev st)
           = [Hit ''delivery.EVENT.%s.messagesReceived'' [label ev],
              Hit ''delivery.%s.duplicate'' [label ev],
              DoError (''doCampaignEvent.duplicate'' @ label ev) ''message duplicated'',
              OnUnmatchedEvent ''duplicate'' ev]"
    by (simp add: doEvent_def recordUnmatched_def newEffects_def)
qed

theorem duplicate_events_witness:
  "pl_get (finished stWon1) (auctionId win1, adSpotId win1) = Some fiWon1 \<and> hasWin fiWon1
   \<and> reportedStatus fiWon1 = BS_WIN \<and> evtype win1 = PAE_WIN
   \<and> finished (doEvent cfg0 5 win1 stWon1) = finished stWon1
   \<and> newEffects stWon1 (doEvent cfg0 5 win1 stWon1)
       = [Hit ''processedWin'' [], Hit ''bidResult.%s.messagesReceived'' [''WIN''],
          Hit ''bidResult.%s.duplicate'' [''WIN'']]
   \<and> evtype imp1 = PAE_CAMPAIGN_EVENT
   \<and> findAuction (submitted stImp1) (auctionId imp1) (adSpotId imp1) = (''S1'', None)
   \<and> findAuction (finished stImp1) (auctionId imp1) ''S1''
       = (''S1'', Some (fiWon1\<lparr>campaignEvents := [(''IMPRESSION'', 2, ''{}'')]\<rparr>))
   \<and> hasEvent (label imp1) [(''IMPRESSION'', 2, ''{}'')] \<and> onUnmatchedEvent cfg0
   \<and> finished (doEvent cfg0 4 imp1 stImp1) = finished stImp1
   \<and> newEffects stImp1 (doEvent cfg0 4 imp1 stImp1)
       = [Hit ''delivery.EVENT.%s.messagesReceived'' [''IMPRESSION''],
          Hit ''delivery.%s.duplicate'' [''IMPRESSION''],
          DoError ''doCampaignEvent.duplicateIMPRESSION'' ''message duplicated'',
          OnUnmatchedEvent ''duplicate'' imp1]"
proof -
  have h1: "pl_get (finished stWon1) (auctionId win1, adSpotId win1) = Some fiWon1"
    "hasWin fiWon1" "reportedStatus fiWon1 = BS_WIN" "evtype win1 = PAE_WIN"
    "winPrice win1 = fi_winPrice fiWon1"
    by (simp_all add: matcher_defs example_defs pl_defs Let_def)
  have h2: "evtype imp1 = PAE_CAMPAIGN_EVENT"
    "findAuction (submitted stImp1) (auctionId imp1) (adSpotId imp1) = (''S1'', None)"
    "findAuction (finished stImp1) (auctionId imp1) ''S1''
       = (''S1'', Some (fiWon1\<lparr>campaignEvents := [(''IMPRESSION'', 2, ''{}'')]\<rparr>))"
    "hasEvent (label imp1) (campaignEvents (fiWon1\<lparr>campaignEvents := [(''IMPRESSION'', 2, ''{}'')]\<rparr>))"
    "onUnmatchedEvent cfg0" "label imp1 = ''IMPRESSION''"
    by (simp_all add: matcher_defs example_defs pl_defs Let_def)
  show ?thesis
    using duplicate_events [of stWon1 win1 fiWon1 cfg0 5]
      duplicate_events [of stImp1 imp1 "fiWon1\<lparr>campaignEvents := [(''IMPRESSION'', 2, ''{}'')]\<rparr>"
        cfg0 4 "''S1''" "''S1''"]
      h1 h2
    by simp
qed

text \<open>
  Claim C4 as stated fails for campaign events: the second impression for the won
  auction does produce an outcome through a sink, the unmatched event.
\<close>

theorem duplicate_campaign_event_counterexample:
  "filter isOutcome (newEffects stImp1 (doEvent cfg0 4 imp1 stImp1))
     = [OnUnmatchedEvent ''duplicate'' imp1]"
  by (simp add: matcher_defs example_defs pl_defs Let_def newEffects_def)

section \<open>A win before its auction\<close>

lemma doBidResult_early_finished:
  assumes "\<not> ((status = BS_WIN \<or> status = BS_LOSS) \<and> spot \<noteq> nullId \<and> bidRequest sub \<noteq> None
       \<and> r_account (bid sub) \<noteq> [])"
  shows "finished (snd (doBidResult cfg now aId spot sub wp ts status conf meta us st))
     = finished st"
  by (rule doBidResult_early [OF assms, of cfg now aId wp ts conf meta us st]) simp

lemma doBidResult_entry_indep:
  assumes "pl_get (finished s) (aId, spot) = pl_get (finished s') (aId, spot)"
  shows "pl_get (finished (snd (doBidResult cfg now aId spot sub wp ts status conf meta us s)))
           (aId, spot)
       = pl_get (finished (snd (doBidResult cfg now' aId spot sub wp ts status conf meta us s')))
           (aId, spot)"
proof (cases "(status = BS_WIN \<or> status = BS_LOSS) \<and> spot \<noteq> nullId \<and> bidRequest sub \<noteq> None
       \<and> r_account (bid sub) \<noteq> []")
  case False
  then show ?thesis using assms by (simp add: doBidResult_early_finished)
next
  case True
  then obtain br where br: "bidRequest sub = Some br" by auto
  from True br have pre: "status = BS_WIN \<or> status = BS_LOSS" "spot \<noteq> nullId"
    "bidRequest sub = Some br" "r_account (bid sub) \<noteq> []" by simp_all
  note form = doBidResult_guarded_form [OF pre]
  show ?thesis
  proof (cases "maxPrice (bid sub) = 0 \<and> priority (bid sub) = 0")
    case True
    then show ?thesis using assms by (simp add: form guarded_noBid)
  next
    case nb: False
    show ?thesis
    proof (cases "status = BS_WIN")
      case False
      with nb show ?thesis by (simp add: form guarded_loss)
    next
      case w: True
      show ?thesis
      proof (cases "wcmEvaluate cfg (bid sub) (findAdSpotIndex br spot) meta wp")
        case None
        show ?thesis
          unfolding form using nb w assms None by (simp add: guarded_win_throws)
      next
        case (Some p)
        show ?thesis
          unfolding form using nb w Some by (simp add: guarded_win)
      qed
    qed
  qed
qed

lemma doAuction_fresh:
  assumes "(sa_auctionId sev, sa_adSpotId sev) \<notin> pl_keys (submitted st)"
  shows "doAuction cfg now sev st
     = emit (AttachBid (r_account (sa_bidResponse sev))
               (makeBidId (sa_auctionId sev) (sa_adSpotId sev) (agent (sa_bidResponse sev)))
               (maxPrice (sa_bidResponse sev)))
         ((recordHit ''processedAuction'' [] st)
            \<lparr>submitted := pl_insert (sa_auctionId sev, sa_adSpotId sev)
               (SubmissionInfo0\<lparr>bidRequest := sa_bidRequest sev,
                          bidRequestStrFormat := sa_bidRequestStrFormat sev,
                          bidRequestStr := sa_bidRequestStr sev,
                          augmentations := sa_augmentations sev,
                          bid := sa_bidResponse sev\<rparr>)
               (sa_lossTimeout sev) (submitted st)\<rparr>)"
  using assms by (simp add: doAuction_def Let_def)

lemma doAuction_early_win:
  assumes "pl_get (submitted st) (sa_auctionId sev, sa_adSpotId sev)
      = Some (SubmissionInfo0\<lparr>earlyWinEvents := [ev]\<rparr>)"
  shows "doAuction cfg now sev st
     = snd (replayEarlyWin cfg now ev
         (emit (AttachBid (r_account (sa_bidResponse sev))
               (makeBidId (sa_auctionId sev) (sa_adSpotId sev) (agent (sa_bidResponse sev)))
               (maxPrice (sa_bidResponse sev)))
           ((recordHit ''auctionAlreadySubmitted'' [] (recordHit ''processedAuction'' [] st))
            \<lparr>submitted := pl_insert (sa_auctionId sev, sa_adSpotId sev)
               (SubmissionInfo0\<lparr>bidRequest := sa_bidRequest sev,
                          bidRequestStrFormat := sa_bidRequestStrFormat sev,
                          bidRequestStr := sa_bidRequestStr sev,
                          augmentations := sa_augmentations sev,
                          bid := sa_bidResponse sev\<rparr>)
               (sa_lossTimeout sev)
               (pl_erase (sa_auctionId sev, sa_adSpotId sev) (submitted st))\<rparr>)))"
  using assms pl_get_Some_keys [OF assms]
  by (simp add: doAuction_def Let_def SubmissionInfo0_def recorder_defs emit_def
      split: prod.splits option.splits)


lemma doWinLoss_delivered_no_campaign:
  assumes "(auctionId ev, adSpotId ev) \<notin> pl_keys (finished st)"
    and "pl_get (submitted st) (auctionId ev, adSpotId ev) = Some info"
    and "bidRequest info = Some br" and "earlyCampaignEvents info = []"
  shows "snd (doWinLoss cfg now ev r st)
     = snd (doBidResult cfg now (auctionId ev) (adSpotId ev) info (winPrice ev) (timestamp ev)
              (if evtype ev = PAE_WIN then BS_WIN else BS_LOSS)
              (if evtype ev = PAE_WIN then Guaranteed else Inferred)
              (metadata ev) (uids ev) (deliveredState ev r st))"
  using assms(4)
  by (simp add: doWinLoss_delivered [OF assms(1,2,3)] split: prod.splits option.splits)

text \<open>
  Claim C5. For a key in neither table, a submission followed by its win event leaves
  the same finished entry under the key (the same record, hence the same reported
  status, price, win price and bid) as the win event first, arriving within the loss
  timeout of its bid so that it is buffered, followed by the submission, which replays
  it. The four calls may read the clock at any times, provided the early win is within
  the timeout.
\<close>

theorem win_submission_reorder:
  assumes "evtype ev = PAE_WIN"
    and "auctionId ev = sa_auctionId sev" and "adSpotId ev = sa_adSpotId sev"
    and "(sa_auctionId sev, sa_adSpotId sev) \<notin> pl_keys (submitted st)"
    and "(sa_auctionId sev, sa_adSpotId sev) \<notin> pl_keys (finished st)"
    and "getTimeGapMs b1 ev < lossTimeout * 1000"
  shows "pl_get (finished (doEvent cfg a2 ev (doAuction cfg a1 sev st)))
           (sa_auctionId sev, sa_adSpotId sev)
       = pl_get (finished (doAuction cfg b2 sev (doEvent cfg b1 ev st)))
           (sa_auctionId sev, sa_adSpotId sev)"
proof -
  let ?key = "(sa_auctionId sev, sa_adSpotId sev)"
  let ?sub = "SubmissionInfo0\<lparr>bidRequest := sa_bidRequest sev,
                          bidRequestStrFormat := sa_bidRequestStrFormat sev,
                          bidRequestStr := sa_bidRequestStr sev,
                          augmentations := sa_augmentations sev,
                          bid := sa_bidResponse sev\<rparr>"
  have key: "(auctionId ev, adSpotId ev) = ?key" using assms(2,3) by simp
  have sub: "bidRequest ?sub = sa_bidRequest sev" "earlyCampaignEvents ?sub = []"
    by (simp_all add: SubmissionInfo0_def)
  \<comment> \<open>the auction first\<close>
  define A1 where "A1 = doAuction cfg a1 sev st"
  have A1: "finished A1 = finished st" "pl_get (submitted A1) ?key = Some ?sub"
    using assms(4) by (simp_all add: A1_def doAuction_fresh)
  have A1f: "(auctionId ev, adSpotId ev) \<notin> pl_keys (finished A1)"
    using assms(5) A1(1) key by simp
  have A1s: "pl_get (submitted A1) (auctionId ev, adSpotId ev) = Some ?sub"
    using A1(2) key by simp
  have A0: "doEvent cfg a2 ev A1 = snd (doWinLoss cfg a2 ev False A1)"
    using assms(1) by (simp add: doEvent_def)
  \<comment> \<open>the win first\<close>
  define B1 where "B1 = doEvent cfg b1 ev st"
  have "(auctionId ev, adSpotId ev) \<notin> pl_keys (finished st)"
    "(auctionId ev, adSpotId ev) \<notin> pl_keys (submitted st)"
    using assms(4,5) key by simp_all
  then have "B1 = snd (winLossNotSubmitted b1 ev (countedState ev False st))"
    using assms(1) by (simp add: B1_def doEvent_def doWinLoss_unknown)
  then have B1: "finished B1 = finished st"
    "pl_get (submitted B1) ?key = Some (SubmissionInfo0\<lparr>earlyWinEvents := [ev]\<rparr>)"
    using assms(6) key by (simp_all add: winLossNotSubmitted_def Let_def)
  define B2 where "B2 = recordHit ''replayedEarlyWinEvent'' []
         (emit (AttachBid (r_account (sa_bidResponse sev))
               (makeBidId (sa_auctionId sev) (sa_adSpotId sev) (agent (sa_bidResponse sev)))
               (maxPrice (sa_bidResponse sev)))
           ((recordHit ''auctionAlreadySubmitted'' [] (recordHit ''processedAuction'' [] B1))
            \<lparr>submitted := pl_insert ?key ?sub (sa_lossTimeout sev)
               (pl_erase ?key (submitted B1))\<rparr>))"
  have B2: "finished B2 = finished st" "pl_get (submitted B2) ?key = Some ?sub"
    using B1(1) by (simp_all add: B2_def)
  have B2f: "(auctionId ev, adSpotId ev) \<notin> pl_keys (finished B2)"
    using assms(5) B2(1) key by simp
  have B2s: "pl_get (submitted B2) (auctionId ev, adSpotId ev) = Some ?sub"
    using B2(2) key by simp
  have B0: "doAuction cfg b2 sev B1 = snd (doWinLoss cfg b2 ev True B2)"
    by (simp add: doAuction_early_win [OF B1(2)] replayEarlyWin_def B2_def)
  show ?thesis
  proof (cases "sa_bidRequest sev")
    case None
    \<comment> \<open>a submission without a bid request: the win is buffered in both orders\<close>
    with sub have n: "bidRequest ?sub = None" by simp
    have "finished (doEvent cfg a2 ev A1) = finished st"
      by (simp add: A0 doWinLoss_buffered [OF A1f A1s n] A1(1))
    moreover have "finished (doAuction cfg b2 sev B1) = finished st"
      by (simp add: B0 doWinLoss_buffered [OF B2f B2s n] B2(1))
    ultimately show ?thesis by (simp add: A1_def B1_def)
  next
    case (Some br)
    with sub have sb: "bidRequest ?sub = Some br" by simp
    have A: "doEvent cfg a2 ev A1
       = snd (doBidResult cfg a2 (auctionId ev) (adSpotId ev) ?sub (winPrice ev) (timestamp ev)
                BS_WIN Guaranteed (metadata ev) (uids ev) (deliveredState ev False A1))"
      using doWinLoss_delivered_no_campaign [OF A1f A1s sb sub(2), of cfg a2 False] assms(1) A0
      by simp
    have B: "doAuction cfg b2 sev B1
       = snd (doBidResult cfg b2 (auctionId ev) (adSpotId ev) ?sub (winPrice ev) (timestamp ev)
                BS_WIN Guaranteed (metadata ev) (uids ev) (deliveredState ev True B2))"
      using doWinLoss_delivered_no_campaign [OF B2f B2s sb sub(2), of cfg b2 True] assms(1) B0
      by simp
    have "pl_get (finished (deliveredState ev False A1)) (auctionId ev, adSpotId ev)
        = pl_get (finished (deliveredState ev True B2)) (auctionId ev, adSpotId ev)"
      using A1(1) B2(1) by simp
    from doBidResult_entry_indep [OF this, of cfg a2 ?sub "winPrice ev" "timestamp ev" BS_WIN
        Guaranteed "metadata ev" "uids ev" b2]
    show ?thesis
      using A B key by (simp add: A1_def B1_def)
  qed
qed

theorem win_submission_reorder_witness:
  "evtype win1 = PAE_WIN
   \<and> auctionId win1 = sa_auctionId submit1 \<and> adSpotId win1 = sa_adSpotId submit1
   \<and> (sa_auctionId submit1, sa_adSpotId submit1) \<notin> pl_keys (submitted initialState)
   \<and> (sa_auctionId submit1, sa_adSpotId submit1) \<notin> pl_keys (finished initialState)
   \<and> getTimeGapMs 1 win1 < lossTimeout * 1000
   \<and> pl_get (finished (doEvent cfg0 1 win1 (doAuction cfg0 0 submit1 initialState)))
        (''A1'', ''S1'') = Some fiWon1
   \<and> pl_get (finished (doAuction cfg0 3 submit1 (doEvent cfg0 1 win1 initialState)))
        (''A1'', ''S1'') = Some fiWon1"
proof -
  have h: "evtype win1 = PAE_WIN"
    "auctionId win1 = sa_auctionId submit1" "adSpotId win1 = sa_adSpotId submit1"
    "(sa_auctionId submit1, sa_adSpotId submit1) \<notin> pl_keys (submitted initialState)"
    "(sa_auctionId submit1, sa_adSpotId submit1) \<notin> pl_keys (finished initialState)"
    "getTimeGapMs 1 win1 < lossTimeout * 1000"
    by (simp_all add: example_defs pl_defs getTimeGapMs_def lossTimeout_def)
  have a: "pl_get (finished (doEvent cfg0 1 win1 (doAuction cfg0 0 submit1 initialState)))
        (''A1'', ''S1'') = Some fiWon1"
    by (simp add: matcher_defs example_defs pl_defs Let_def)
  have k: "sa_auctionId submit1 = ''A1''" "sa_adSpotId submit1 = ''S1''"
    by (simp_all add: example_defs)
  from win_submission_reorder [OF h, of cfg0 1 0 3] a h k show ?thesis by simp
qed

section \<open>Mutual exclusion of the two tables\<close>

lemma doBidResult_finished_keys:
  "pl_keys (finished (snd (doBidResult cfg now aId spot sub wp ts status conf meta us st)))
     \<subseteq> insert (aId, spot) (pl_keys (finished st))"
  using doBidResult_finished [of cfg now aId spot sub wp ts status conf meta us st] by auto

lemma exclusive_doBidResult:
  assumes "exclusive st" and "(aId, spot) \<notin> pl_keys (submitted st)"
  shows "exclusive (snd (doBidResult cfg now aId spot sub wp ts status conf meta us st))"
  using assms doBidResult_finished_keys [of cfg now aId spot sub wp ts status conf meta us st]
  by (auto simp: exclusive_def)

lemma exclusive_doCampaignEvent:
  "exclusive st \<Longrightarrow> exclusive (snd (doCampaignEvent cfg ev st))"
  by (simp add: exclusive_def)

lemma exclusive_forEach_doCampaignEvent:
  "exclusive st \<Longrightarrow> exclusive (snd (forEach (doCampaignEvent cfg) evs st))"
  by (simp add: exclusive_def)

lemma winLossFinished_keys [simp]:
  "pl_keys (finished (snd (winLossFinished cfg now ev status st))) = pl_keys (finished st)"
  "submitted (snd (winLossFinished cfg now ev status st)) = submitted st"
  by (simp_all add: winLossFinished_def Let_def split: option.splits)

lemma exclusive_doWinLoss:
  assumes "exclusive st"
  shows "exclusive (snd (doWinLoss cfg now ev r st))"
proof (cases rule: doWinLoss_cases [of ev st])
  case finished
  with assms show ?thesis by (simp add: doWinLoss_finished exclusive_def)
next
  case unknown
  with assms show ?thesis
    by (simp add: doWinLoss_unknown winLossNotSubmitted_def Let_def exclusive_def)
next
  case (buffered info)
  with assms show ?thesis by (auto simp add: doWinLoss_buffered exclusive_def)
next
  case (delivered info br)
  let ?R = "doBidResult cfg now (auctionId ev) (adSpotId ev) info (winPrice ev) (timestamp ev)
              (if evtype ev = PAE_WIN then BS_WIN else BS_LOSS)
              (if evtype ev = PAE_WIN then Guaranteed else Inferred)
              (metadata ev) (uids ev) (deliveredState ev r st)"
  have "exclusive (deliveredState ev r st)" using assms by (auto simp: exclusive_def)
  moreover have "(auctionId ev, adSpotId ev) \<notin> pl_keys (submitted (deliveredState ev r st))"
    by simp
  ultimately have w: "exclusive (snd ?R)" by (rule exclusive_doBidResult)
  obtain e s where R: "?R = (e, s)" by fastforce
  with w have "exclusive s" by simp
  with R show ?thesis
    by (cases e)
       (simp_all add: doWinLoss_delivered [OF delivered] exclusive_forEach_doCampaignEvent)
qed

lemma exclusive_doEvent: "exclusive st \<Longrightarrow> exclusive (doEvent cfg now ev st)"
  by (cases "evtype ev") (simp_all add: doEvent_def exclusive_doWinLoss exclusive_doCampaignEvent)

lemma exclusive_doAuction:
  assumes "exclusive st" and "(sa_auctionId sev, sa_adSpotId sev) \<notin> pl_keys (finished st)"
  shows "exclusive (doAuction cfg now sev st)"
proof -
  have step: "\<And>x s. exclusive s \<Longrightarrow> exclusive (snd (replayEarlyWin cfg now x s))"
  proof -
    fix x s assume "exclusive s"
    then have "exclusive (recordHit ''replayedEarlyWinEvent'' [] s)"
      by (simp add: exclusive_def)
    then show "exclusive (snd (replayEarlyWin cfg now x s))"
      by (simp add: replayEarlyWin_def exclusive_doWinLoss)
  qed
  show ?thesis
    unfolding doAuction_def Let_def
    by (rule forEach_invariant [of exclusive, OF step])
       (use assms in \<open>auto simp add: exclusive_def\<close>)
qed

lemma onExpiredSubmitted_visit:
  "fst (onExpiredSubmitted cfg start key info st) = None"
  "submitted (snd (onExpiredSubmitted cfg start key info st)) = submitted st"
  "pl_keys (finished (snd (onExpiredSubmitted cfg start key info st)))
     \<subseteq> insert key (pl_keys (finished st))"
proof -
  let ?s = "recordHit ''submittedAuctionExpiry'' [] st"
  let ?R = "doBidResult cfg start (fst key) (snd key) info 0 start BS_LOSS Inferred ''null'' {} ?s"
  obtain e s where R: "?R = (e, s)" by fastforce
  from doBidResult_finished_keys [of cfg start "fst key" "snd key" info 0 start BS_LOSS Inferred
      "''null''" "{}" ?s] R
  have k: "pl_keys (finished s) \<subseteq> insert key (pl_keys (finished st))" by simp
  from doBidResult_submitted [of cfg start "fst key" "snd key" info 0 start BS_LOSS Inferred
      "''null''" "{}" ?s] R
  have sb: "submitted s = submitted st" by simp
  show "fst (onExpiredSubmitted cfg start key info st) = None"
    using R by (cases e) (simp_all add: onExpiredSubmitted_def Let_def)
  show "submitted (snd (onExpiredSubmitted cfg start key info st)) = submitted st"
    using R sb by (cases e) (simp_all add: onExpiredSubmitted_def Let_def)
  show "pl_keys (finished (snd (onExpiredSubmitted cfg start key info st)))
     \<subseteq> insert key (pl_keys (finished st))"
    using R k by (cases e) (auto simp add: onExpiredSubmitted_def Let_def)
qed

lemma expireStep_submitted:
  "expireStep (onExpiredSubmitted cfg start) e (pl, s)
     = (pl_erase (fst e) pl, snd (onExpiredSubmitted cfg start (fst e) (fst (snd e)) s))"
  using onExpiredSubmitted_visit(1) [of cfg start "fst e" "fst (snd e)" s]
  by (cases "onExpiredSubmitted cfg start (fst e) (fst (snd e)) s") (simp add: expireStep_def)

lemma expireStep_finished:
  "expireStep onExpiredFinished e (pl, s)
     = (pl_erase (fst e) pl, recordHit ''finishedAuctionExpiry'' [] s)"
  by (simp add: expireStep_def onExpiredFinished_def)

lemma sweep_submitted_exclusive:
  assumes "pl_keys pl \<inter> pl_keys (finished s) = {}"
  shows "pl_keys (fst (fold (expireStep (onExpiredSubmitted cfg start)) es (pl, s)))
           \<inter> pl_keys (finished (snd (fold (expireStep (onExpiredSubmitted cfg start)) es (pl, s))))
         = {}"
  using assms
proof (induction es arbitrary: pl s)
  case Nil
  then show ?case by simp
next
  case (Cons e es)
  let ?s' = "snd (onExpiredSubmitted cfg start (fst e) (fst (snd e)) s)"
  have "pl_keys (pl_erase (fst e) pl) \<inter> pl_keys (finished ?s') = {}"
    using Cons.prems onExpiredSubmitted_visit(3) [of cfg start "fst e" "fst (snd e)" s]
    by auto
  from Cons.IH [OF this] show ?case by (simp add: expireStep_submitted)
qed

lemma sweep_finished_keys:
  "pl_keys (fst (fold (expireStep onExpiredFinished) es (pl, s))) \<subseteq> pl_keys pl
   \<and> submitted (snd (fold (expireStep onExpiredFinished) es (pl, s))) = submitted s"
proof (induction es arbitrary: pl s)
  case Nil
  then show ?case by simp
next
  case (Cons e es)
  from Cons [of "pl_erase (fst e) pl" "recordHit ''finishedAuctionExpiry'' [] s"]
  show ?case by (auto simp add: expireStep_finished)
qed

lemma exclusive_checkExpiredAuctions:
  assumes "exclusive st"
  shows "exclusive (checkExpiredAuctions cfg start st)"
proof -
  let ?r1 = "expire (onExpiredSubmitted cfg start) start (submitted st) st"
  let ?st1 = "(snd ?r1)\<lparr>submitted := fst ?r1\<rparr>"
  let ?r2 = "expire onExpiredFinished start (finished ?st1) ?st1"
  have 1: "pl_keys (fst ?r1) \<inter> pl_keys (finished (snd ?r1)) = {}"
    unfolding expire_def using assms by (intro sweep_submitted_exclusive) (simp add: exclusive_def)
  have 2: "pl_keys (fst ?r2) \<subseteq> pl_keys (finished ?st1)" "submitted (snd ?r2) = submitted ?st1"
    unfolding expire_def using sweep_finished_keys by blast+
  from 1 2 show ?thesis
    by (auto simp add: checkExpiredAuctions_def Let_def exclusive_def)
qed


text \<open>
  Claim C6, as the code has it. The two tables start disjoint. When no key is in both
  tables, none is after \<open>doEvent\<close> and none is after a sweep; none is after
  \<open>doAuction\<close> provided the key of the submitted auction is not already in
  \<open>finished\<close> (\<open>doAuction\<close> inserts into \<open>submitted\<close> without looking at
  \<open>finished\<close>).
\<close>

theorem tables_exclusive:
  "exclusive initialState
   \<and> (exclusive st \<longrightarrow>
        exclusive (doEvent cfg now ev st)
        \<and> exclusive (checkExpiredAuctions cfg now st)
        \<and> ((sa_auctionId sev, sa_adSpotId sev) \<notin> pl_keys (finished st)
             \<longrightarrow> exclusive (doAuction cfg now sev st)))"
proof (intro conjI impI)
  show "exclusive initialState"
    by (simp add: exclusive_def initialState_def pl_keys_def)
next
  assume "exclusive st"
  then show "exclusive (doEvent cfg now ev st)" by (rule exclusive_doEvent)
next
  assume "exclusive st"
  then show "exclusive (checkExpiredAuctions cfg now st)"
    by (rule exclusive_checkExpiredAuctions)
next
  assume "exclusive st" "(sa_auctionId sev, sa_adSpotId sev) \<notin> pl_keys (finished st)"
  then show "exclusive (doAuction cfg now sev st)" by (rule exclusive_doAuction)
qed

theorem tables_exclusive_witness:
  "exclusive st1
   \<and> pl_keys (submitted st1) = {(''A1'', ''S1'')}
   \<and> exclusive (doEvent cfg0 1 win1 st1)
   \<and> exclusive (checkExpiredAuctions cfg0 20 st1)
   \<and> (sa_auctionId submit1, sa_adSpotId submit1) \<notin> pl_keys (finished st1)
   \<and> exclusive (doAuction cfg0 2 submit1 st1)"
proof -
  have h: "exclusive st1" "pl_keys (submitted st1) = {(''A1'', ''S1'')}"
    "(sa_auctionId submit1, sa_adSpotId submit1) \<notin> pl_keys (finished st1)"
    by (simp_all add: exclusive_def matcher_defs example_defs pl_defs Let_def)
  from tables_exclusive [of st1 cfg0 1 win1 submit1]
    tables_exclusive [of st1 cfg0 20 win1 submit1]
    tables_exclusive [of st1 cfg0 2 win1 submit1] h
  show ?thesis by simp
qed

text \<open>
  Claim C6 as stated fails: once \<open>submit1\<close> has been won, the tables being disjoint,
  submitting it again leaves its key in both tables at the end of \<open>doAuction\<close>.
\<close>

theorem tables_exclusive_counterexample:
  "exclusive stWon1
   \<and> (''A1'', ''S1'') \<in> pl_keys (submitted (doAuction cfg0 2 submit1 stWon1))
   \<and> (''A1'', ''S1'') \<in> pl_keys (finished (doAuction cfg0 2 submit1 stWon1))"
  by (simp add: exclusive_def matcher_defs example_defs pl_defs Let_def)

section \<open>Submissions without a bid request\<close>

lemma list_all_pl_erase: "list_all P pl \<Longrightarrow> list_all P (pl_erase k pl)"
  by (simp add: pl_erase_def list_all_iff)

lemma list_all_pl_insert:
  "list_all P pl \<Longrightarrow> P (k, v, t) \<Longrightarrow> list_all P (pl_insert k v t pl)"
  by (simp add: pl_insert_def pl_erase_def list_all_iff)

lemma list_all_pl_update:
  "list_all (\<lambda>e. Q (fst (snd e))) pl \<Longrightarrow> Q v
     \<Longrightarrow> list_all (\<lambda>e. Q (fst (snd e))) (pl_update k v pl)"
  by (auto simp add: pl_update_def list_all_iff)

lemma earlyInvariant_same: "submitted st' = submitted st \<Longrightarrow> earlyInvariant st' = earlyInvariant st"
  by (simp add: earlyInvariant_def)

lemma earlyInvariant_doBidResult:
  "earlyInvariant st
     \<Longrightarrow> earlyInvariant (snd (doBidResult cfg now aId spot sub wp ts status conf meta us st))"
  by (simp add: earlyInvariant_def)

lemma earlyInvariant_doCampaignEvent:
  assumes "earlyInvariant st"
  shows "earlyInvariant (snd (doCampaignEvent cfg ev st))"
proof (cases "evtype ev \<noteq> PAE_CAMPAIGN_EVENT")
  case True
  with assms show ?thesis by (simp add: doCampaignEvent_def)
next
  case False
  let ?s = "recordHit ''delivery.EVENT.%s.messagesReceived'' [label ev] st"
  have w: "earlyInvariant ?s" using assms by (simp add: earlyInvariant_def)
  obtain spot1 r1 where f1: "findAuction (submitted ?s) (auctionId ev) (adSpotId ev) = (spot1, r1)"
    by fastforce
  show ?thesis
  proof (cases r1)
    case (Some info)
    have "buffersEarly (info\<lparr>earlyCampaignEvents := earlyCampaignEvents info @ [ev]\<rparr>)"
      by (simp add: buffersEarly_def)
    with False f1 Some assms show ?thesis
      by (simp add: doCampaignEvent_def Let_def campaignInFlight_def recordUnmatched_def
            earlyInvariant_def list_all_pl_update)
  next
    case None
    obtain spot2 r2 where f2: "findAuction (finished ?s) (auctionId ev) spot1 = (spot2, r2)"
      by fastforce
    show ?thesis
    proof (cases r2)
      case (Some info)
      with False f1 None f2 assms show ?thesis
        by (simp add: doCampaignEvent_def Let_def campaignFinished_def recordUnmatched_def
            earlyInvariant_def)
    next
      case n2: None
      with False f1 None f2 assms show ?thesis
        by (simp add: doCampaignEvent_def Let_def recordUnmatched_def earlyInvariant_def)
    qed
  qed
qed

lemma earlyInvariant_doWinLoss:
  assumes "earlyInvariant st"
  shows "earlyInvariant (snd (doWinLoss cfg now ev r st))"
proof (cases rule: doWinLoss_cases [of ev st])
  case finished
  with assms show ?thesis by (simp add: doWinLoss_finished earlyInvariant_def)
next
  case unknown
  have "buffersEarly (SubmissionInfo0\<lparr>earlyWinEvents := [ev]\<rparr>)"
    by (simp add: buffersEarly_def)
  with unknown assms show ?thesis
    by (simp add: doWinLoss_unknown winLossNotSubmitted_def Let_def earlyInvariant_def
          list_all_pl_insert)
next
  case (buffered info)
  have "buffersEarly (info\<lparr>earlyWinEvents := earlyWinEvents info @ [ev]\<rparr>)"
    by (simp add: buffersEarly_def)
  with buffered assms show ?thesis
    by (simp add: doWinLoss_buffered earlyInvariant_def list_all_pl_insert list_all_pl_erase)
next
  case (delivered info br)
  let ?R = "doBidResult cfg now (auctionId ev) (adSpotId ev) info (winPrice ev) (timestamp ev)
              (if evtype ev = PAE_WIN then BS_WIN else BS_LOSS)
              (if evtype ev = PAE_WIN then Guaranteed else Inferred)
              (metadata ev) (uids ev) (deliveredState ev r st)"
  have "earlyInvariant (deliveredState ev r st)"
    using assms by (simp add: earlyInvariant_def list_all_pl_erase)
  then have w: "earlyInvariant (snd ?R)" by (rule earlyInvariant_doBidResult)
  obtain e s where R: "?R = (e, s)" by fastforce
  with w have s: "earlyInvariant s" by simp
  have "earlyInvariant (snd (forEach (doCampaignEvent cfg) (earlyCampaignEvents info) s))"
    by (rule forEach_invariant [of earlyInvariant]) (simp_all add: earlyInvariant_doCampaignEvent s)
  with R s show ?thesis
    by (cases e) (simp_all add: doWinLoss_delivered [OF delivered])
qed

lemma earlyInvariant_doEvent: "earlyInvariant st \<Longrightarrow> earlyInvariant (doEvent cfg now ev st)"
  by (cases "evtype ev")
     (simp_all add: doEvent_def earlyInvariant_doWinLoss earlyInvariant_doCampaignEvent)

lemma earlyInvariant_doAuction:
  assumes "earlyInvariant st" and "sa_bidRequest sev \<noteq> None"
  shows "earlyInvariant (doAuction cfg now sev st)"
proof -
  have step: "\<And>x s. earlyInvariant s \<Longrightarrow> earlyInvariant (snd (replayEarlyWin cfg now x s))"
  proof -
    fix x s assume "earlyInvariant s"
    then have "earlyInvariant (recordHit ''replayedEarlyWinEvent'' [] s)"
      by (simp add: earlyInvariant_def)
    then show "earlyInvariant (snd (replayEarlyWin cfg now x s))"
      by (simp add: replayEarlyWin_def earlyInvariant_doWinLoss)
  qed
  have ins: "\<And>v pl. list_all (\<lambda>e. buffersEarly (fst (snd e))) pl \<Longrightarrow>
      list_all (\<lambda>e. buffersEarly (fst (snd e)))
        (pl_insert (sa_auctionId sev, sa_adSpotId sev)
           (v\<lparr>bidRequest := sa_bidRequest sev,
                          bidRequestStrFormat := sa_bidRequestStrFormat sev,
                          bidRequestStr := sa_bidRequestStr sev,
                          augmentations := sa_augmentations sev,
                          bid := sa_bidResponse sev\<rparr>) (sa_lossTimeout sev) pl)"
    by (rule list_all_pl_insert) (use assms(2) in \<open>simp_all add: buffersEarly_def\<close>)
  show ?thesis
    unfolding doAuction_def Let_def
  proof (rule forEach_invariant [of earlyInvariant, OF step])
    show "earlyInvariant
     (emit (AttachBid (r_account (sa_bidResponse sev))
        (makeBidId (sa_auctionId sev) (sa_adSpotId sev) (agent (sa_bidResponse sev)))
        (maxPrice (sa_bidResponse sev)))
       ((if pl_count (submitted (recordHit ''processedAuction'' [] st))
              (sa_auctionId sev, sa_adSpotId sev)
         then recordHit ''auctionAlreadySubmitted'' []
               ((recordHit ''processedAuction'' [] st)
                \<lparr>submitted := pl_erase (sa_auctionId sev, sa_adSpotId sev)
                    (submitted (recordHit ''processedAuction'' [] st))\<rparr>)
         else recordHit ''processedAuction'' [] st)
        \<lparr>submitted := pl_insert (sa_auctionId sev, sa_adSpotId sev)
            ((case if pl_count (submitted (recordHit ''processedAuction'' [] st))
                        (sa_auctionId sev, sa_adSpotId sev)
                   then pl_get (submitted (recordHit ''processedAuction'' [] st))
                         (sa_auctionId sev, sa_adSpotId sev)
                   else None of
              None \<Rightarrow> SubmissionInfo0 | Some s \<Rightarrow> s\<lparr>earlyWinEvents := []\<rparr>)
             \<lparr>bidRequest := sa_bidRequest sev,
                bidRequestStrFormat := sa_bidRequestStrFormat sev,
                bidRequestStr := sa_bidRequestStr sev,
                augmentations := sa_augmentations sev, bid := sa_bidResponse sev\<rparr>)
            (sa_lossTimeout sev)
            (submitted
              (if pl_count (submitted (recordHit ''processedAuction'' [] st))
                   (sa_auctionId sev, sa_adSpotId sev)
               then recordHit ''auctionAlreadySubmitted'' []
                     ((recordHit ''processedAuction'' [] st)
                      \<lparr>submitted := pl_erase (sa_auctionId sev, sa_adSpotId sev)
                          (submitted (recordHit ''processedAuction'' [] st))\<rparr>)
               else recordHit ''processedAuction'' [] st))\<rparr>))"
      using assms(1)
      by (cases "(sa_auctionId sev, sa_adSpotId sev) \<in> pl_keys (submitted st)")
         (simp_all add: earlyInvariant_def ins list_all_pl_erase)
  qed
qed

lemma sweep_submitted_subset:
  "set (fst (fold (expireStep (onExpiredSubmitted cfg start)) es (pl, s))) \<subseteq> set pl"
proof (induction es arbitrary: pl s)
  case Nil
  then show ?case by simp
next
  case (Cons e es)
  from Cons [of "pl_erase (fst e) pl" "snd (onExpiredSubmitted cfg start (fst e) (fst (snd e)) s)"]
  show ?case by (auto simp add: expireStep_submitted pl_erase_def)
qed

lemma earlyInvariant_checkExpiredAuctions:
  assumes "earlyInvariant st"
  shows "earlyInvariant (checkExpiredAuctions cfg start st)"
proof -
  let ?r1 = "expire (onExpiredSubmitted cfg start) start (submitted st) st"
  let ?st1 = "(snd ?r1)\<lparr>submitted := fst ?r1\<rparr>"
  let ?r2 = "expire onExpiredFinished start (finished ?st1) ?st1"
  have 1: "set (fst ?r1) \<subseteq> set (submitted st)"
    unfolding expire_def by (rule sweep_submitted_subset)
  have 2: "submitted (snd ?r2) = submitted ?st1"
    unfolding expire_def using sweep_finished_keys by blast
  from 1 2 assms show ?thesis
    by (auto simp add: checkExpiredAuctions_def Let_def earlyInvariant_def list_all_iff)
qed


lemma onExpiredSubmitted_without_bid:
  "bidRequest info = None \<Longrightarrow>
   onExpiredSubmitted cfg start key info st
     = (None, recordHit ''submittedAuctionExpiryWithoutBid'' []
                (recordHit ''submittedAuctionExpiry'' [] st))"
  by (simp add: onExpiredSubmitted_def Let_def)

text \<open>
  Claim C7, as the code has it. Every entry of \<open>submitted\<close> without a bid request
  buffers at least one early win event or one early campaign event: this holds
  initially and is kept by \<open>doEvent\<close> and the sweep, and by \<open>doAuction\<close> when the
  submitted auction carries a bid request (\<open>doAuction\<close> copies the pointer as it is).
  For an entry without a bid request no
  banker commit is made before its auction arrives: the sweep's visitor only records
  two counters and drops it, and a win or loss event for its key (the key not being
  finished) makes no banker call and puts the entry back, still without a bid
  request, with the event appended to its early win events.
\<close>

theorem early_submissions:
  "earlyInvariant initialState
   \<and> (earlyInvariant st \<longrightarrow>
        earlyInvariant (doEvent cfg now ev st)
        \<and> (sa_bidRequest sev \<noteq> None \<longrightarrow> earlyInvariant (doAuction cfg now sev st))
        \<and> earlyInvariant (checkExpiredAuctions cfg now st))
   \<and> (bidRequest info = None \<longrightarrow>
        newEffects st (snd (onExpiredSubmitted cfg now key info st))
          = [Hit ''submittedAuctionExpiry'' [], Hit ''submittedAuctionExpiryWithoutBid'' []]
        \<and> (pl_get (submitted st) (auctionId ev, adSpotId ev) = Some info
             \<and> (auctionId ev, adSpotId ev) \<notin> pl_keys (finished st)
             \<and> (evtype ev = PAE_WIN \<or> evtype ev = PAE_LOSS)
            \<longrightarrow> filter isBankerCall (newEffects st (doEvent cfg now ev st)) = []
              \<and> pl_get (submitted (doEvent cfg now ev st)) (auctionId ev, adSpotId ev)
                  = Some (info\<lparr>earlyWinEvents := earlyWinEvents info @ [ev]\<rparr>)))"
proof (intro conjI impI)
  show "earlyInvariant initialState"
    by (simp add: earlyInvariant_def initialState_def)
next
  assume "earlyInvariant st"
  then show "earlyInvariant (doEvent cfg now ev st)" by (rule earlyInvariant_doEvent)
next
  assume "earlyInvariant st" "sa_bidRequest sev \<noteq> None"
  then show "earlyInvariant (doAuction cfg now sev st)" by (rule earlyInvariant_doAuction)
next
  assume "earlyInvariant st"
  then show "earlyInvariant (checkExpiredAuctions cfg now st)"
    by (rule earlyInvariant_checkExpiredAuctions)
next
  assume "bidRequest info = None"
  then show "newEffects st (snd (onExpiredSubmitted cfg now key info st))
          = [Hit ''submittedAuctionExpiry'' [], Hit ''submittedAuctionExpiryWithoutBid'' []]"
    by (simp add: onExpiredSubmitted_without_bid newEffects_def)
next
  assume n: "bidRequest info = None"
    and a: "pl_get (submitted st) (auctionId ev, adSpotId ev) = Some info
             \<and> (auctionId ev, adSpotId ev) \<notin> pl_keys (finished st)
             \<and> (evtype ev = PAE_WIN \<or> evtype ev = PAE_LOSS)"
  then have e: "doEvent cfg now ev st = snd (doWinLoss cfg now ev False st)"
    by (auto simp add: doEvent_def)
  from a n have b: "doWinLoss cfg now ev False st
     = (None, (countedState ev False st)\<lparr>submitted :=
          pl_insert (auctionId ev, adSpotId ev)
            (info\<lparr>earlyWinEvents := earlyWinEvents info @ [ev]\<rparr>) (now + lossTimeout)
            (pl_erase (auctionId ev, adSpotId ev) (submitted st))\<rparr>)"
    by (intro doWinLoss_buffered) simp_all
  show "filter isBankerCall (newEffects st (doEvent cfg now ev st)) = []"
    by (simp add: e b newEffects_def)
  show "pl_get (submitted (doEvent cfg now ev st)) (auctionId ev, adSpotId ev)
                  = Some (info\<lparr>earlyWinEvents := earlyWinEvents info @ [ev]\<rparr>)"
    by (simp add: e b)
qed

theorem early_submissions_witness:
  "earlyInvariant stEarly1
   \<and> submitted stEarly1 = [((''A1'', ''S1''), SubmissionInfo0\<lparr>earlyWinEvents := [win1]\<rparr>, 16)]
   \<and> earlyInvariant (doEvent cfg0 2 win1 stEarly1)
   \<and> sa_bidRequest submit1 \<noteq> None
   \<and> earlyInvariant (doAuction cfg0 2 submit1 stEarly1)
   \<and> earlyInvariant (checkExpiredAuctions cfg0 2 stEarly1)
   \<and> bidRequest (SubmissionInfo0\<lparr>earlyWinEvents := [win1]\<rparr>) = None
   \<and> newEffects stEarly1
        (snd (onExpiredSubmitted cfg0 2 (''A1'', ''S1'')
                (SubmissionInfo0\<lparr>earlyWinEvents := [win1]\<rparr>) stEarly1))
       = [Hit ''submittedAuctionExpiry'' [], Hit ''submittedAuctionExpiryWithoutBid'' []]
   \<and> (auctionId win1, adSpotId win1) \<notin> pl_keys (finished stEarly1)
   \<and> filter isBankerCall (newEffects stEarly1 (doEvent cfg0 2 win1 stEarly1)) = []
   \<and> pl_get (submitted (doEvent cfg0 2 win1 stEarly1)) (auctionId win1, adSpotId win1)
       = Some (SubmissionInfo0\<lparr>earlyWinEvents := [win1, win1]\<rparr>)"
proof -
  have h: "earlyInvariant stEarly1"
    "submitted stEarly1 = [((''A1'', ''S1''), SubmissionInfo0\<lparr>earlyWinEvents := [win1]\<rparr>, 16)]"
    "bidRequest (SubmissionInfo0\<lparr>earlyWinEvents := [win1]\<rparr>) = None"
    "pl_get (submitted stEarly1) (auctionId win1, adSpotId win1)
       = Some (SubmissionInfo0\<lparr>earlyWinEvents := [win1]\<rparr>)"
    "(auctionId win1, adSpotId win1) \<notin> pl_keys (finished stEarly1)"
    "evtype win1 = PAE_WIN" "sa_bidRequest submit1 \<noteq> None"
    by (simp_all add: earlyInvariant_def buffersEarly_def matcher_defs example_defs pl_defs Let_def)
  from early_submissions [of stEarly1 cfg0 2 win1 submit1
      "SubmissionInfo0\<lparr>earlyWinEvents := [win1]\<rparr>" "(''A1'', ''S1'')"] h
  show ?thesis by simp
qed

text \<open>
  Claim C7 as stated fails: a submitted auction whose bid request is null is stored
  without a bid request and with no early event at all.
\<close>

theorem early_submissions_counterexample:
  "earlyInvariant initialState
   \<and> \<not> earlyInvariant (doAuction cfg0 0 submitNullRequest initialState)
   \<and> pl_get (submitted (doAuction cfg0 0 submitNullRequest initialState)) (''A1'', ''S1'')
       = Some (info1\<lparr>bidRequest := None\<rparr>)"
  by (simp add: earlyInvariant_def buffersEarly_def matcher_defs example_defs pl_defs Let_def)

section \<open>The expiry sweep\<close>

lemma fold_pl_erase:
  "fold (\<lambda>e. pl_erase (fst e)) es pl = filter (\<lambda>e. fst e \<notin> pl_keys es) pl"
proof (induction es arbitrary: pl)
  case Nil
  then show ?case by (simp add: pl_keys_def)
next
  case (Cons e es)
  have "filter (\<lambda>x. fst x \<notin> pl_keys es) (pl_erase (fst e) pl)
      = filter (\<lambda>x. fst x \<notin> pl_keys (e # es)) pl"
    unfolding pl_erase_def filter_filter by (rule filter_cong) (auto simp: pl_keys_def)
  then show ?case by (simp add: Cons.IH)
qed

lemma fold_expireStep_submitted:
  "fold (expireStep (onExpiredSubmitted cfg start)) es (pl, s)
     = (fold (\<lambda>e. pl_erase (fst e)) es pl,
        fold (\<lambda>e s. snd (onExpiredSubmitted cfg start (fst e) (fst (snd e)) s)) es s)"
  by (induction es arbitrary: pl s) (simp_all add: expireStep_submitted)

lemma fold_expireStep_finished:
  "fold (expireStep onExpiredFinished) es (pl, s)
     = (fold (\<lambda>e. pl_erase (fst e)) es pl,
        s\<lparr>effects := effects s @ replicate (length es) (Hit ''finishedAuctionExpiry'' [])\<rparr>)"
proof (induction es arbitrary: pl s)
  case Nil
  then show ?case by simp
next
  case (Cons e es)
  show ?case
    by (simp add: expireStep_finished Cons.IH recorder_defs emit_def replicate_append_same)
qed

lemma expired_set: "set (expired now pl) = {e \<in> set pl. snd (snd e) \<le> now}"
  by (simp add: expired_def)

lemma unexpired_remain:
  "e \<in> set (filter (\<lambda>e. fst e \<notin> pl_keys (expired now pl)) pl) \<Longrightarrow> now < snd (snd e)"
proof -
  assume a: "e \<in> set (filter (\<lambda>e. fst e \<notin> pl_keys (expired now pl)) pl)"
  show "now < snd (snd e)"
  proof (rule ccontr)
    assume "\<not> now < snd (snd e)"
    with a have "e \<in> set (expired now pl)" by (simp add: expired_set)
    then have "fst e \<in> pl_keys (expired now pl)" by (simp add: pl_keys_def)
    with a show False by simp
  qed
qed

lemma checkExpiredAuctions_eq:
  "checkExpiredAuctions cfg now st
     = (sweptSubmitted cfg now st)
         \<lparr>submitted := filter (\<lambda>e. fst e \<notin> pl_keys (expired now (submitted st))) (submitted st),
          finished := filter (\<lambda>e. fst e \<notin> pl_keys (expired now (finished (sweptSubmitted cfg now st))))
                        (finished (sweptSubmitted cfg now st)),
          effects := effects (sweptSubmitted cfg now st)
            @ replicate (length (expired now (finished (sweptSubmitted cfg now st))))
                (Hit ''finishedAuctionExpiry'' [])
            @ [LogBidEvents]\<rparr>"
  by (simp add: checkExpiredAuctions_def Let_def expire_def fold_expireStep_submitted
        fold_expireStep_finished fold_pl_erase sweptSubmitted_def emit_def)


lemma onExpiredSubmitted_with_bid:
  "bidRequest info \<noteq> None \<Longrightarrow>
   onExpiredSubmitted cfg start key info st
     = (None,
        case doBidResult cfg start (fst key) (snd key) info 0 start BS_LOSS Inferred ''null'' {}
               (recordHit ''submittedAuctionExpiry'' [] st) of
          (None, s) \<Rightarrow> s
        | (Some e, s) \<Rightarrow> doError ''checkExpiredAuctions.loss'' (what e) s)"
  by (auto simp add: onExpiredSubmitted_def Let_def split: prod.splits option.splits)

text \<open>
  Claim C8. The sweep applies its visitor to the expired entries of \<open>submitted\<close> in
  order of expiry (\<open>sweptSubmitted\<close>). For an entry with a bid request the visitor
  calls \<open>doBidResult\<close> with price 0, the sweep time, status loss and confidence
  inferred (an exception is recorded as an error and the sweep goes on); for an entry
  without one it records \<open>submittedAuctionExpiryWithoutBid\<close> and does nothing else.
  The entries under the keys of the expired entries are then gone from \<open>submitted\<close>,
  and likewise from \<open>finished\<close>, one counter being recorded per expired finished
  entry; no entry that is left in either table has expired; and the last thing the
  sweep does is \<open>banker.logBidEvents\<close>.
\<close>

theorem sweep_correct:
  "submitted (checkExpiredAuctions cfg now st)
     = filter (\<lambda>e. fst e \<notin> pl_keys (expired now (submitted st))) (submitted st)
   \<and> finished (checkExpiredAuctions cfg now st)
     = filter (\<lambda>e. fst e \<notin> pl_keys (expired now (finished (sweptSubmitted cfg now st))))
         (finished (sweptSubmitted cfg now st))
   \<and> effects (checkExpiredAuctions cfg now st)
     = effects (sweptSubmitted cfg now st)
       @ replicate (length (expired now (finished (sweptSubmitted cfg now st))))
           (Hit ''finishedAuctionExpiry'' [])
       @ [LogBidEvents]
   \<and> (\<forall>e \<in> set (submitted (checkExpiredAuctions cfg now st)). now < snd (snd e))
   \<and> (\<forall>e \<in> set (finished (checkExpiredAuctions cfg now st)). now < snd (snd e))
   \<and> (bidRequest info = None \<longrightarrow>
        onExpiredSubmitted cfg now key info s
          = (None, recordHit ''submittedAuctionExpiryWithoutBid'' []
                     (recordHit ''submittedAuctionExpiry'' [] s)))
   \<and> (bidRequest info \<noteq> None \<longrightarrow>
        onExpiredSubmitted cfg now key info s
          = (None,
             case doBidResult cfg now (fst key) (snd key) info 0 now BS_LOSS Inferred ''null'' {}
                    (recordHit ''submittedAuctionExpiry'' [] s) of
               (None, s') \<Rightarrow> s'
             | (Some e, s') \<Rightarrow> doError ''checkExpiredAuctions.loss'' (what e) s'))"
proof (intro conjI impI ballI)
  show "submitted (checkExpiredAuctions cfg now st)
     = filter (\<lambda>e. fst e \<notin> pl_keys (expired now (submitted st))) (submitted st)"
    by (simp add: checkExpiredAuctions_eq)
  show f: "finished (checkExpiredAuctions cfg now st)
     = filter (\<lambda>e. fst e \<notin> pl_keys (expired now (finished (sweptSubmitted cfg now st))))
         (finished (sweptSubmitted cfg now st))"
    by (simp add: checkExpiredAuctions_eq)
  show "effects (checkExpiredAuctions cfg now st)
     = effects (sweptSubmitted cfg now st)
       @ replicate (length (expired now (finished (sweptSubmitted cfg now st))))
           (Hit ''finishedAuctionExpiry'' [])
       @ [LogBidEvents]"
    by (simp add: checkExpiredAuctions_eq)
next
  fix e assume "e \<in> set (submitted (checkExpiredAuctions cfg now st))"
  then show "now < snd (snd e)"
    by (intro unexpired_remain [of e now "submitted st"]) (simp add: checkExpiredAuctions_eq)
next
  fix e assume "e \<in> set (finished (checkExpiredAuctions cfg now st))"
  then show "now < snd (snd e)"
    by (intro unexpired_remain [of e now "finished (sweptSubmitted cfg now st)"])
       (simp add: checkExpiredAuctions_eq)
next
  assume "bidRequest info = None"
  then show "onExpiredSubmitted cfg now key info s
          = (None, recordHit ''submittedAuctionExpiryWithoutBid'' []
                     (recordHit ''submittedAuctionExpiry'' [] s))"
    by (rule onExpiredSubmitted_without_bid)
next
  assume "bidRequest info \<noteq> None"
  then show "onExpiredSubmitted cfg now key info s
          = (None,
             case doBidResult cfg now (fst key) (snd key) info 0 now BS_LOSS Inferred ''null'' {}
                    (recordHit ''submittedAuctionExpiry'' [] s) of
               (None, s') \<Rightarrow> s'
             | (Some e, s') \<Rightarrow> doError ''checkExpiredAuctions.loss'' (what e) s')"
    by (rule onExpiredSubmitted_with_bid)
qed

theorem sweep_correct_witness:
  "submitted st1 = [((''A1'', ''S1''), info1, 15)]
   \<and> submitted (checkExpiredAuctions cfg0 20 st1) = []
   \<and> finished (checkExpiredAuctions cfg0 20 st1) = [((''A1'', ''S1''), fiLost1, 3620)]
   \<and> list_all (\<lambda>e. 20 < snd (snd e)) (finished (checkExpiredAuctions cfg0 20 st1))
   \<and> newEffects st1 (checkExpiredAuctions cfg0 20 st1)
       = [Hit ''submittedAuctionExpiry'' [],
          OnMatchedWinLoss Loss Inferred fiLost1 20 {},
          CancelBid [''camp'', ''strat''] ''A1-S1-bob'', LogBidEvents]
   \<and> bidRequest info1 \<noteq> None
   \<and> submitted (checkExpiredAuctions cfg0 10 st1) = submitted st1
   \<and> bidRequest (SubmissionInfo0\<lparr>earlyWinEvents := [win1]\<rparr>) = None
   \<and> submitted (checkExpiredAuctions cfg0 20 stEarly1) = []
   \<and> newEffects stEarly1 (checkExpiredAuctions cfg0 20 stEarly1)
       = [Hit ''submittedAuctionExpiry'' [], Hit ''submittedAuctionExpiryWithoutBid'' [],
          LogBidEvents]"
proof -
  have t: "submitted st1 = [((''A1'', ''S1''), info1, 15)]" "finished st1 = []"
    "submitted stEarly1 = [((''A1'', ''S1''), SubmissionInfo0\<lparr>earlyWinEvents := [win1]\<rparr>, 16)]"
    "finished stEarly1 = []"
    by (simp_all add: matcher_defs example_defs pl_defs Let_def)
  have b: "bidRequest info1 \<noteq> None" "bidRequest (SubmissionInfo0\<lparr>earlyWinEvents := [win1]\<rparr>) = None"
    by (simp_all add: info1_def SubmissionInfo0_def)
  have d: "doBidResult cfg0 20 ''A1'' ''S1'' info1 0 20 BS_LOSS Inferred ''null'' {}
             (recordHit ''submittedAuctionExpiry'' [] st1)
      = (None, st1\<lparr>finished := [((''A1'', ''S1''), fiLost1, 3620)],
           effects := effects st1 @ [Hit ''submittedAuctionExpiry'' [],
             OnMatchedWinLoss Loss Inferred fiLost1 20 {},
             CancelBid [''camp'', ''strat''] ''A1-S1-bob'']\<rparr>)"
    by (simp add: matcher_defs example_defs pl_defs Let_def)
  from sweep_correct [of cfg0 20 st1 info1 "(''A1'', ''S1'')" st1] b(1) d
  have v1: "snd (onExpiredSubmitted cfg0 20 (''A1'', ''S1'') info1 st1)
      = st1\<lparr>finished := [((''A1'', ''S1''), fiLost1, 3620)],
           effects := effects st1 @ [Hit ''submittedAuctionExpiry'' [],
             OnMatchedWinLoss Loss Inferred fiLost1 20 {},
             CancelBid [''camp'', ''strat''] ''A1-S1-bob'']\<rparr>"
    by simp
  from sweep_correct [of cfg0 20 stEarly1 "SubmissionInfo0\<lparr>earlyWinEvents := [win1]\<rparr>"
      "(''A1'', ''S1'')" stEarly1] b(2)
  have v2: "snd (onExpiredSubmitted cfg0 20 (''A1'', ''S1'')
                  (SubmissionInfo0\<lparr>earlyWinEvents := [win1]\<rparr>) stEarly1)
      = recordHit ''submittedAuctionExpiryWithoutBid'' []
          (recordHit ''submittedAuctionExpiry'' [] stEarly1)"
    by simp
  have s1: "sweptSubmitted cfg0 20 st1
      = st1\<lparr>finished := [((''A1'', ''S1''), fiLost1, 3620)],
           effects := effects st1 @ [Hit ''submittedAuctionExpiry'' [],
             OnMatchedWinLoss Loss Inferred fiLost1 20 {},
             CancelBid [''camp'', ''strat''] ''A1-S1-bob'']\<rparr>"
    by (simp add: sweptSubmitted_def t expired_def v1)
  have s2: "sweptSubmitted cfg0 20 stEarly1
      = recordHit ''submittedAuctionExpiryWithoutBid'' []
          (recordHit ''submittedAuctionExpiry'' [] stEarly1)"
    by (simp add: sweptSubmitted_def t expired_def v2)
  have s3: "expired 10 (submitted st1) = []"
    by (simp add: t expired_def)
  from sweep_correct [of cfg0 20 st1 info1 "(''A1'', ''S1'')" st1]
    sweep_correct [of cfg0 10 st1 info1 "(''A1'', ''S1'')" st1]
    sweep_correct [of cfg0 20 stEarly1 "SubmissionInfo0\<lparr>earlyWinEvents := [win1]\<rparr>"
      "(''A1'', ''S1'')" stEarly1]
  show ?thesis
    by (simp add: s1 s2 s3 t b expired_def pl_keys_def newEffects_def)
qed

section \<open>The reported status under events, submissions and sweeps\<close>








section \<open>Reservations made and settled\<close>

lemma resolution_is_call:
  "filter isResolution (filter isBankerCall xs) = filter isResolution xs"
proof (induction xs)
  case Nil
  then show ?case by simp
next
  case (Cons x xs)
  then show ?case by (cases x) simp_all
qed

lemma attach_is_call: "filter isAttach (filter isBankerCall xs) = filter isAttach xs"
proof (induction xs)
  case Nil
  then show ?case by simp
next
  case (Cons x xs)
  then show ?case by (cases x) simp_all
qed

lemma quiet_counts:
  assumes "filter isBankerCall xs = []"
  shows "filter isResolution xs = []" "filter isAttach xs = []"
  using resolution_is_call [of xs] attach_is_call [of xs] assms by simp_all

lemma doBidResult_counts:
  "\<exists>xs. effects (snd (doBidResult cfg now aId spot sub wp ts status conf meta us st))
          = effects st @ xs
      \<and> length (filter isResolution xs) \<le> 1 \<and> filter isAttach xs = []"
proof (cases "(status = BS_WIN \<or> status = BS_LOSS) \<and> spot \<noteq> nullId \<and> bidRequest sub \<noteq> None
       \<and> r_account (bid sub) \<noteq> []")
  case False
  show ?thesis
  proof (rule doBidResult_early [OF False, of cfg now aId wp ts conf meta us st])
    fix e errs
    assume a: "doBidResult cfg now aId spot sub wp ts status conf meta us st
       = (Some e, st\<lparr>effects := effects st @ errs\<rparr>)"
      "\<forall>x \<in> set errs. \<exists>sc m. x = DoError sc m"
    from a(2) have "filter isResolution errs = []" "filter isAttach errs = []"
      by (auto simp: filter_empty_conv)
    with a(1) show ?thesis by simp
  qed
next
  case True
  then obtain br where "bidRequest sub = Some br" by auto
  with True doBidResult_effects [of status spot sub br cfg now aId wp ts conf meta us st]
  obtain xs c where xs: "effects (snd (doBidResult cfg now aId spot sub wp ts status conf meta us st))
                 = effects st @ xs" "filter isBankerCall xs = [c]"
    and c: "c = CancelBid (r_account (bid sub)) (makeBidId aId spot (agent (bid sub)))
              \<or> status = BS_WIN
                \<and> (\<exists>p. c = WinBid (r_account (bid sub)) (makeBidId aId spot (agent (bid sub))) p)"
    by blast
  from resolution_is_call [of xs] xs(2) have "length (filter isResolution xs) \<le> 1"
    by (metis One_nat_def length_Cons length_filter_le list.size(3))
  moreover from attach_is_call [of xs] xs(2) c have "filter isAttach xs = []" by auto
  ultimately show ?thesis using xs(1) by blast
qed


lemma settles_refl [simp]: "settles st st"
  by (simp add: settles_def)

lemma settles_trans: "settles a b \<Longrightarrow> settles b c \<Longrightarrow> settles a c"
  by (auto simp: settles_def)

lemma settles_same:
  "submitted b = submitted a \<Longrightarrow> effects b = effects a @ xs \<Longrightarrow> filter isBankerCall xs = []
     \<Longrightarrow> settles a b"
  using quiet_counts [of xs] by (simp add: settles_def)

lemma accounted_settles: "accounted a \<Longrightarrow> settles a b \<Longrightarrow> accounted b"
  by (auto simp: accounted_def settles_def)

lemma map_fst_pl_update [simp]: "map fst (pl_update k v pl) = map fst pl"
  by (induction pl) (auto simp: pl_update_def)

lemma distinct_pl_erase: "distinct (map fst pl) \<Longrightarrow> distinct (map fst (pl_erase k pl))"
  by (simp add: pl_erase_def distinct_map_filter)

lemma distinct_pl_insert: "distinct (map fst pl) \<Longrightarrow> distinct (map fst (pl_insert k v t pl))"
  by (auto simp: pl_insert_def pl_erase_def distinct_map_filter)

lemma hasBid_pl_erase_le:
  "length (filter hasBid (pl_erase k pl)) \<le> length (filter hasBid pl)"
  by (induction pl) (auto simp: pl_erase_def)

lemma hasBid_pl_erase_found:
  "pl_get pl k = Some v \<Longrightarrow> bidRequest v \<noteq> None
     \<Longrightarrow> Suc (length (filter hasBid (pl_erase k pl))) \<le> length (filter hasBid pl)"
proof (induction pl)
  case Nil
  then show ?case by (simp add: pl_get_def)
next
  case (Cons e pl)
  show ?case
  proof (cases "fst e = k")
    case True
    with Cons.prems have "hasBid e" by (cases e) (auto simp: pl_get_def hasBid_def)
    with True show ?thesis
      using hasBid_pl_erase_le [of k pl] by (simp add: pl_erase_def)
  next
    case False
    with Cons.prems have "pl_get pl k = Some v" by (cases e) (auto simp: pl_get_def)
    from Cons.IH [OF this Cons.prems(2)] False show ?thesis by (simp add: pl_erase_def)
  qed
qed

lemma hasBid_pl_insert:
  "length (filter hasBid (pl_insert k v t pl))
     \<le> length (filter hasBid pl) + (if bidRequest v = None then 0 else 1)"
  using hasBid_pl_erase_le [of k pl] by (simp add: pl_insert_def hasBid_def)

lemma hasBid_pl_update:
  "pl_get pl k = Some v0 \<Longrightarrow> distinct (map fst pl) \<Longrightarrow> bidRequest v = bidRequest v0
     \<Longrightarrow> length (filter hasBid (pl_update k v pl)) = length (filter hasBid pl)"
proof (induction pl)
  case Nil
  then show ?case by (simp add: pl_update_def)
next
  case (Cons e pl)
  show ?case
  proof (cases "fst e = k")
    case True
    with Cons.prems have v0: "fst (snd e) = v0" by (cases e) (auto simp: pl_get_def)
    from True Cons.prems(2) have "k \<notin> pl_keys pl" by (auto simp: pl_keys_def)
    then have "pl_update k v pl = pl" by (rule pl_update_absent)
    then have "pl_update k v (e # pl) = (k, v, snd (snd e)) # pl"
      using True by (simp add: pl_update_def)
    with v0 Cons.prems(3) show ?thesis by (simp add: hasBid_def)
  next
    case False
    with Cons.prems have "pl_get pl k = Some v0" by (cases e) (auto simp: pl_get_def)
    from Cons.IH [OF this] Cons.prems(2,3) have
      "length (filter hasBid (pl_update k v pl)) = length (filter hasBid pl)" by simp
    moreover have "pl_update k v (e # pl) = e # pl_update k v pl"
      using False by (simp add: pl_update_def)
    ultimately show ?thesis by simp
  qed
qed


lemma doCampaignEvent_pending:
  assumes "distinct (map fst (submitted st))"
  shows "distinct (map fst (submitted (snd (doCampaignEvent cfg ev st))))
       \<and> length (filter hasBid (submitted (snd (doCampaignEvent cfg ev st))))
           = length (filter hasBid (submitted st))"
proof (cases "evtype ev \<noteq> PAE_CAMPAIGN_EVENT")
  case True
  with assms show ?thesis by (simp add: doCampaignEvent_def)
next
  case False
  let ?s = "recordHit ''delivery.EVENT.%s.messagesReceived'' [label ev] st"
  obtain spot1 r1 where f1: "findAuction (submitted ?s) (auctionId ev) (adSpotId ev) = (spot1, r1)"
    by fastforce
  show ?thesis
  proof (cases r1)
    case (Some info)
    with f1 have g: "pl_get (submitted st) (auctionId ev, spot1) = Some info"
      using findAuction_Some [of "submitted ?s" "auctionId ev" "adSpotId ev" spot1 info] by simp
    have "length (filter hasBid (pl_update (auctionId ev, spot1)
              (info\<lparr>earlyCampaignEvents := earlyCampaignEvents info @ [ev]\<rparr>) (submitted st)))
        = length (filter hasBid (submitted st))"
      by (rule hasBid_pl_update [OF g assms]) simp
    with False f1 Some assms show ?thesis
      by (simp add: doCampaignEvent_def Let_def campaignInFlight_def recordUnmatched_def)
  next
    case None
    obtain spot2 r2 where f2: "findAuction (finished ?s) (auctionId ev) spot1 = (spot2, r2)"
      by fastforce
    show ?thesis
    proof (cases r2)
      case (Some info)
      with False f1 None f2 assms show ?thesis
        by (simp add: doCampaignEvent_def Let_def campaignFinished_def recordUnmatched_def)
    next
      case n2: None
      with False f1 None f2 assms show ?thesis
        by (simp add: doCampaignEvent_def Let_def recordUnmatched_def)
    qed
  qed
qed

lemma settles_doCampaignEvent: "settles st (snd (doCampaignEvent cfg ev st))"
proof -
  have "appends notBanker st (snd (doCampaignEvent cfg ev st))"
    by (rule doCampaignEvent_appends) simp
  then obtain xs where xs: "effects (snd (doCampaignEvent cfg ev st)) = effects st @ xs"
    "filter isBankerCall xs = []" by (rule appends_obtain)
  from quiet_counts [OF xs(2)] xs(1) doCampaignEvent_pending [of st cfg ev]
  show ?thesis by (simp add: settles_def)
qed

lemma settles_forEach_doCampaignEvent:
  "settles st (snd (forEach (doCampaignEvent cfg) evs st))"
proof (rule forEach_invariant [of "settles st"])
  fix x s assume "settles st s"
  then show "settles st (snd (doCampaignEvent cfg x s))"
    using settles_doCampaignEvent by (rule settles_trans)
qed simp

lemma settles_doWinLoss: "settles st (snd (doWinLoss cfg now ev r st))"
proof (cases rule: doWinLoss_cases [of ev st])
  case finished
  show ?thesis
    by (simp add: doWinLoss_finished [OF finished] winLossFinished_def Let_def settles_def
        recorder_defs split: option.splits)
next
  case unknown
  have "length (filter hasBid (pl_insert (auctionId ev, adSpotId ev)
           (SubmissionInfo0\<lparr>earlyWinEvents := [ev]\<rparr>) (now + lossTimeout) (submitted st)))
      \<le> length (filter hasBid (submitted st))"
    using hasBid_pl_insert [of "(auctionId ev, adSpotId ev)"
        "SubmissionInfo0\<lparr>earlyWinEvents := [ev]\<rparr>" "now + lossTimeout" "submitted st"]
    by (simp add: SubmissionInfo0_def)
  then show ?thesis
    by (simp add: doWinLoss_unknown [OF unknown] winLossNotSubmitted_def Let_def settles_def
        recorder_defs distinct_pl_insert)
next
  case (buffered info)
  have "length (filter hasBid (pl_insert (auctionId ev, adSpotId ev)
           (info\<lparr>earlyWinEvents := earlyWinEvents info @ [ev]\<rparr>) (now + lossTimeout)
           (pl_erase (auctionId ev, adSpotId ev) (submitted st))))
      \<le> length (filter hasBid (submitted st))"
    using hasBid_pl_insert [of "(auctionId ev, adSpotId ev)"
        "info\<lparr>earlyWinEvents := earlyWinEvents info @ [ev]\<rparr>" "now + lossTimeout"
        "pl_erase (auctionId ev, adSpotId ev) (submitted st)"]
      hasBid_pl_erase_le [of "(auctionId ev, adSpotId ev)" "submitted st"] buffered(3)
    by simp
  then show ?thesis
    by (simp add: doWinLoss_buffered [OF buffered] settles_def distinct_pl_insert
        distinct_pl_erase)
next
  case (delivered info br)
  let ?d = "deliveredState ev r st"
  let ?R = "doBidResult cfg now (auctionId ev) (adSpotId ev) info (winPrice ev) (timestamp ev)
              (if evtype ev = PAE_WIN then BS_WIN else BS_LOSS)
              (if evtype ev = PAE_WIN then Guaranteed else Inferred)
              (metadata ev) (uids ev) ?d"
  obtain xs where xs: "effects (snd ?R) = effects ?d @ xs"
    "length (filter isResolution xs) \<le> 1" "filter isAttach xs = []"
    using doBidResult_counts by blast
  have p: "Suc (length (filter hasBid (pl_erase (auctionId ev, adSpotId ev) (submitted st))))
      \<le> length (filter hasBid (submitted st))"
    by (rule hasBid_pl_erase_found [OF delivered(2)]) (simp add: delivered(3))
  have 1: "settles st (snd ?R)"
    using xs p by (simp add: settles_def distinct_pl_erase)
  obtain e s where R: "?R = (e, s)" by fastforce
  with 1 have s: "settles st s" by simp
  have "settles st (snd (forEach (doCampaignEvent cfg) (earlyCampaignEvents info) s))"
    using s settles_forEach_doCampaignEvent by (rule settles_trans)
  with R s show ?thesis
    by (cases e) (simp_all add: doWinLoss_delivered [OF delivered])
qed

lemma accounted_doEvent: "accounted st \<Longrightarrow> accounted (doEvent cfg now ev st)"
proof -
  assume a: "accounted st"
  have "settles st (doEvent cfg now ev st)"
    by (cases "evtype ev") (simp_all add: doEvent_def settles_doWinLoss settles_doCampaignEvent)
  with a show ?thesis by (rule accounted_settles)
qed


lemma doAuction_popped:
  assumes "pl_get (submitted st) (sa_auctionId sev, sa_adSpotId sev) = Some s0"
  shows "doAuction cfg now sev st
     = snd (forEach (replayEarlyWin cfg now) (earlyWinEvents s0)
         (emit (AttachBid (r_account (sa_bidResponse sev))
               (makeBidId (sa_auctionId sev) (sa_adSpotId sev) (agent (sa_bidResponse sev)))
               (maxPrice (sa_bidResponse sev)))
           ((recordHit ''auctionAlreadySubmitted'' [] (recordHit ''processedAuction'' [] st))
            \<lparr>submitted := pl_insert (sa_auctionId sev, sa_adSpotId sev)
               (s0\<lparr>earlyWinEvents := [], bidRequest := sa_bidRequest sev,
                          bidRequestStrFormat := sa_bidRequestStrFormat sev,
                          bidRequestStr := sa_bidRequestStr sev,
                          augmentations := sa_augmentations sev,
                          bid := sa_bidResponse sev\<rparr>)
               (sa_lossTimeout sev)
               (pl_erase (sa_auctionId sev, sa_adSpotId sev) (submitted st))\<rparr>)))"
  using assms pl_get_Some_keys [OF assms]
  by (simp add: doAuction_def Let_def recorder_defs emit_def)

lemma accounted_doAuction:
  assumes "accounted st"
  shows "accounted (doAuction cfg now sev st)"
proof -
  let ?key = "(sa_auctionId sev, sa_adSpotId sev)"
  have step: "\<And>x s. accounted s \<Longrightarrow> accounted (snd (replayEarlyWin cfg now x s))"
  proof -
    fix x s assume a: "accounted s"
    have "settles s (recordHit ''replayedEarlyWinEvent'' [] s)"
      by (simp add: settles_def)
    then have "settles s (snd (replayEarlyWin cfg now x s))"
      unfolding replayEarlyWin_def using settles_doWinLoss by (rule settles_trans)
    with a show "accounted (snd (replayEarlyWin cfg now x s))" by (rule accounted_settles)
  qed
  have ins: "length (filter hasBid (pl_insert ?key v (sa_lossTimeout sev) pl))
      \<le> Suc (length (filter hasBid pl))" for v pl
    using hasBid_pl_insert [of ?key v "sa_lossTimeout sev" pl] by (simp split: if_splits)
  from assms have d: "distinct (map fst (submitted st))"
    and le: "length (filter isResolution (effects st)) + length (filter hasBid (submitted st))
         \<le> length (filter isAttach (effects st))"
    by (simp_all add: accounted_def)
  show ?thesis
  proof (cases "pl_get (submitted st) ?key")
    case None
    then have k: "?key \<notin> pl_keys (submitted st)" by (simp add: pl_get_None)
    let ?v = "SubmissionInfo0\<lparr>bidRequest := sa_bidRequest sev,
                          bidRequestStrFormat := sa_bidRequestStrFormat sev,
                          bidRequestStr := sa_bidRequestStr sev,
                          augmentations := sa_augmentations sev,
                          bid := sa_bidResponse sev\<rparr>"
    from ins [of ?v "submitted st"] le d show ?thesis
      by (simp add: doAuction_fresh [OF k] accounted_def distinct_pl_insert)
  next
    case (Some s0)
    let ?v = "s0\<lparr>earlyWinEvents := [], bidRequest := sa_bidRequest sev,
                          bidRequestStrFormat := sa_bidRequestStrFormat sev,
                          bidRequestStr := sa_bidRequestStr sev,
                          augmentations := sa_augmentations sev,
                          bid := sa_bidResponse sev\<rparr>"
    have "length (filter hasBid (pl_insert ?key ?v (sa_lossTimeout sev)
                  (pl_erase ?key (submitted st))))
        \<le> Suc (length (filter hasBid (pl_erase ?key (submitted st))))"
      by (rule ins)
    with hasBid_pl_erase_le [of ?key "submitted st"]
    have "length (filter hasBid (pl_insert ?key ?v (sa_lossTimeout sev)
                  (pl_erase ?key (submitted st))))
        \<le> Suc (length (filter hasBid (submitted st)))" by simp
    with le d have acc: "accounted
         (emit (AttachBid (r_account (sa_bidResponse sev))
               (makeBidId (sa_auctionId sev) (sa_adSpotId sev) (agent (sa_bidResponse sev)))
               (maxPrice (sa_bidResponse sev)))
           ((recordHit ''auctionAlreadySubmitted'' [] (recordHit ''processedAuction'' [] st))
            \<lparr>submitted := pl_insert ?key ?v (sa_lossTimeout sev)
               (pl_erase ?key (submitted st))\<rparr>))"
      by (simp add: accounted_def distinct_pl_insert distinct_pl_erase)
    show ?thesis
      unfolding doAuction_popped [OF Some]
      by (rule forEach_invariant [where P = accounted and f = "replayEarlyWin cfg now"],
          erule step, rule acc)
  qed
qed


lemma onExpiredSubmitted_counts:
  "\<exists>xs. effects (snd (onExpiredSubmitted cfg start key info s)) = effects s @ xs
      \<and> length (filter isResolution xs) \<le> (if bidRequest info = None then 0 else 1)
      \<and> filter isAttach xs = []"
proof (cases "bidRequest info = None")
  case True
  then show ?thesis by (simp add: onExpiredSubmitted_without_bid)
next
  case False
  let ?s = "recordHit ''submittedAuctionExpiry'' [] s"
  let ?R = "doBidResult cfg start (fst key) (snd key) info 0 start BS_LOSS Inferred ''null'' {} ?s"
  obtain xs where xs: "effects (snd ?R) = effects ?s @ xs"
    "length (filter isResolution xs) \<le> 1" "filter isAttach xs = []"
    using doBidResult_counts by blast
  obtain e s' where R: "?R = (e, s')" by fastforce
  with xs False show ?thesis
    by (cases e) (auto simp add: onExpiredSubmitted_with_bid)
qed

lemma sweptSubmitted_counts:
  "length (filter isResolution (effects
      (fold (\<lambda>e s. snd (onExpiredSubmitted cfg start (fst e) (fst (snd e)) s)) es s)))
     \<le> length (filter isResolution (effects s)) + length (filter hasBid es)
   \<and> length (filter isAttach (effects
      (fold (\<lambda>e s. snd (onExpiredSubmitted cfg start (fst e) (fst (snd e)) s)) es s)))
     = length (filter isAttach (effects s))"
proof (induction es arbitrary: s)
  case Nil
  then show ?case by simp
next
  case (Cons e es)
  let ?s' = "snd (onExpiredSubmitted cfg start (fst e) (fst (snd e)) s)"
  obtain xs where xs: "effects ?s' = effects s @ xs"
    "length (filter isResolution xs) \<le> (if bidRequest (fst (snd e)) = None then 0 else 1)"
    "filter isAttach xs = []"
    using onExpiredSubmitted_counts by blast
  from Cons.IH [of ?s'] xs show ?case
    by (auto simp add: hasBid_def)
qed

lemma disjoint_filters:
  assumes "\<And>x. x \<in> set xs \<Longrightarrow> \<not> (P x \<and> Q x)"
  shows "length (filter (\<lambda>x. H x \<and> P x) xs) + length (filter (\<lambda>x. H x \<and> Q x) xs)
     \<le> length (filter H xs)"
  using assms by (induction xs) auto

lemma expired_hasBid:
  "length (filter hasBid (expired now pl))
     = length (filter (\<lambda>e. hasBid e \<and> snd (snd e) \<le> now) pl)"
proof -
  have "filter hasBid (expired now pl)
      = sort_key (\<lambda>e. snd (snd e)) (filter hasBid (filter (\<lambda>e. snd (snd e) \<le> now) pl))"
    by (simp add: expired_def filter_sort)
  then show ?thesis by (simp add: conj_commute)
qed

lemma sweep_pending:
  "length (filter hasBid (filter (\<lambda>e. fst e \<notin> pl_keys (expired now pl)) pl))
     + length (filter hasBid (expired now pl))
   \<le> length (filter hasBid pl)"
proof -
  have "\<And>x. x \<in> set pl \<Longrightarrow>
      \<not> (fst x \<notin> pl_keys (expired now pl) \<and> snd (snd x) \<le> now)"
    by (auto simp: pl_keys_def expired_set)
  from disjoint_filters [of pl "\<lambda>e. fst e \<notin> pl_keys (expired now pl)"
      "\<lambda>e. snd (snd e) \<le> now" hasBid, OF this]
  show ?thesis by (simp add: expired_hasBid conj_commute)
qed

lemma accounted_checkExpiredAuctions:
  assumes "accounted st"
  shows "accounted (checkExpiredAuctions cfg now st)"
proof -
  let ?S = "sweptSubmitted cfg now st"
  have c: "length (filter isResolution (effects ?S))
     \<le> length (filter isResolution (effects st)) + length (filter hasBid (expired now (submitted st)))"
    "length (filter isAttach (effects ?S)) = length (filter isAttach (effects st))"
    unfolding sweptSubmitted_def using sweptSubmitted_counts by blast+
  have d: "distinct (map fst (filter (\<lambda>e. fst e \<notin> pl_keys (expired now (submitted st)))
              (submitted st)))"
    using assms by (simp add: accounted_def distinct_map_filter)
  from assms have le: "length (filter isResolution (effects st))
      + length (filter hasBid (submitted st)) \<le> length (filter isAttach (effects st))"
    by (simp add: accounted_def)
  from c d le sweep_pending [of now "submitted st"] show ?thesis
    by (simp add: checkExpiredAuctions_eq accounted_def)
qed

lemma accounted_run: "accounted st \<Longrightarrow> accounted (run cfg ops st)"
proof (induction ops arbitrary: st)
  case Nil
  then show ?case by (simp add: run_def)
next
  case (Cons op ops)
  have "accounted (step cfg op st)"
    using Cons.prems
    by (cases op)
       (simp_all add: accounted_doAuction accounted_doEvent accounted_checkExpiredAuctions)
  from Cons.IH [OF this] show ?case by (simp add: run_def)
qed

lemma accounted_initialState: "accounted initialState"
  by (simp add: accounted_def initialState_def)

section \<open>Banker commits over a history\<close>

lemma doWinLoss_delivered_invalid:
  assumes "(auctionId ev, adSpotId ev) \<notin> pl_keys (finished st)"
    and "pl_get (submitted st) (auctionId ev, adSpotId ev) = Some info"
    and "bidRequest info = Some br"
    and "adSpotId ev = nullId \<or> r_account (bid info) = []"
  shows "filter isBankerCall (newEffects st (snd (doWinLoss cfg now ev r st))) = []"
proof -
  let ?status = "if evtype ev = PAE_WIN then BS_WIN else BS_LOSS"
  let ?conf = "if evtype ev = PAE_WIN then Guaranteed else Inferred"
  let ?d = "deliveredState ev r st"
  have "\<not> ((?status = BS_WIN \<or> ?status = BS_LOSS) \<and> adSpotId ev \<noteq> nullId
         \<and> bidRequest info \<noteq> None \<and> r_account (bid info) \<noteq> [])"
    using assms(4) by auto
  from doBidResult_early [OF this, of cfg now "auctionId ev" "winPrice ev" "timestamp ev" ?conf
      "metadata ev" "uids ev" ?d]
  obtain e errs where R: "doBidResult cfg now (auctionId ev) (adSpotId ev) info (winPrice ev)
        (timestamp ev) ?status ?conf (metadata ev) (uids ev) ?d
       = (Some e, ?d\<lparr>effects := effects ?d @ errs\<rparr>)"
    and errs: "\<forall>x \<in> set errs. \<exists>sc m. x = DoError sc m"
    by blast
  from errs have "filter isBankerCall errs = []" by (auto simp: filter_empty_conv)
  with R show ?thesis
    by (simp add: doWinLoss_delivered [OF assms(1,2,3)] newEffects_def)
qed

lemma doWinLoss_really_late:
  assumes "(auctionId ev, adSpotId ev) \<notin> pl_keys (finished st)"
    and "(auctionId ev, adSpotId ev) \<notin> pl_keys (submitted st)"
    and "\<not> getTimeGapMs now ev < lossTimeout * 1000" and "account ev \<noteq> []"
  shows "filter isBankerCall (newEffects st (snd (doWinLoss cfg now ev r st)))
     = [ForceWinBid (account ev) (winPrice ev)]"
  using assms(3,4)
  by (simp add: doWinLoss_unknown [OF assms(1,2)] winLossNotSubmitted_def Let_def
      newEffects_def recorder_defs)


text \<open>
  Claim C1, as the code has it. Over any history of submissions, events and sweeps
  from the empty matcher, \<open>winBid\<close> and \<open>cancelBid\<close> are made at most once per
  submission: their number, together with the submissions with a bid request still
  in \<open>submitted\<close>, never exceeds the number of \<open>attachBid\<close> calls. A submission with
  a bid request is resolved by the win or loss event that finds it in \<open>submitted\<close>
  (its key not being finished) or by the sweep that expires it; when its ad spot is
  not null and its account not empty that step makes exactly one banker commit,
  \<open>cancelBid\<close> or (for a win) \<open>winBid\<close>, on its account and bid id; when the ad spot
  is null or the account empty the event makes no banker call at all. \<open>forceWinBid\<close>
  comes on top and is not bounded: a win for a key finished as a loss makes one, on
  the stored account, and so does every win or loss event with a non-empty account
  whose key is in neither table and whose bid is older than the loss timeout.
\<close>

theorem commits_per_submission:
  "accounted (run cfg ops initialState)
   \<and> length (filter isResolution (effects (run cfg ops initialState)))
       \<le> length (filter isAttach (effects (run cfg ops initialState)))
   \<and> (bidRequest info = Some br
        \<and> pl_get (submitted st) (auctionId ev, adSpotId ev) = Some info
        \<and> (auctionId ev, adSpotId ev) \<notin> pl_keys (finished st)
      \<longrightarrow> (adSpotId ev \<noteq> nullId \<and> r_account (bid info) \<noteq> []
           \<longrightarrow> (\<exists>c. filter isBankerCommit (newEffects st (snd (doWinLoss cfg now ev r st))) = [c]
                  \<and> (c = CancelBid (r_account (bid info))
                           (makeBidId (auctionId ev) (adSpotId ev) (agent (bid info)))
                     \<or> evtype ev = PAE_WIN
                       \<and> (\<exists>p. c = WinBid (r_account (bid info))
                                   (makeBidId (auctionId ev) (adSpotId ev) (agent (bid info)))
                                   p)))
               \<and> filter isBankerCommit
                    (newEffects st
                       (snd (onExpiredSubmitted cfg start (auctionId ev, adSpotId ev) info st)))
                   = [CancelBid (r_account (bid info))
                        (makeBidId (auctionId ev) (adSpotId ev) (agent (bid info)))])
          \<and> (adSpotId ev = nullId \<or> r_account (bid info) = []
               \<longrightarrow> filter isBankerCall (newEffects st (snd (doWinLoss cfg now ev r st))) = []))
   \<and> (pl_get (finished st) (auctionId ev, adSpotId ev) = Some fi
        \<and> reportedStatus fi = BS_LOSS \<and> evtype ev = PAE_WIN
      \<longrightarrow> filter isBankerCommit (newEffects st (snd (doWinLoss cfg now ev r st)))
            = [ForceWinBid (r_account (fi_bid fi)) (winPrice ev)])
   \<and> ((auctionId ev, adSpotId ev) \<notin> pl_keys (finished st)
        \<and> (auctionId ev, adSpotId ev) \<notin> pl_keys (submitted st)
        \<and> \<not> getTimeGapMs now ev < lossTimeout * 1000 \<and> account ev \<noteq> []
      \<longrightarrow> filter isBankerCommit (newEffects st (snd (doWinLoss cfg now ev r st)))
            = [ForceWinBid (account ev) (winPrice ev)])"
proof (intro conjI impI)
  show acc: "accounted (run cfg ops initialState)"
    by (rule accounted_run [OF accounted_initialState])
  then show "length (filter isResolution (effects (run cfg ops initialState)))
       \<le> length (filter isAttach (effects (run cfg ops initialState)))"
    by (simp add: accounted_def)
next
  assume a: "bidRequest info = Some br
        \<and> pl_get (submitted st) (auctionId ev, adSpotId ev) = Some info
        \<and> (auctionId ev, adSpotId ev) \<notin> pl_keys (finished st)"
    and b: "adSpotId ev \<noteq> nullId \<and> r_account (bid info) \<noteq> []"
  from a b doWinLoss_delivered_commit [of ev st info br cfg now r]
  obtain c where c: "filter isBankerCall (newEffects st (snd (doWinLoss cfg now ev r st))) = [c]"
    "c = CancelBid (r_account (bid info))
                    (makeBidId (auctionId ev) (adSpotId ev) (agent (bid info)))
              \<or> evtype ev = PAE_WIN
                \<and> (\<exists>p. c = WinBid (r_account (bid info))
                            (makeBidId (auctionId ev) (adSpotId ev) (agent (bid info))) p)"
    by blast
  then have "isBankerCommit c" by auto
  with c(1) have "filter isBankerCommit (newEffects st (snd (doWinLoss cfg now ev r st))) = [c]"
    by (rule only_call_only_commit)
  with c(2) show "\<exists>c. filter isBankerCommit (newEffects st (snd (doWinLoss cfg now ev r st))) = [c]
                  \<and> (c = CancelBid (r_account (bid info))
                           (makeBidId (auctionId ev) (adSpotId ev) (agent (bid info)))
                     \<or> evtype ev = PAE_WIN
                       \<and> (\<exists>p. c = WinBid (r_account (bid info))
                                   (makeBidId (auctionId ev) (adSpotId ev) (agent (bid info)))
                                   p))"
    by blast
  from a b have "filter isBankerCall
          (newEffects st (snd (onExpiredSubmitted cfg start (auctionId ev, adSpotId ev) info st)))
         = [CancelBid (r_account (bid info))
              (makeBidId (auctionId ev) (adSpotId ev) (agent (bid info)))]"
    by (intro onExpiredSubmitted_commit) simp_all
  then show "filter isBankerCommit
          (newEffects st (snd (onExpiredSubmitted cfg start (auctionId ev, adSpotId ev) info st)))
         = [CancelBid (r_account (bid info))
              (makeBidId (auctionId ev) (adSpotId ev) (agent (bid info)))]"
    by (rule only_call_only_commit) simp
next
  assume a: "bidRequest info = Some br
        \<and> pl_get (submitted st) (auctionId ev, adSpotId ev) = Some info
        \<and> (auctionId ev, adSpotId ev) \<notin> pl_keys (finished st)"
    and b: "adSpotId ev = nullId \<or> r_account (bid info) = []"
  then show "filter isBankerCall (newEffects st (snd (doWinLoss cfg now ev r st))) = []"
    by (intro doWinLoss_delivered_invalid [of ev st info br]) simp_all
next
  assume "pl_get (finished st) (auctionId ev, adSpotId ev) = Some fi
        \<and> reportedStatus fi = BS_LOSS \<and> evtype ev = PAE_WIN"
  then show "filter isBankerCommit (newEffects st (snd (doWinLoss cfg now ev r st)))
            = [ForceWinBid (r_account (fi_bid fi)) (winPrice ev)]"
    by (simp add: doWinLoss_lateWin newEffects_def)
next
  assume a: "(auctionId ev, adSpotId ev) \<notin> pl_keys (finished st)
        \<and> (auctionId ev, adSpotId ev) \<notin> pl_keys (submitted st)
        \<and> \<not> getTimeGapMs now ev < lossTimeout * 1000 \<and> account ev \<noteq> []"
  then have "filter isBankerCall (newEffects st (snd (doWinLoss cfg now ev r st)))
            = [ForceWinBid (account ev) (winPrice ev)]"
    by (intro doWinLoss_really_late) simp_all
  then show "filter isBankerCommit (newEffects st (snd (doWinLoss cfg now ev r st)))
            = [ForceWinBid (account ev) (winPrice ev)]"
    by (rule only_call_only_commit) simp
qed

theorem commits_per_submission_witness:
  "length (filter isResolution (effects
      (run cfg0 [OpAuction 0 submit1, OpSweep 20, OpEvent 30 win1] initialState))) = 1
   \<and> length (filter isAttach (effects
      (run cfg0 [OpAuction 0 submit1, OpSweep 20, OpEvent 30 win1] initialState))) = 1
   \<and> bidRequest info1 = Some \<lparr>spots = [''S1'']\<rparr> \<and> adSpotId win1 \<noteq> nullId
   \<and> r_account (bid info1) \<noteq> []
   \<and> pl_get (submitted st1) (auctionId win1, adSpotId win1) = Some info1
   \<and> (auctionId win1, adSpotId win1) \<notin> pl_keys (finished st1)
   \<and> filter isBankerCommit (newEffects st1 (snd (doWinLoss cfg0 1 win1 False st1)))
       = [WinBid [''camp'', ''strat''] ''A1-S1-bob'' 80]
   \<and> filter isBankerCommit
        (newEffects st1 (snd (onExpiredSubmitted cfg0 20 (auctionId win1, adSpotId win1) info1 st1)))
       = [CancelBid [''camp'', ''strat''] ''A1-S1-bob'']
   \<and> pl_get (finished stLost1) (auctionId win1, adSpotId win1) = Some fiLost1
   \<and> reportedStatus fiLost1 = BS_LOSS \<and> evtype win1 = PAE_WIN
   \<and> filter isBankerCommit (newEffects stLost1 (snd (doWinLoss cfg0 30 win1 False stLost1)))
       = [ForceWinBid [''camp'', ''strat''] 80]
   \<and> (auctionId win1, adSpotId win1) \<notin> pl_keys (submitted initialState)
   \<and> \<not> getTimeGapMs 4001 win1 < lossTimeout * 1000 \<and> account win1 \<noteq> []
   \<and> filter isBankerCommit
        (newEffects initialState (snd (doWinLoss cfg0 4001 win1 False initialState)))
       = [ForceWinBid [''camp'', ''strat''] 80]"
proof -
  have h: "bidRequest info1 = Some \<lparr>spots = [''S1'']\<rparr>" "adSpotId win1 \<noteq> nullId"
    "r_account (bid info1) \<noteq> []"
    "pl_get (submitted st1) (auctionId win1, adSpotId win1) = Some info1"
    "(auctionId win1, adSpotId win1) \<notin> pl_keys (finished st1)"
    "pl_get (finished stLost1) (auctionId win1, adSpotId win1) = Some fiLost1"
    "reportedStatus fiLost1 = BS_LOSS" "evtype win1 = PAE_WIN"
    "(auctionId win1, adSpotId win1) \<notin> pl_keys (submitted initialState)"
    "(auctionId win1, adSpotId win1) \<notin> pl_keys (finished initialState)"
    "\<not> getTimeGapMs 4001 win1 < lossTimeout * 1000" "account win1 \<noteq> []"
    by (simp_all add: matcher_defs example_defs pl_defs Let_def)
  have v: "filter isBankerCommit (newEffects st1 (snd (doWinLoss cfg0 1 win1 False st1)))
       = [WinBid [''camp'', ''strat''] ''A1-S1-bob'' 80]"
    "length (filter isAttach (effects
      (run cfg0 [OpAuction 0 submit1, OpSweep 20, OpEvent 30 win1] initialState))) = 1"
    "length (filter isResolution (effects
      (run cfg0 [OpAuction 0 submit1, OpSweep 20, OpEvent 30 win1] initialState))) = 1"
    by (simp_all add: run_def matcher_defs example_defs pl_defs Let_def newEffects_def)
  have e: "r_account (bid info1) = [''camp'', ''strat'']" "agent (bid info1) = ''bob''"
    "auctionId win1 = ''A1''" "adSpotId win1 = ''S1''" "winPrice win1 = 80"
    "account win1 = [''camp'', ''strat'']"
    "r_account (fi_bid fiLost1) = [''camp'', ''strat'']"
    "makeBidId ''A1'' ''S1'' ''bob'' = ''A1-S1-bob''"
    by (simp_all add: example_defs makeFinishedInfo_def addUids_def setWin_def makeBidId_def)
  from commits_per_submission [of cfg0 "[OpAuction 0 submit1, OpSweep 20, OpEvent 30 win1]"
      info1 "\<lparr>spots = [''S1'']\<rparr>" st1 win1 1 False 20 fiLost1]
    commits_per_submission [of cfg0 "[]" info1 "\<lparr>spots = [''S1'']\<rparr>" stLost1 win1 30
      False 20 fiLost1]
    commits_per_submission [of cfg0 "[]" info1 "\<lparr>spots = [''S1'']\<rparr>" initialState win1 4001
      False 20 fiLost1]
    h v
  show ?thesis by (simp add: e)
qed

text \<open>
  Claim C1 as stated fails in both directions. \<open>submit1\<close>, swept as an inferred loss
  and then won late, sees two commits; swept, expired from \<open>finished\<close> and then
  reported won twice, it sees three. The same auction submitted with an empty account,
  or with a null ad spot, and then won sees none, and none at the sweep either.
\<close>

theorem commits_per_submission_counterexample:
  "filter isBankerCommit (effects
      (run cfg0 [OpAuction 0 submit1, OpSweep 20, OpEvent 30 win1] initialState))
     = [CancelBid [''camp'', ''strat''] ''A1-S1-bob'', ForceWinBid [''camp'', ''strat''] 80]
   \<and> filter isBankerCommit (effects
      (run cfg0 [OpAuction 0 submit1, OpSweep 20, OpSweep 4000, OpEvent 4001 win1,
                 OpEvent 4002 win1] initialState))
     = [CancelBid [''camp'', ''strat''] ''A1-S1-bob'', ForceWinBid [''camp'', ''strat''] 80,
        ForceWinBid [''camp'', ''strat''] 80]
   \<and> filter isBankerCommit (effects
      (run cfg0 [OpAuction 0 submitNoAccount, OpEvent 1 win1, OpSweep 20] initialState)) = []
   \<and> filter isBankerCommit (effects
      (run cfg0 [OpAuction 0 submitNoSpot, OpEvent 1 winNoSpot, OpSweep 20] initialState)) = []"
  by (simp add: run_def matcher_defs example_defs pl_defs Let_def)

end
